(* ===== verification/Prelude.thy ===== *)
theory Prelude
  imports Main "HOL-Library.Word" "HOL-Library.AList" "HOL-Library.FSet"
    "HOL-Library.List_Lexorder"
begin

text \<open>
  Shared ground of the development: the machine integers of the Rust sources, the result type
  of fallible code, the statement combinators in which the handlers of the actors are written,
  the map operations the code uses of \<open>HashMap\<close>, and the generic lemmas about them.

  The sources are built in release mode (the benchmark scripts run \<open>cargo build --release\<close>), where
  unsigned arithmetic wraps around; \<open>u8\<close>, \<open>u32\<close>, \<open>u64\<close> and \<open>usize\<close> are words of their
  width, on which \<open>+\<close> and \<open>-\<close> wrap.
\<close>

named_theorems keep_rules \<open>how the statement combinators keep a step relation\<close>
named_theorems map_ops \<open>the HashMap operations of the sources\<close>

type_synonym u8 = "8 word"
type_synonym u32 = "32 word"
type_synonym u64 = "64 word"
type_synonym usize = "64 word"
type_synonym byte = "8 word"
type_synonym bytes = "byte list"

section \<open>Results\<close>

text \<open>
  A Rust function that returns \<open>Result<T, E>\<close> and may also panic: \<open>Ok\<close> and \<open>Err\<close> are the
  two constructors of the standard library, \<open>Panic\<close> is an \<open>unwrap\<close>, \<open>expect\<close>, index or
  \<open>panic!\<close> that fires. \<open>OutOfFuel\<close> is no behaviour of the code: it marks a recursion or a
  loop that the model stopped counting.
\<close>

datatype ('e, 'a) result = Ok 'a | Err 'e | Panic | OutOfFuel

fun rbind :: "('e, 'a) result \<Rightarrow> ('a \<Rightarrow> ('e, 'b) result) \<Rightarrow> ('e, 'b) result" where
  "rbind (Ok x) f = f x"
| "rbind (Err e) f = Err e"
| "rbind Panic f = Panic"
| "rbind OutOfFuel f = OutOfFuel"

fun map_err :: "('e \<Rightarrow> 'f) \<Rightarrow> ('e, 'a) result \<Rightarrow> ('f, 'a) result" where
  "map_err f (Ok x) = Ok x"
| "map_err f (Err e) = Err (f e)"
| "map_err f Panic = Panic"
| "map_err f OutOfFuel = OutOfFuel"

fun unwrap :: "'a option \<Rightarrow> ('e, 'a) result" where
  "unwrap (Some x) = Ok x"
| "unwrap None = Panic"

fun ok_or :: "'e \<Rightarrow> 'a option \<Rightarrow> ('e, 'a) result" where
  "ok_or e (Some x) = Ok x"
| "ok_or e None = Err e"

definition ensure :: "bool \<Rightarrow> 'e \<Rightarrow> ('e, unit) result" where
  "ensure c e = (if c then Ok () else Err e)"

text \<open>A sequence of checks, each followed by \<open>?\<close>: the first that does not succeed is the result.\<close>

fun checks :: "('e, unit) result list \<Rightarrow> ('e, unit) result" where
  "checks [] = Ok ()"
| "checks (r # rs) = rbind r (\<lambda>_. checks rs)"

lemma ensure_Ok [simp]: "ensure c e = Ok () \<longleftrightarrow> c"
  by (simp add: ensure_def)

lemma ensure_Err [simp]: "ensure c e = Err e' \<longleftrightarrow> \<not> c \<and> e' = e"
  by (auto simp: ensure_def)

lemma ensure_no_Panic [simp]: "ensure c e \<noteq> Panic"
  by (simp add: ensure_def)

lemma ensure_no_OutOfFuel [simp]: "ensure c e \<noteq> OutOfFuel"
  by (simp add: ensure_def)

lemma rbind_Ok: "rbind r f = Ok y \<longleftrightarrow> (\<exists>x. r = Ok x \<and> f x = Ok y)"
  by (cases r) auto

lemma rbind_Panic: "rbind r f = Panic \<longleftrightarrow> r = Panic \<or> (\<exists>x. r = Ok x \<and> f x = Panic)"
  by (cases r) auto

lemma rbind_ensure [simp]: "rbind (ensure c e) f = (if c then f () else Err e)"
  by (simp add: ensure_def)

lemma map_err_Ok [simp]: "map_err f r = Ok x \<longleftrightarrow> r = Ok x"
  by (cases r) auto

lemma map_err_Panic [simp]: "map_err f r = Panic \<longleftrightarrow> r = Panic"
  by (cases r) auto

lemma checks_Ok: "checks rs = Ok () \<longleftrightarrow> (\<forall>r \<in> set rs. r = Ok ())"
  by (induction rs) (auto simp: rbind_Ok)

lemma checks_append: "checks (rs @ ss) = rbind (checks rs) (\<lambda>_. checks ss)"
proof (induction rs)
  case Nil
  then show ?case by simp
next
  case (Cons r rs)
  then show ?case by (cases r) auto
qed

lemma checks_no_Panic: "\<forall>r \<in> set rs. r \<noteq> Panic \<Longrightarrow> checks rs \<noteq> Panic"
  by (induction rs) (auto simp: rbind_Panic)

section \<open>Statements over a state\<close>

text \<open>
  A handler runs on the state of its actor and ends with a result; the state changes made
  before an error stay, as they do when Rust leaves a \<open>&mut self\<close> method through \<open>?\<close>.
\<close>

type_synonym ('s, 'e, 'a) comp = "'s \<Rightarrow> 's \<times> ('e, 'a) result"

definition ret :: "'a \<Rightarrow> ('s, 'e, 'a) comp" where
  "ret x = (\<lambda>s. (s, Ok x))"

definition bindM :: "('s, 'e, 'a) comp \<Rightarrow> ('a \<Rightarrow> ('s, 'e, 'b) comp) \<Rightarrow> ('s, 'e, 'b) comp" where
  "bindM m f = (\<lambda>s. case m s of
      (s', Ok x) \<Rightarrow> f x s'
    | (s', Err e) \<Rightarrow> (s', Err e)
    | (s', Panic) \<Rightarrow> (s', Panic)
    | (s', OutOfFuel) \<Rightarrow> (s', OutOfFuel))"

definition liftR :: "('e, 'a) result \<Rightarrow> ('s, 'e, 'a) comp" where
  "liftR r = (\<lambda>s. (s, r))"

definition modifyM :: "('s \<Rightarrow> 's) \<Rightarrow> ('s, 'e, unit) comp" where
  "modifyM f = (\<lambda>s. (f s, Ok ()))"

definition readM :: "('s \<Rightarrow> ('s, 'e, 'a) comp) \<Rightarrow> ('s, 'e, 'a) comp" where
  "readM k = (\<lambda>s. k s s)"

definition ensureM :: "('s \<Rightarrow> bool) \<Rightarrow> 'e \<Rightarrow> ('s, 'e, unit) comp" where
  "ensureM c e = (\<lambda>s. (s, ensure (c s) e))"

definition whenM :: "('s \<Rightarrow> bool) \<Rightarrow> ('s, 'e, unit) comp \<Rightarrow> ('s, 'e, unit) comp" where
  "whenM c m = (\<lambda>s. if c s then m s else (s, Ok ()))"

text \<open>
  \<open>unlessM c m\<close> is an early return: where \<open>c\<close> holds the rest \<open>m\<close> of the function is
  left out and the function has returned \<open>Ok(())\<close>.
\<close>

definition unlessM :: "('s \<Rightarrow> bool) \<Rightarrow> ('s, 'e, unit) comp \<Rightarrow> ('s, 'e, unit) comp" where
  "unlessM c m = (\<lambda>s. if c s then (s, Ok ()) else m s)"

fun stmts :: "('s, 'e, unit) comp list \<Rightarrow> ('s, 'e, unit) comp" where
  "stmts [] = ret ()"
| "stmts (m # ms) = bindM m (\<lambda>_. stmts ms)"

fun forM :: "'x list \<Rightarrow> ('x \<Rightarrow> ('s, 'e, unit) comp) \<Rightarrow> ('s, 'e, unit) comp" where
  "forM [] body = ret ()"
| "forM (x # xs) body = bindM (body x) (\<lambda>_. forM xs body)"

lemmas comp_defs = ret_def bindM_def liftR_def modifyM_def readM_def ensureM_def whenM_def unlessM_def

lemma bindM_ret [simp]: "bindM (ret x) f = f x"
  by (simp add: bindM_def ret_def)

lemma bindM_assoc: "bindM (bindM m f) g = bindM m (\<lambda>x. bindM (f x) g)"
  by (rule ext) (simp add: bindM_def split: prod.splits result.splits)

lemma bindM_Ok: "bindM m f s = (t, Ok y) \<longleftrightarrow> (\<exists>x s'. m s = (s', Ok x) \<and> f x s' = (t, Ok y))"
  by (auto simp: bindM_def split: prod.splits result.splits)

lemma stmts_append: "stmts (ms @ ns) = bindM (stmts ms) (\<lambda>_. stmts ns)"
  by (induction ms) (simp_all add: bindM_assoc)

subsection \<open>Relations every step keeps\<close>

text \<open>
  \<open>keeps R m\<close>: whatever the result of \<open>m\<close> (a panic and an error included), the state
  before and the state after are related. An invariant \<open>I\<close> is the relation
  \<open>\<lambda>s t. I s \<longrightarrow> I t\<close>; monotonicity of a counter is a relation too.
\<close>

definition keeps :: "('s \<Rightarrow> 's \<Rightarrow> bool) \<Rightarrow> ('s, 'e, 'a) comp \<Rightarrow> bool" where
  "keeps R m \<longleftrightarrow> (\<forall>s. R s (fst (m s)))"

lemma keepsD: "keeps R m \<Longrightarrow> m s = (t, r) \<Longrightarrow> R s t"
  by (metis fst_conv keeps_def)

locale step_order =
  fixes R :: "'s \<Rightarrow> 's \<Rightarrow> bool"
  assumes R_refl: "R s s"
    and R_trans: "R s t \<Longrightarrow> R t u \<Longrightarrow> R s u"
begin

lemma keeps_ret [keep_rules]: "keeps R (ret x)"
  by (simp add: keeps_def ret_def R_refl)

lemma keeps_lift [keep_rules]: "keeps R (liftR r)"
  by (simp add: keeps_def liftR_def R_refl)

lemma keeps_ensure [keep_rules]: "keeps R (ensureM c e)"
  by (simp add: keeps_def ensureM_def R_refl)

lemma keeps_bind [keep_rules]:
  assumes "keeps R m" and "\<And>x. keeps R (f x)"
  shows "keeps R (bindM m f)"
proof -
  have "R s (fst (bindM m f s))" for s
  proof (cases "m s")
    case (Pair s' r)
    with assms(1) have "R s s'" by (rule keepsD)
    moreover have "R s' (fst (f x s'))" for x
      using assms(2) by (simp add: keeps_def)
    ultimately show ?thesis
      using Pair by (cases r) (auto simp: bindM_def intro: R_trans)
  qed
  then show ?thesis by (simp add: keeps_def)
qed

lemma keeps_when [keep_rules]: "keeps R m \<Longrightarrow> keeps R (whenM c m)"
  by (simp add: keeps_def whenM_def R_refl)

lemma keeps_unless [keep_rules]: "keeps R m \<Longrightarrow> keeps R (unlessM c m)"
  by (simp add: keeps_def unlessM_def R_refl)

lemma keeps_stmts [keep_rules]: "(\<And>m. m \<in> set ms \<Longrightarrow> keeps R m) \<Longrightarrow> keeps R (stmts ms)"
  by (induction ms) (auto intro: keeps_ret keeps_bind)

lemma keeps_for [keep_rules]: "(\<And>x. x \<in> set xs \<Longrightarrow> keeps R (body x)) \<Longrightarrow> keeps R (forM xs body)"
  by (induction xs) (auto intro: keeps_ret keeps_bind)

lemma keeps_modify: "(\<And>s. R s (f s)) \<Longrightarrow> keeps R (modifyM f)"
  by (simp add: keeps_def modifyM_def)

text \<open>Where the guard matters for the first statement behind it.\<close>

lemma bindM_fst:
  assumes "R s (fst (m s))" and "\<And>x. keeps R (f x)"
  shows "R s (fst (bindM m f s))"
proof (cases "m s")
  case (Pair s' r)
  have "R s' (fst (f x s'))" for x
    using assms(2) by (simp add: keeps_def)
  with assms(1) Pair show ?thesis
    by (cases r) (auto simp: bindM_def intro: R_trans)
qed

lemma keeps_when_first:
  assumes "\<And>s. c s \<Longrightarrow> R s (fst (m s))" and "keeps R (stmts ms)"
  shows "keeps R (whenM c (stmts (m # ms)))"
  using assms bindM_fst [of _ m "\<lambda>_. stmts ms"] by (simp add: keeps_def whenM_def R_refl)

lemma keeps_unless_first:
  assumes "\<And>s. \<not> c s \<Longrightarrow> R s (fst (m s))" and "\<And>x. keeps R (f x)"
  shows "keeps R (unlessM c (bindM m f))"
  using assms bindM_fst [of _ m f] by (simp add: keeps_def unlessM_def R_refl)

lemma keeps_read [keep_rules]: "(\<And>s. keeps R (k s)) \<Longrightarrow> keeps R (readM k)"
  by (simp add: keeps_def readM_def)

end

section \<open>HashMap and HashSet\<close>

text \<open>
  A \<open>HashMap\<close> that is only looked up, inserted into and filtered is a map. \<open>entry_or m k d\<close>
  is the value \<open>m.entry(k).or_insert(d)\<close> refers to; the insertion itself is
  \<open>m(k \<mapsto> entry_or m k d)\<close>. \<open>retain P m\<close> keeps the entries whose key satisfies \<open>P\<close>.
\<close>

definition entry_or :: "('k \<rightharpoonup> 'v) \<Rightarrow> 'k \<Rightarrow> 'v \<Rightarrow> 'v" where
  "entry_or m k d = (case m k of None \<Rightarrow> d | Some v \<Rightarrow> v)"

definition or_insert :: "('k \<rightharpoonup> 'v) \<Rightarrow> 'k \<Rightarrow> 'v \<Rightarrow> ('k \<rightharpoonup> 'v)" where
  "or_insert m k d = m(k \<mapsto> entry_or m k d)"

definition retain :: "('k \<Rightarrow> bool) \<Rightarrow> ('k \<rightharpoonup> 'v) \<Rightarrow> ('k \<rightharpoonup> 'v)" where
  "retain P m = (\<lambda>k. if P k then m k else None)"

lemma entry_or_Some [simp, map_ops]: "m k = Some v \<Longrightarrow> entry_or m k d = v"
  by (simp add: entry_or_def)

lemma entry_or_None [simp, map_ops]: "m k = None \<Longrightarrow> entry_or m k d = d"
  by (simp add: entry_or_def)

lemma or_insert_same [simp, map_ops]: "or_insert m k d k = Some (entry_or m k d)"
  by (simp add: or_insert_def)

lemma or_insert_other [map_ops]: "k' \<noteq> k \<Longrightarrow> or_insert m k d k' = m k'"
  by (simp add: or_insert_def)

lemma entry_or_insert [simp, map_ops]: "entry_or (or_insert m k d) k' d = entry_or m k' d"
  by (simp add: or_insert_def entry_or_def)

lemma retain_Some [simp, map_ops]: "retain P m k = Some v \<longleftrightarrow> P k \<and> m k = Some v"
  by (simp add: retain_def)

lemma retain_drops [simp, map_ops]: "\<not> P k \<Longrightarrow> retain P m k = None"
  by (simp add: retain_def)

lemma retain_keeps [map_ops]: "P k \<Longrightarrow> retain P m k = m k"
  by (simp add: retain_def)

lemma retain_False: "(\<And>k. \<not> P k) \<Longrightarrow> retain P m = Map.empty"
  by (rule ext) (simp add: retain_def)

lemma dom_retain: "dom (retain P m) = {k \<in> dom m. P k}"
  by (auto simp: retain_def dom_def)

section \<open>Lists and words\<close>

lemma unat_sum_list:
  fixes ws :: "'a::len word list"
  assumes "sum_list (map unat ws) < 2 ^ LENGTH('a)"
  shows "unat (sum_list ws) = sum_list (map unat ws)"
  using assms
proof (induction ws)
  case Nil
  then show ?case by simp
next
  case (Cons w ws)
  then have "unat (sum_list ws) = sum_list (map unat ws)" by simp
  with Cons.prems show ?case by (simp add: unat_word_ariths)
qed

lemma sum_list_map_filter_le:
  fixes f :: "'a \<Rightarrow> nat"
  shows "sum_list (map f (filter P xs)) \<le> sum_list (map f xs)"
  by (induction xs) auto

lemma distinct_map_fst_map_of: "distinct (map fst al) \<Longrightarrow> (k, v) \<in> set al \<Longrightarrow> map_of al k = Some v"
  by (simp add: map_of_eq_Some_iff)

text \<open>The first element of a list that satisfies a predicate decides a fold that stops there.\<close>

lemma filter_eq_all: "(\<And>x. x \<in> set xs \<Longrightarrow> P x) \<Longrightarrow> filter P xs = xs"
  by (simp add: filter_id_conv)

end
