(* ===== verification/Crypto.thy ===== *)
theory Crypto
  imports Prelude
begin

text \<open>
  The crypto crate (\<open>crypto/src/lib.rs\<close>): digests, keys, signatures and the signature service.
  SHA-512, base64, ed25519-dalek and threshold\_crypto are not part of the repository; their
  functions are the fields of the record \<open>crypto_ext\<close>, an argument of every definition that
  reaches them. What the code relies on is stated as named predicates over that record
  (\<open>ed25519_ok\<close>, \<open>base64_ok\<close>, \<open>sha512_ok\<close>).
\<close>

section \<open>External functions\<close>

record crypto_ext =
  sha512 :: "bytes \<Rightarrow> bytes"
  base64_encode :: "bytes \<Rightarrow> string"
  base64_decode :: "string \<Rightarrow> bytes option"
  ed_signature_from_bytes :: "bytes \<Rightarrow> bool"
  ed_public_from_bytes :: "bytes \<Rightarrow> bool"
  ed_keypair_from_bytes :: "bytes \<Rightarrow> bool"
  ed_sign :: "bytes \<Rightarrow> bytes \<Rightarrow> bytes"
  ed_verify_strict :: "bytes \<Rightarrow> bytes \<Rightarrow> bytes \<Rightarrow> bool"
  ed_verify_batch :: "bytes list \<Rightarrow> bytes list \<Rightarrow> bytes list \<Rightarrow> bool"
  tss_sign :: "bytes \<Rightarrow> bytes \<Rightarrow> bytes"
  tss_verify :: "bytes \<Rightarrow> usize \<Rightarrow> bytes \<Rightarrow> bytes \<Rightarrow> bool"
  tss_combine :: "bytes \<Rightarrow> (usize \<times> bytes) list \<Rightarrow> bytes option"

text \<open>
  Documented behaviour of the libraries: SHA-512 returns 64 bytes; base64 decoding undoes
  encoding; a signature made with a key pair has 64 bytes, parses, and verifies under the public
  half (bytes 32 to 63 of the serialised pair).
\<close>

definition sha512_ok :: "'z crypto_ext_scheme \<Rightarrow> bool" where
  "sha512_ok E \<longleftrightarrow> (\<forall>bs. length (sha512 E bs) = 64)"

definition base64_ok :: "'z crypto_ext_scheme \<Rightarrow> bool" where
  "base64_ok E \<longleftrightarrow> (\<forall>bs. base64_decode E (base64_encode E bs) = Some bs)"

definition ed25519_ok :: "'z crypto_ext_scheme \<Rightarrow> bool" where
  "ed25519_ok E \<longleftrightarrow> (\<forall>sk m. ed_keypair_from_bytes E sk \<longrightarrow>
     length (ed_sign E sk m) = 64 \<and> ed_signature_from_bytes E (ed_sign E sk m) \<and>
     ed_public_from_bytes E (drop 32 sk) \<and>
     ed_verify_strict E (drop 32 sk) m (ed_sign E sk m))"

section \<open>Digests and keys\<close>

datatype Digest = Digest (digest_bytes: bytes)

datatype PublicKey = PublicKey (key_bytes: bytes)

datatype SecretKey = SecretKey (secret_bytes: bytes)

type_synonym SignatureShare = bytes
type_synonym PublicKeySet = bytes
type_synonym SecretKeyShare = bytes

definition digest_default :: Digest where
  "digest_default = Digest (replicate 32 0)"

definition key_default :: PublicKey where
  "key_default = PublicKey (replicate 32 0)"

definition digest_to_vec :: "Digest \<Rightarrow> bytes" where
  "digest_to_vec d = digest_bytes d"

definition digest_size :: "Digest \<Rightarrow> nat" where
  "digest_size d = length (digest_bytes d)"

text \<open>\<open>TryFrom<&[u8]>\<close>: only a slice of exactly 32 bytes is a digest.\<close>

definition digest_try_from :: "bytes \<Rightarrow> Digest option" where
  "digest_try_from item = (if length item = 32 then Some (Digest item) else None)"

text \<open>\<open>Digest(hasher.finalize().as_slice()[..32].try_into().unwrap())\<close>\<close>

definition hash32 :: "'z crypto_ext_scheme \<Rightarrow> bytes \<Rightarrow> Digest" where
  "hash32 E bs = Digest (take 32 (sha512 E bs))"

text \<open>Little- and big-endian bytes of the integers that are hashed.\<close>

definition u64_to_le_bytes :: "u64 \<Rightarrow> bytes" where
  "u64_to_le_bytes w = map (\<lambda>i. ucast (drop_bit (8 * i) w)) [0..<8]"

definition u64_to_be_bytes :: "u64 \<Rightarrow> bytes" where
  "u64_to_be_bytes w = rev (u64_to_le_bytes w)"

text \<open>\<open>usize::from_be_bytes\<close> of a slice of eight bytes.\<close>

definition usize_from_be_bytes :: "bytes \<Rightarrow> usize" where
  "usize_from_be_bytes bs = fold (\<lambda>b acc. push_bit 8 acc + ucast b) bs 0"

subsection \<open>The derived order on public keys\<close>

text \<open>\<open>#[derive(Ord)]\<close> on \<open>[u8; 32]\<close> compares byte by byte.\<close>

instantiation PublicKey :: linorder
begin

definition less_eq_PublicKey :: "PublicKey \<Rightarrow> PublicKey \<Rightarrow> bool" where
  "less_eq_PublicKey a b \<longleftrightarrow> key_bytes a \<le> key_bytes b"

definition less_PublicKey :: "PublicKey \<Rightarrow> PublicKey \<Rightarrow> bool" where
  "less_PublicKey a b \<longleftrightarrow> key_bytes a < key_bytes b"

instance
  by standard (auto simp: less_eq_PublicKey_def less_PublicKey_def PublicKey.expand)

end

subsection \<open>Base64 text of keys\<close>

datatype DecodeError = InvalidBase64 | InvalidLength

definition key_to_base64 :: "'z crypto_ext_scheme \<Rightarrow> PublicKey \<Rightarrow> string" where
  "key_to_base64 E k = base64_encode E (key_bytes k)"

text \<open>
  \<open>bytes[..32]\<close> panics when fewer than 32 bytes were decoded; \<open>try_into\<close> of the 32-byte slice
  then cannot fail, so \<open>InvalidLength\<close> is never returned.
\<close>

definition slice_to :: "nat \<Rightarrow> bytes \<Rightarrow> ('e, bytes) result" where
  "slice_to n bs = (if n \<le> length bs then Ok (take n bs) else Panic)"

definition key_from_base64 :: "'z crypto_ext_scheme \<Rightarrow> string \<Rightarrow> (DecodeError, PublicKey) result" where
  "key_from_base64 E s =
     rbind (ok_or InvalidBase64 (base64_decode E s)) (\<lambda>bs.
     rbind (slice_to 32 bs) (\<lambda>sl.
     if length sl = 32 then Ok (PublicKey sl) else Err InvalidLength))"

definition secret_to_base64 :: "'z crypto_ext_scheme \<Rightarrow> SecretKey \<Rightarrow> string" where
  "secret_to_base64 E k = base64_encode E (secret_bytes k)"

definition secret_from_base64 :: "'z crypto_ext_scheme \<Rightarrow> string \<Rightarrow> (DecodeError, SecretKey) result" where
  "secret_from_base64 E s =
     rbind (ok_or InvalidBase64 (base64_decode E s)) (\<lambda>bs.
     rbind (slice_to 64 bs) (\<lambda>sl.
     if length sl = 64 then Ok (SecretKey sl) else Err InvalidLength))"

text \<open>\<open>Drop for SecretKey\<close> overwrites the secret.\<close>

definition secret_drop :: "SecretKey \<Rightarrow> SecretKey" where
  "secret_drop k = SecretKey (map (\<lambda>_. 0) (secret_bytes k))"

section \<open>Signatures\<close>

datatype CryptoError = CryptoError

record Signature =
  part1 :: bytes
  part2 :: bytes

definition signature_default :: Signature where
  "signature_default = \<lparr>part1 = replicate 32 0, part2 = replicate 32 0\<rparr>"

definition signature_new :: "'z crypto_ext_scheme \<Rightarrow> Digest \<Rightarrow> SecretKey \<Rightarrow> ('e, Signature) result" where
  "signature_new E d sk =
     (if ed_keypair_from_bytes E (secret_bytes sk)
      then (let sig = ed_sign E (secret_bytes sk) (digest_bytes d)
            in Ok \<lparr>part1 = take 32 sig, part2 = take 32 (drop 32 sig)\<rparr>)
      else Panic)"

definition signature_flatten :: "Signature \<Rightarrow> bytes" where
  "signature_flatten s = part1 s @ part2 s"

definition signature_verify ::
    "'z crypto_ext_scheme \<Rightarrow> Signature \<Rightarrow> Digest \<Rightarrow> PublicKey \<Rightarrow> (CryptoError, unit) result" where
  "signature_verify E s d pk = checks
     [ensure (ed_signature_from_bytes E (signature_flatten s)) CryptoError,
      ensure (ed_public_from_bytes E (key_bytes pk)) CryptoError,
      ensure (ed_verify_strict E (key_bytes pk) (digest_bytes d) (signature_flatten s)) CryptoError]"

text \<open>
  The loop collects one message, signature and key per vote and leaves on the first that does
  not parse; then the three vectors go to the library.
\<close>

fun batch_collect ::
    "'z crypto_ext_scheme \<Rightarrow> Digest \<Rightarrow> (PublicKey \<times> Signature) list \<Rightarrow>
     bytes list \<times> bytes list \<times> bytes list \<Rightarrow> (CryptoError, bytes list \<times> bytes list \<times> bytes list) result" where
  "batch_collect E d [] acc = Ok acc"
| "batch_collect E d ((key, sig) # votes) (ms, ss, ks) =
     (if \<not> ed_signature_from_bytes E (signature_flatten sig) then Err CryptoError
      else if \<not> ed_public_from_bytes E (key_bytes key) then Err CryptoError
      else batch_collect E d votes
             (ms @ [digest_bytes d], ss @ [signature_flatten sig], ks @ [key_bytes key]))"

definition signature_verify_batch ::
    "'z crypto_ext_scheme \<Rightarrow> Digest \<Rightarrow> (PublicKey \<times> Signature) list \<Rightarrow> (CryptoError, unit) result" where
  "signature_verify_batch E d votes =
     rbind (batch_collect E d votes ([], [], [])) (\<lambda>(ms, ss, ks).
     ensure (ed_verify_batch E ms ss ks) CryptoError)"

section \<open>The signature service\<close>

text \<open>
  Two tasks own the secret key and the optional threshold share and answer requests in order;
  a request is a call whose answer the caller awaits. A task that panics drops its reply channel,
  on which the caller's \<open>expect\<close> panics as well.
\<close>

record SignatureService =
  ss_secret :: SecretKey
  ss_tss :: "SecretKeyShare option"

definition request_signature ::
    "'z crypto_ext_scheme \<Rightarrow> SignatureService \<Rightarrow> Digest \<Rightarrow> ('e, Signature) result" where
  "request_signature E svc d = signature_new E d (ss_secret svc)"

definition request_tss_signature ::
    "'z crypto_ext_scheme \<Rightarrow> SignatureService \<Rightarrow> Digest \<Rightarrow> SignatureShare option" where
  "request_tss_signature E svc d = map_option (\<lambda>sh. tss_sign E sh (digest_bytes d)) (ss_tss svc)"

section \<open>Lemmas\<close>

lemma length_u64_to_le_bytes [simp]: "length (u64_to_le_bytes w) = 8"
  by (simp add: u64_to_le_bytes_def)

lemma digest_default_wf [simp]: "digest_size digest_default = 32"
  by (simp add: digest_size_def digest_default_def)

lemma hash32_size: "sha512_ok E \<Longrightarrow> digest_size (hash32 E bs) = 32"
  by (simp add: sha512_ok_def digest_size_def hash32_def)

lemma u64_to_le_bytes_inject: "u64_to_le_bytes a = u64_to_le_bytes b \<longleftrightarrow> a = b"
proof
  assume eq: "u64_to_le_bytes a = u64_to_le_bytes b"
  show "a = b"
  proof (rule bit_word_eqI)
    fix n assume n: "n < LENGTH(64)"
    then have i: "n div 8 < 8" by simp
    from eq have "u64_to_le_bytes a ! (n div 8) = u64_to_le_bytes b ! (n div 8)" by simp
    with i have "(ucast (drop_bit (8 * (n div 8)) a) :: byte) = ucast (drop_bit (8 * (n div 8)) b)"
      by (simp add: u64_to_le_bytes_def del: upt_Suc)
    then have "bit (ucast (drop_bit (8 * (n div 8)) a) :: byte) (n mod 8)
             = bit (ucast (drop_bit (8 * (n div 8)) b) :: byte) (n mod 8)" by simp
    then show "bit a n \<longleftrightarrow> bit b n"
      using n by (simp add: bit_simps)
  qed
qed simp

lemma u64_to_be_bytes_inject: "u64_to_be_bytes a = u64_to_be_bytes b \<longleftrightarrow> a = b"
  by (simp add: u64_to_be_bytes_def u64_to_le_bytes_inject)

lemma flatten_new:
  assumes "ed25519_ok E" and "signature_new E d sk = Ok s"
  shows "signature_flatten s = ed_sign E (secret_bytes sk) (digest_bytes d)"
proof -
  let ?sig = "ed_sign E (secret_bytes sk) (digest_bytes d)"
  from assms(2) have kp: "ed_keypair_from_bytes E (secret_bytes sk)"
    and s: "s = \<lparr>part1 = take 32 ?sig, part2 = take 32 (drop 32 ?sig)\<rparr>"
    by (auto simp: signature_new_def Let_def split: if_splits)
  from assms(1) kp have "length ?sig = 64" by (simp add: ed25519_ok_def)
  then have "take 32 ?sig @ take 32 (drop 32 ?sig) = ?sig"
    by (simp flip: take_add)
  with s show ?thesis by (simp add: signature_flatten_def)
qed

lemma sign_then_verify:
  assumes ok: "ed25519_ok E" and new: "signature_new E d sk = Ok s"
  shows "signature_verify E s d (PublicKey (drop 32 (secret_bytes sk))) = Ok ()"
proof -
  from new have "ed_keypair_from_bytes E (secret_bytes sk)"
    by (auto simp: signature_new_def split: if_splits)
  with ok flatten_new [OF ok new] show ?thesis
    by (simp add: signature_verify_def ed25519_ok_def)
qed

lemma signature_verify_Ok:
  "signature_verify E s d pk = Ok () \<longleftrightarrow>
     ed_signature_from_bytes E (signature_flatten s) \<and> ed_public_from_bytes E (key_bytes pk) \<and>
     ed_verify_strict E (key_bytes pk) (digest_bytes d) (signature_flatten s)"
  by (simp add: signature_verify_def)

lemma signature_verify_no_Panic [simp]: "signature_verify E s d pk \<noteq> Panic"
  by (simp add: signature_verify_def rbind_Panic)

lemma batch_collect_Ok:
  "batch_collect E d votes (ms, ss, ks) =
     (if \<forall>(k, s) \<in> set votes. ed_signature_from_bytes E (signature_flatten s) \<and> ed_public_from_bytes E (key_bytes k)
      then Ok (ms @ replicate (length votes) (digest_bytes d),
               ss @ map (signature_flatten \<circ> snd) votes, ks @ map (key_bytes \<circ> fst) votes)
      else Err CryptoError)"
proof (induction votes arbitrary: ms ss ks)
  case Nil
  then show ?case by simp
next
  case (Cons v votes)
  then show ?case by (cases v) (simp split: if_splits)
qed

lemma verify_batch_Ok:
  "signature_verify_batch E d votes = Ok () \<longleftrightarrow>
     (\<forall>(k, s) \<in> set votes. ed_signature_from_bytes E (signature_flatten s) \<and> ed_public_from_bytes E (key_bytes k)) \<and>
     ed_verify_batch E (replicate (length votes) (digest_bytes d))
       (map (signature_flatten \<circ> snd) votes) (map (key_bytes \<circ> fst) votes)"
  by (simp add: signature_verify_batch_def batch_collect_Ok)

lemma verify_batch_no_Panic [simp]: "signature_verify_batch E d votes \<noteq> Panic"
  by (simp add: signature_verify_batch_def batch_collect_Ok)

end
