(* ===== verification/Errors.thy ===== *)
theory Errors
  imports Crypto
begin

text \<open>
  The error types of the consensus crate (\<open>consensus/src/error.rs\<close>), of the mempool crate
  (\<open>mempool/src/error.rs\<close>) and of the store, as values. The payloads of the
  library errors they wrap (\<open>std::io::Error\<close>, \<open>bincode::ErrorKind\<close>, \<open>rocksdb::Error\<close>) are never
  inspected by the code and are kept as their text.
\<close>

type_synonym SeqNumber = u64

type_synonym StoreError = string

datatype ConsensusError =
    EpochEnd SeqNumber
  | NetworkError string
  | SerializationError string
  | StoreFailure StoreError
  | NotInCommittee PublicKey
  | SPBPhaseWrong u8 u8
  | InvalidFinProof
  | InvalidSignature CryptoError
  | InvalidThresholdSignature PublicKey
  | InvalidPrePareTag u8
  | InvalidPreParePESQC SeqNumber
  | TimeOutMessage SeqNumber SeqNumber
  | RandomCoinWithWrongLeader
  | RandomCoinWithWrongShares
  | AuthorityReuseinQC PublicKey
  | AuthorityReuseinProof PublicKey "PublicKey fset"
  | AuthorityReuseinPrePare PublicKey
  | AuthorityReuseinTC PublicKey
  | AuthorityReuseinCoin PublicKey
  | AuthorityReuseinSPB PublicKey
  | UnknownAuthority PublicKey
  | QCRequiresQuorum
  | TCRequiresQuorum
  | RandomCoinRequiresQuorum
  | SPBRequiresQuorum
  | MalformedBlock Digest
  | WrongBlockSender Digest PublicKey SeqNumber
  | WrongVoteRecipient Digest PublicKey SeqNumber
  | InvalidPayload
  | NonConsecutiveRounds SeqNumber SeqNumber SeqNumber

type_synonym 'a ConsensusResult = "(ConsensusError, 'a) result"

datatype MempoolError =
    MStoreFailure StoreError
  | MUnknownAuthority PublicKey
  | MInvalidSignature CryptoError
  | MSerializationError string
  | PayloadTooBig
  | MempoolFull
  | MNotInCommittee PublicKey

type_synonym 'a MempoolResult = "(MempoolError, 'a) result"

end
