(* ===== verification/Config.thy ===== *)
theory Config
  imports Errors
begin

text \<open>
  The configuration of a committee: \<open>consensus/src/config.rs\<close> and \<open>mempool/src/config.rs\<close>.
  The map of authorities is an association list with distinct keys; its order stands for
  the iteration order of the \<open>HashMap\<close>, which stays the same as long as the map is not changed.
  Stakes are 32-bit words and their sum wraps. The lemmas relate the two thresholds to the
  total stake and show in the locale \<open>quorum_system\<close> what two quorums have in common.
\<close>

section \<open>Consensus parameters and committee\<close>

type_synonym Stake = u32
type_synonym EpochNumber = "128 word"

record SocketAddr =
  sa_ip :: string
  sa_port :: "16 word"

datatype Protocol = HotStuff | HotStuffAndSMVBA | SMVBA | Others

definition protocol_default :: Protocol where
  "protocol_default = HotStuffAndSMVBA"

record Parameters =
  node_sync_time :: u64
  timeout_delay :: u64
  sync_retry_delay :: u64
  network_delay :: u64
  max_payload_size :: usize
  min_block_delay :: u64
  ddos :: bool
  random_ddos :: bool
  random_ddos_chance :: u64
  fallback_length :: u64
  exp_checks :: u64
  leader_window :: usize

definition parameters_default :: Parameters where
  "parameters_default = \<lparr>
     node_sync_time = 500, timeout_delay = 5000, sync_retry_delay = 10000,
     network_delay = 100, max_payload_size = 500, min_block_delay = 100,
     ddos = False, random_ddos = False, random_ddos_chance = 5,
     fallback_length = 3, exp_checks = 1, leader_window = 2\<rparr>"

record Authority =
  a_name :: PublicKey
  a_id :: usize
  a_stake :: Stake
  a_address :: SocketAddr
  a_smvba_address :: SocketAddr

record Committee =
  authorities :: "(PublicKey \<times> Authority) list"
  c_epoch :: EpochNumber

type_synonym AuthorityInfo = "PublicKey \<times> usize \<times> Stake \<times> SocketAddr \<times> SocketAddr"

definition authority_of :: "AuthorityInfo \<Rightarrow> Authority" where
  "authority_of = (\<lambda>(name, id, stake, address, smvba_address).
     \<lparr>a_name = name, a_id = id, a_stake = stake, a_address = address, a_smvba_address = smvba_address\<rparr>)"

definition committee_new :: "AuthorityInfo list \<Rightarrow> EpochNumber \<Rightarrow> Committee" where
  "committee_new info ep = \<lparr>
     authorities = fold (\<lambda>i. AList.update (fst i) (authority_of i)) info [],
     c_epoch = ep\<rparr>"

definition committee_size :: "Committee \<Rightarrow> nat" where
  "committee_size c = length (authorities c)"

definition stake :: "Committee \<Rightarrow> PublicKey \<Rightarrow> Stake" where
  "stake c name = (case map_of (authorities c) name of None \<Rightarrow> 0 | Some x \<Rightarrow> a_stake x)"

definition committee_id :: "Committee \<Rightarrow> PublicKey \<Rightarrow> usize ConsensusResult" where
  "committee_id c name = rbind (unwrap (map_of (authorities c) name)) (\<lambda>x. Ok (a_id x))"

definition total_votes :: "Committee \<Rightarrow> Stake" where
  "total_votes c = sum_list (map (a_stake \<circ> snd) (authorities c))"

definition quorum_threshold :: "Committee \<Rightarrow> Stake" where
  "quorum_threshold c = 2 * ((total_votes c - 1) div 3) + 1"

definition large_threshold :: "Committee \<Rightarrow> Stake" where
  "large_threshold c = total_votes c - 1"

definition random_coin_threshold :: "Committee \<Rightarrow> Stake" where
  "random_coin_threshold c = (total_votes c - 1) div 3 + 1"

definition address :: "Committee \<Rightarrow> PublicKey \<Rightarrow> SocketAddr ConsensusResult" where
  "address c name = ok_or (NotInCommittee name) (map_option a_address (map_of (authorities c) name))"

definition smvba_address :: "Committee \<Rightarrow> PublicKey \<Rightarrow> SocketAddr ConsensusResult" where
  "smvba_address c name =
     ok_or (NotInCommittee name) (map_option a_smvba_address (map_of (authorities c) name))"

definition broadcast_addresses :: "Committee \<Rightarrow> PublicKey \<Rightarrow> SocketAddr list" where
  "broadcast_addresses c myself =
     map a_address (filter (\<lambda>x. a_name x \<noteq> myself) (map snd (authorities c)))"

definition smvba_broadcast_addresses :: "Committee \<Rightarrow> PublicKey \<Rightarrow> SocketAddr list" where
  "smvba_broadcast_addresses c myself =
     map a_smvba_address (filter (\<lambda>x. a_name x \<noteq> myself) (map snd (authorities c)))"

section \<open>Mempool parameters and committee\<close>

record MParameters =
  m_queue_capacity :: usize
  m_sync_retry_delay :: u64
  m_max_payload_size :: usize
  m_min_block_delay :: u64

definition mparameters_default :: MParameters where
  "mparameters_default = \<lparr>m_queue_capacity = 10000, m_sync_retry_delay = 10000,
     m_max_payload_size = 100000, m_min_block_delay = 100\<rparr>"

record MAuthority =
  ma_name :: PublicKey
  ma_front_address :: SocketAddr
  ma_mempool_address :: SocketAddr

record MCommittee =
  m_authorities :: "(PublicKey \<times> MAuthority) list"
  m_epoch :: EpochNumber

definition mcommittee_new ::
    "(PublicKey \<times> SocketAddr \<times> SocketAddr) list \<Rightarrow> EpochNumber \<Rightarrow> MCommittee" where
  "mcommittee_new info ep = \<lparr>
     m_authorities = fold (\<lambda>(name, front, mempool).
         AList.update name \<lparr>ma_name = name, ma_front_address = front, ma_mempool_address = mempool\<rparr>) info [],
     m_epoch = ep\<rparr>"

definition committee_exists :: "MCommittee \<Rightarrow> PublicKey \<Rightarrow> bool" where
  "committee_exists c name = (map_of (m_authorities c) name \<noteq> None)"

definition front_address :: "MCommittee \<Rightarrow> PublicKey \<Rightarrow> SocketAddr MempoolResult" where
  "front_address c name =
     ok_or (MNotInCommittee name) (map_option ma_front_address (map_of (m_authorities c) name))"

definition mempool_address :: "MCommittee \<Rightarrow> PublicKey \<Rightarrow> SocketAddr MempoolResult" where
  "mempool_address c name =
     ok_or (MNotInCommittee name) (map_option ma_mempool_address (map_of (m_authorities c) name))"

definition mempool_broadcast_addresses :: "MCommittee \<Rightarrow> PublicKey \<Rightarrow> SocketAddr list" where
  "mempool_broadcast_addresses c myself =
     map ma_mempool_address (filter (\<lambda>x. ma_name x \<noteq> myself) (map snd (m_authorities c)))"

section \<open>Well-formed committees\<close>

definition committee_names :: "Committee \<Rightarrow> PublicKey list" where
  "committee_names c = map fst (authorities c)"

definition total_stake :: "Committee \<Rightarrow> nat" where
  "total_stake c = sum_list (map (unat \<circ> a_stake \<circ> snd) (authorities c))"

definition keyed_by_name :: "(PublicKey \<times> Authority) list \<Rightarrow> bool" where
  "keyed_by_name al \<longleftrightarrow> distinct (map fst al) \<and> (\<forall>(k, a) \<in> set al. a_name a = k)"

definition wf_committee :: "Committee \<Rightarrow> bool" where
  "wf_committee c \<longleftrightarrow> keyed_by_name (authorities c) \<and> 0 < total_stake c \<and> total_stake c < 2 ^ 31"

text \<open>A committee of \<open>3 f + 1\<close> units of stake, the case the thresholds are made for.\<close>

definition bft_committee :: "Committee \<Rightarrow> bool" where
  "bft_committee c \<longleftrightarrow> wf_committee c \<and> total_stake c mod 3 = 1"

definition max_faults :: "Committee \<Rightarrow> nat" where
  "max_faults c = (total_stake c - 1) div 3"

lemma keyed_update: "keyed_by_name al \<Longrightarrow> a_name v = k \<Longrightarrow> keyed_by_name (AList.update k v al)"
  by (induction al) (force simp: keyed_by_name_def update_keys)+

lemma authority_of_name [simp]: "a_name (authority_of i) = fst i"
  by (simp add: authority_of_def split: prod.splits)

lemma committee_new_keyed: "keyed_by_name (authorities (committee_new info ep))"
proof -
  have "keyed_by_name al \<Longrightarrow> keyed_by_name (fold (\<lambda>i. AList.update (fst i) (authority_of i)) info al)" for al
    by (induction info arbitrary: al) (simp_all add: keyed_update)
  from this [of "[]"] show ?thesis by (simp add: keyed_by_name_def committee_new_def)
qed

lemma stake_member:
  "wf_committee c \<Longrightarrow> (k, a) \<in> set (authorities c) \<Longrightarrow> stake c k = a_stake a"
  by (simp add: wf_committee_def keyed_by_name_def stake_def map_of_eq_Some_iff)

lemma stake_not_member: "k \<notin> set (committee_names c) \<Longrightarrow> stake c k = 0"
proof -
  assume "k \<notin> set (committee_names c)"
  then have "map_of (authorities c) k = None"
    by (force simp: committee_names_def map_of_eq_None_iff)
  then show ?thesis by (simp add: stake_def)
qed

lemma stake_pos_member: "0 < stake c k \<Longrightarrow> k \<in> set (committee_names c)"
  using stake_not_member [of k c] by force

lemma total_stake_names:
  assumes "wf_committee c"
  shows "total_stake c = (\<Sum>k \<in> set (committee_names c). unat (stake c k))"
proof -
  have "map (unat \<circ> a_stake \<circ> snd) (authorities c) = map (\<lambda>k. unat (stake c k)) (committee_names c)"
    using stake_member [OF assms] by (auto simp: committee_names_def)
  then have "total_stake c = sum_list (map (\<lambda>k. unat (stake c k)) (committee_names c))"
    by (simp add: total_stake_def)
  also have "\<dots> = (\<Sum>k \<in> set (committee_names c). unat (stake c k))"
    using assms by (intro sum_list_distinct_conv_sum_set)
      (simp add: wf_committee_def keyed_by_name_def committee_names_def)
  finally show ?thesis .
qed

lemma unat_total_votes:
  assumes "wf_committee c"
  shows "unat (total_votes c) = total_stake c"
proof -
  have "sum_list (map unat (map (a_stake \<circ> snd) (authorities c))) = total_stake c"
    by (simp add: total_stake_def comp_assoc)
  with assms show ?thesis
    unfolding total_votes_def by (subst unat_sum_list) (simp_all add: wf_committee_def)
qed

lemma unat_faults:
  assumes "wf_committee c"
  shows "unat ((total_votes c - 1) div 3) = max_faults c"
proof -
  have pos: "0 < unat (total_votes c)"
    using assms by (simp add: unat_total_votes wf_committee_def)
  then have "1 \<le> total_votes c" by (simp add: word_le_nat_alt)
  then have "unat (total_votes c - 1) = total_stake c - 1"
    using assms by (simp add: unat_sub unat_total_votes)
  then show ?thesis by (simp add: unat_div max_faults_def)
qed

lemma max_faults_bound: "wf_committee c \<Longrightarrow> 3 * max_faults c + 1 \<le> total_stake c \<and> max_faults c < 2 ^ 30"
  by (simp add: wf_committee_def max_faults_def) linarith

lemma unat_add1_u32: "unat f < 2 ^ 30 \<Longrightarrow> unat ((f :: u32) + 1) = unat f + 1"
  by (simp add: unat_word_ariths)

lemma unat_double_add1_u32: "unat f < 2 ^ 30 \<Longrightarrow> unat (2 * (f :: u32) + 1) = 2 * unat f + 1"
  by (simp add: unat_word_ariths)

lemma unat_random_coin_threshold:
  assumes "wf_committee c"
  shows "unat (random_coin_threshold c) = max_faults c + 1"
  using max_faults_bound [OF assms]
  unfolding random_coin_threshold_def
  by (subst unat_add1_u32) (simp_all add: unat_faults [OF assms])

lemma unat_quorum_threshold:
  assumes "wf_committee c"
  shows "unat (quorum_threshold c) = 2 * max_faults c + 1"
  using max_faults_bound [OF assms]
  unfolding quorum_threshold_def
  by (subst unat_double_add1_u32) (simp_all add: unat_faults [OF assms])

section \<open>Quorums\<close>

text \<open>By how much two quorums overlap: by more than the faults exactly when the stake is \<open>3 f + 1\<close>.\<close>

lemma quorum_overlap:
  assumes "wf_committee c"
  shows "unat (quorum_threshold c) + (total_stake c - 1) mod 3 = total_stake c - max_faults c"
    and "2 * unat (quorum_threshold c) + (total_stake c - 1) mod 3 = total_stake c + max_faults c + 1"
proof -
  define k where "k = (total_stake c - 1) mod 3"
  have "total_stake c = 3 * max_faults c + 1 + k"
    using max_faults_bound [OF assms] div_mult_mod_eq [of "total_stake c - 1" 3] by (simp add: max_faults_def k_def)
  then show "unat (quorum_threshold c) + (total_stake c - 1) mod 3 = total_stake c - max_faults c"
    and "2 * unat (quorum_threshold c) + (total_stake c - 1) mod 3 = total_stake c + max_faults c + 1"
    by (simp_all add: unat_quorum_threshold [OF assms] k_def)
qed

text \<open>
  What the voting protocol needs of the committee: two sets of members that both reach the
  threshold share more stake than the faulty members can have.
\<close>

locale quorum_system =
  fixes wf :: "'c \<Rightarrow> bool"
    and members :: "'c \<Rightarrow> 'a list"
    and weight :: "'c \<Rightarrow> 'a \<Rightarrow> nat"
    and quorum :: "'c \<Rightarrow> nat"
    and faults :: "'c \<Rightarrow> nat"
  assumes outside: "wf c \<Longrightarrow> a \<notin> set (members c) \<Longrightarrow> weight c a = 0"
    and overlap: "wf c \<Longrightarrow> (\<Sum>a \<in> set (members c). weight c a) + faults c < 2 * quorum c"
begin

lemma weight_bounded:
  assumes "wf c" and "finite A"
  shows "(\<Sum>a \<in> A. weight c a) \<le> (\<Sum>a \<in> set (members c). weight c a)"
proof -
  have "(\<Sum>a \<in> A. weight c a) = (\<Sum>a \<in> A \<inter> set (members c). weight c a)"
    using assms by (intro sum.mono_neutral_right) (auto simp: outside)
  also have "\<dots> \<le> (\<Sum>a \<in> set (members c). weight c a)"
    by (rule sum_mono2) auto
  finally show ?thesis .
qed

lemma quorum_intersection:
  assumes "wf c" and "finite A" and "finite B"
    and "quorum c \<le> (\<Sum>a \<in> A. weight c a)" and "quorum c \<le> (\<Sum>a \<in> B. weight c a)"
  shows "faults c < (\<Sum>a \<in> A \<inter> B. weight c a)"
proof -
  have "(\<Sum>a \<in> A \<union> B. weight c a) + (\<Sum>a \<in> A \<inter> B. weight c a)
      = (\<Sum>a \<in> A. weight c a) + (\<Sum>a \<in> B. weight c a)"
    using assms(2,3) by (rule sum.union_inter)
  moreover have "(\<Sum>a \<in> A \<union> B. weight c a) \<le> (\<Sum>a \<in> set (members c). weight c a)"
    using assms(1-3) by (intro weight_bounded) auto
  ultimately show ?thesis
    using assms(4,5) overlap [OF assms(1)] by linarith
qed

text \<open>Some member of both quorums is outside any set of members that has at most the faulty stake.\<close>

lemma common_correct_member:
  assumes "wf c" and "finite A" and "finite B"
    and "quorum c \<le> (\<Sum>a \<in> A. weight c a)" and "quorum c \<le> (\<Sum>a \<in> B. weight c a)"
    and "(\<Sum>a \<in> F \<inter> set (members c). weight c a) \<le> faults c"
  obtains a where "a \<in> A" and "a \<in> B" and "a \<in> set (members c)" and "a \<notin> F"
proof -
  have "\<not> A \<inter> B \<inter> set (members c) \<subseteq> F"
  proof
    assume sub: "A \<inter> B \<inter> set (members c) \<subseteq> F"
    have "(\<Sum>a \<in> A \<inter> B. weight c a) = (\<Sum>a \<in> A \<inter> B \<inter> set (members c). weight c a)"
      using assms(1-3) by (intro sum.mono_neutral_right) (auto simp: outside)
    also have "\<dots> \<le> (\<Sum>a \<in> F \<inter> set (members c). weight c a)"
      using sub by (intro sum_mono2) auto
    finally show False
      using quorum_intersection [OF assms(1-5)] assms(6) by linarith
  qed
  then show ?thesis using that by blast
qed

text \<open>Once a quorum has been counted, what is left of the committee is no second one.\<close>

lemma rest_no_quorum:
  assumes "wf c" and "finite A" and "finite B" and "A \<inter> B = {}"
    and "quorum c \<le> (\<Sum>a \<in> A. weight c a)"
  shows "(\<Sum>a \<in> B. weight c a) < quorum c"
  using quorum_intersection [OF assms(1-3,5)] assms(4) by fastforce

end

interpretation cq: quorum_system bft_committee committee_names "\<lambda>c k. unat (stake c k)"
    "\<lambda>c. unat (quorum_threshold c)" max_faults
proof unfold_locales
  fix c a
  assume "a \<notin> set (committee_names c)"
  then show "unat (stake c a) = 0" by (simp add: stake_not_member)
next
  fix c
  assume bft: "bft_committee c"
  then have wf: "wf_committee c" by (simp add: bft_committee_def)
  from bft have "total_stake c = 3 * max_faults c + 1"
    by (auto simp: bft_committee_def max_faults_def) presburger
  with wf show "(\<Sum>a \<in> set (committee_names c). unat (stake c a)) + max_faults c < 2 * unat (quorum_threshold c)"
    by (simp add: unat_quorum_threshold flip: total_stake_names)
qed

end
