(* ===== verification/Messages.thy ===== *)
theory Messages
  imports Config
begin

text \<open>
  The messages of the consensus protocol (\<open>consensus/src/messages.rs\<close>) and the enumeration of
  what travels between nodes (\<open>ConsensusMessage\<close> of \<open>consensus/src/core.rs\<close>). Each struct is a
  record, with its constructor \<open>_new\<close> (which asks the signature service), its \<open>_digest\<close> (the bytes
  fed to SHA-512, in the order of the \<open>update\<close> calls) and its \<open>_verify\<close>.
\<close>

section \<open>Tags and phases\<close>

definition OPT :: u8 where "OPT = 0"
definition PES :: u8 where "PES = 1"
definition FALLBACK :: u8 where "FALLBACK = 2"

definition INIT_PHASE :: u8 where "INIT_PHASE = 0"
definition LOCK_PHASE :: u8 where "LOCK_PHASE = 1"
definition FIN_PHASE :: u8 where "FIN_PHASE = 2"

lemmas tag_defs = OPT_def PES_def FALLBACK_def
lemmas phase_defs = INIT_PHASE_def LOCK_PHASE_def FIN_PHASE_def

definition str_bytes :: "string \<Rightarrow> bytes" where
  "str_bytes s = map (\<lambda>c. word_of_nat (of_char c)) s"

definition verify_sig ::
    "'z crypto_ext_scheme \<Rightarrow> Signature \<Rightarrow> Digest \<Rightarrow> PublicKey \<Rightarrow> unit ConsensusResult" where
  "verify_sig E s d pk = map_err InvalidSignature (signature_verify E s d pk)"

definition verify_sigs ::
    "'z crypto_ext_scheme \<Rightarrow> Digest \<Rightarrow> (PublicKey \<times> Signature) list \<Rightarrow> unit ConsensusResult" where
  "verify_sigs E d votes = map_err InvalidSignature (signature_verify_batch E d votes)"

section \<open>Quorum certificates\<close>

record QC =
  qc_hash :: Digest
  qc_height :: SeqNumber
  qc_epoch :: SeqNumber
  qc_round :: SeqNumber
  qc_tag :: u8
  qc_proposer :: PublicKey
  qc_acceptor :: PublicKey
  qc_votes :: "(PublicKey \<times> Signature) list"

definition qc_genesis :: QC where
  "qc_genesis = \<lparr>qc_hash = digest_default, qc_height = 0, qc_epoch = 0, qc_round = 0, qc_tag = 0,
     qc_proposer = key_default, qc_acceptor = key_default, qc_votes = []\<rparr>"

definition qc_timeout :: "QC \<Rightarrow> bool" where
  "qc_timeout qc \<longleftrightarrow> qc_hash qc = digest_default \<and> qc_height qc \<noteq> 0"

text \<open>\<open>PartialEq\<close>: the epoch is compared with itself, the round, the tag and the votes not at all.\<close>

definition qc_eq :: "QC \<Rightarrow> QC \<Rightarrow> bool" where
  "qc_eq a b \<longleftrightarrow> qc_hash a = qc_hash b \<and> qc_height a = qc_height b \<and> qc_epoch a = qc_epoch a \<and>
     qc_proposer a = qc_proposer b"

definition qc_digest :: "'z crypto_ext_scheme \<Rightarrow> QC \<Rightarrow> Digest" where
  "qc_digest E qc = hash32 E (digest_bytes (qc_hash qc) @ u64_to_le_bytes (qc_height qc) @
     u64_to_le_bytes (qc_round qc) @ [qc_tag qc] @ u64_to_le_bytes (qc_epoch qc) @ key_bytes (qc_proposer qc))"

text \<open>The counting loop of \<open>QC::verify\<close>: \<open>used\<close> and \<open>weight\<close> are its two mutable variables.\<close>

fun qc_count ::
    "Committee \<Rightarrow> (PublicKey \<times> Signature) list \<Rightarrow> PublicKey fset \<Rightarrow> Stake \<Rightarrow> Stake ConsensusResult" where
  "qc_count c [] used weight = Ok weight"
| "qc_count c ((name, sig) # votes) used weight =
     (if name |\<in>| used then Err (AuthorityReuseinQC name)
      else if \<not> 0 < stake c name then Err (UnknownAuthority name)
      else qc_count c votes (finsert name used) (weight + stake c name))"

definition qc_verify :: "'z crypto_ext_scheme \<Rightarrow> Committee \<Rightarrow> QC \<Rightarrow> unit ConsensusResult" where
  "qc_verify E c qc =
     rbind (qc_count c (qc_votes qc) {||} 0) (\<lambda>weight. checks
       [ensure (quorum_threshold c \<le> weight) QCRequiresQuorum,
        verify_sigs E (qc_digest E qc) (qc_votes qc)])"

section \<open>Blocks\<close>

record Block =
  b_qc :: QC
  b_author :: PublicKey
  b_height :: SeqNumber
  b_epoch :: SeqNumber
  b_payload :: "Digest list"
  b_signature :: Signature
  b_tag :: u8
  b_round :: SeqNumber

definition block_default :: Block where
  "block_default = \<lparr>b_qc = qc_genesis, b_author = key_default, b_height = 0, b_epoch = 0, b_payload = [],
     b_signature = signature_default, b_tag = 0, b_round = 0\<rparr>"

definition block_genesis :: Block where
  "block_genesis = block_default"

definition block_digest :: "'z crypto_ext_scheme \<Rightarrow> Block \<Rightarrow> Digest" where
  "block_digest E b = hash32 E (key_bytes (b_author b) @ u64_to_le_bytes (b_height b) @
     u64_to_le_bytes (b_epoch b) @ concat (map digest_bytes (b_payload b)) @
     digest_bytes (qc_hash (b_qc b)) @ [b_tag b])"

definition block_new ::
    "'z crypto_ext_scheme \<Rightarrow> SignatureService \<Rightarrow> QC \<Rightarrow> PublicKey \<Rightarrow> SeqNumber \<Rightarrow> SeqNumber \<Rightarrow> SeqNumber \<Rightarrow>
     Digest list \<Rightarrow> u8 \<Rightarrow> ('e, Block) result" where
  "block_new E svc qc author height epoch rnd payload tag =
     (let b = \<lparr>b_qc = qc, b_author = author, b_height = height, b_epoch = epoch, b_payload = payload,
               b_signature = signature_default, b_tag = tag, b_round = rnd\<rparr>
      in rbind (request_signature E svc (block_digest E b)) (\<lambda>sig. Ok (b\<lparr>b_signature := sig\<rparr>)))"

definition block_parent :: "Block \<Rightarrow> Digest" where
  "block_parent b = qc_hash (b_qc b)"

definition block_verify :: "'z crypto_ext_scheme \<Rightarrow> Committee \<Rightarrow> Block \<Rightarrow> unit ConsensusResult" where
  "block_verify E c b = checks
     [ensure (0 < stake c (b_author b)) (UnknownAuthority (b_author b)),
      verify_sig E (b_signature b) (block_digest E b) (b_author b),
      if \<not> qc_eq (b_qc b) qc_genesis then qc_verify E c (b_qc b) else Ok ()]"

section \<open>Votes of the chain\<close>

record HVote =
  hv_hash :: Digest
  hv_height :: SeqNumber
  hv_round :: SeqNumber
  hv_epoch :: SeqNumber
  hv_proposer :: PublicKey
  hv_tag :: u8
  hv_author :: PublicKey
  hv_signature :: Signature

definition hvote_digest :: "'z crypto_ext_scheme \<Rightarrow> HVote \<Rightarrow> Digest" where
  "hvote_digest E v = hash32 E (digest_bytes (hv_hash v) @ u64_to_le_bytes (hv_height v) @
     u64_to_le_bytes (hv_round v) @ [hv_tag v] @ u64_to_le_bytes (hv_epoch v) @ key_bytes (hv_proposer v))"

definition hvote_new ::
    "'z crypto_ext_scheme \<Rightarrow> SignatureService \<Rightarrow> Block \<Rightarrow> PublicKey \<Rightarrow> u8 \<Rightarrow> ('e, HVote) result" where
  "hvote_new E svc b author tag =
     (let v = \<lparr>hv_hash = block_digest E b, hv_height = b_height b, hv_round = b_round b,
               hv_epoch = b_epoch b, hv_proposer = b_author b, hv_tag = tag, hv_author = author,
               hv_signature = signature_default\<rparr>
      in rbind (request_signature E svc (hvote_digest E v)) (\<lambda>sig. Ok (v\<lparr>hv_signature := sig\<rparr>)))"

definition hvote_verify :: "'z crypto_ext_scheme \<Rightarrow> Committee \<Rightarrow> HVote \<Rightarrow> unit ConsensusResult" where
  "hvote_verify E c v = checks
     [ensure (0 < stake c (hv_author v)) (UnknownAuthority (hv_author v)),
      verify_sig E (hv_signature v) (hvote_digest E v) (hv_author v)]"

section \<open>Prepare messages\<close>

record PrePare =
  pp_author :: PublicKey
  pp_epoch :: SeqNumber
  pp_height :: SeqNumber
  pp_val :: u8
  pp_qc :: QC
  pp_signature :: Signature

definition prepare_digest :: "'z crypto_ext_scheme \<Rightarrow> PrePare \<Rightarrow> Digest" where
  "prepare_digest E p = hash32 E [pp_val p]"

definition prepare_new ::
    "'z crypto_ext_scheme \<Rightarrow> SignatureService \<Rightarrow> PublicKey \<Rightarrow> SeqNumber \<Rightarrow> SeqNumber \<Rightarrow> QC \<Rightarrow> u8 \<Rightarrow>
     ('e, PrePare) result" where
  "prepare_new E svc author epoch height qc val =
     (let p = \<lparr>pp_author = author, pp_epoch = epoch, pp_height = height, pp_val = val, pp_qc = qc,
               pp_signature = signature_default\<rparr>
      in rbind (request_signature E svc (prepare_digest E p)) (\<lambda>sig. Ok (p\<lparr>pp_signature := sig\<rparr>)))"

definition prepare_verify ::
    "'z crypto_ext_scheme \<Rightarrow> Committee \<Rightarrow> SeqNumber \<Rightarrow> PrePare \<Rightarrow> unit ConsensusResult" where
  "prepare_verify E c fb_length p = checks
     [ensure (pp_val p = OPT \<or> pp_val p = PES) (InvalidPrePareTag (pp_val p)),
      verify_sig E (pp_signature p) (prepare_digest E p) (pp_author p),
      if \<not> qc_eq (pp_qc p) qc_genesis then qc_verify E c (pp_qc p) else Ok (),
      if qc_tag (pp_qc p) = PES \<and> qc_round (pp_qc p) \<noteq> fb_length
      then Err (InvalidPreParePESQC (qc_round (pp_qc p))) else Ok ()]"

section \<open>Strong provable broadcast\<close>

record SPBValue =
  sv_val :: u8
  sv_signatures :: "(PublicKey \<times> Signature) list"
  sv_block :: Block
  sv_round :: SeqNumber
  sv_phase :: u8

definition spbvalue_new ::
    "Block \<Rightarrow> SeqNumber \<Rightarrow> u8 \<Rightarrow> u8 \<Rightarrow> (PublicKey \<times> Signature) list \<Rightarrow> SPBValue" where
  "spbvalue_new b rnd phase val sigs =
     \<lparr>sv_val = val, sv_signatures = sigs, sv_block = b, sv_round = rnd, sv_phase = phase\<rparr>"

definition aba_val_digest :: "'z crypto_ext_scheme \<Rightarrow> u8 \<Rightarrow> Digest" where
  "aba_val_digest E val = hash32 E [val]"

definition spbvalue_digest :: "'z crypto_ext_scheme \<Rightarrow> SPBValue \<Rightarrow> Digest" where
  "spbvalue_digest E v = hash32 E (digest_bytes (block_digest E (sv_block v)) @
     u64_to_le_bytes (sv_round v) @ [sv_phase v])"

record SPBVote =
  sp_hash :: Digest
  sp_phase :: u8
  sp_height :: SeqNumber
  sp_epoch :: SeqNumber
  sp_round :: SeqNumber
  sp_proposer :: PublicKey
  sp_author :: PublicKey
  sp_signature :: Signature

definition spbvote_digest :: "'z crypto_ext_scheme \<Rightarrow> SPBVote \<Rightarrow> Digest" where
  "spbvote_digest E v = hash32 E (digest_bytes (sp_hash v) @ [sp_phase v])"

definition spbvote_new ::
    "'z crypto_ext_scheme \<Rightarrow> SignatureService \<Rightarrow> SPBValue \<Rightarrow> PublicKey \<Rightarrow> ('e, SPBVote) result" where
  "spbvote_new E svc value author =
     (let v = \<lparr>sp_hash = spbvalue_digest E value, sp_phase = sv_phase value,
               sp_height = b_height (sv_block value), sp_epoch = b_epoch (sv_block value),
               sp_round = sv_round value, sp_proposer = b_author (sv_block value),
               sp_author = author, sp_signature = signature_default\<rparr>
      in rbind (request_signature E svc (spbvote_digest E v)) (\<lambda>sig. Ok (v\<lparr>sp_signature := sig\<rparr>)))"

definition spbvote_verify :: "'z crypto_ext_scheme \<Rightarrow> Committee \<Rightarrow> SPBVote \<Rightarrow> unit ConsensusResult" where
  "spbvote_verify E c v = checks
     [ensure (0 < stake c (sp_author v)) (UnknownAuthority (sp_author v)),
      verify_sig E (sp_signature v) (spbvote_digest E v) (sp_author v)]"

record SPBProof =
  pf_phase :: u8
  pf_round :: SeqNumber
  pf_height :: SeqNumber
  pf_shares :: "SPBVote list"

fun proof_count :: "Committee \<Rightarrow> SPBVote list \<Rightarrow> Stake \<Rightarrow> Stake ConsensusResult" where
  "proof_count c [] weight = Ok weight"
| "proof_count c (share # shares) weight =
     (if \<not> 0 < stake c (sp_author share) then Err (UnknownAuthority (sp_author share))
      else proof_count c shares (weight + stake c (sp_author share)))"

definition spbproof_verify :: "'z crypto_ext_scheme \<Rightarrow> Committee \<Rightarrow> SPBProof \<Rightarrow> unit ConsensusResult" where
  "spbproof_verify E c p =
     (if pf_phase p \<le> INIT_PHASE then Ok ()
      else if LOCK_PHASE \<le> pf_phase p
      then rbind (proof_count c (pf_shares p) 0) (\<lambda>weight. checks
             (ensure (quorum_threshold c \<le> weight) SPBRequiresQuorum #
              map (spbvote_verify E c) (pf_shares p)))
      else Ok ())"

definition spbvalue_verify ::
    "'z crypto_ext_scheme \<Rightarrow> Committee \<Rightarrow> SPBProof \<Rightarrow> SeqNumber \<Rightarrow> SPBValue \<Rightarrow> unit ConsensusResult" where
  "spbvalue_verify E c pf fb_length v =
     (let weight = word_of_nat (length (sv_signatures v)) :: u32;
          flag = (if sv_val v = OPT \<and> weight < random_coin_threshold c then False
                  else if sv_val v = PES \<and> weight < quorum_threshold c then False
                  else True)
      in checks
        [if flag \<and> b_height (sv_block v) \<noteq> 1 then verify_sigs E (aba_val_digest E (sv_val v)) (sv_signatures v)
         else if b_height (sv_block v) \<noteq> 1 then Err (InvalidPrePareTag (sv_val v))
         else Ok (),
         if qc_round (b_qc (sv_block v)) \<noteq> fb_length
         then Err (InvalidPreParePESQC (qc_round (b_qc (sv_block v)))) else Ok (),
         block_verify E c (sv_block v),
         spbproof_verify E c pf])"

section \<open>Random coin\<close>

record RandomnessShare =
  rs_height :: SeqNumber
  rs_epoch :: SeqNumber
  rs_round :: SeqNumber
  rs_author :: PublicKey
  rs_signature_share :: SignatureShare

definition coin_digest :: "'z crypto_ext_scheme \<Rightarrow> SeqNumber \<Rightarrow> SeqNumber \<Rightarrow> SeqNumber \<Rightarrow> Digest" where
  "coin_digest E rnd height epoch =
     hash32 E (u64_to_le_bytes rnd @ u64_to_le_bytes height @ u64_to_le_bytes epoch)"

definition share_digest :: "'z crypto_ext_scheme \<Rightarrow> RandomnessShare \<Rightarrow> Digest" where
  "share_digest E sh = coin_digest E (rs_round sh) (rs_height sh) (rs_epoch sh)"

definition share_new ::
    "'z crypto_ext_scheme \<Rightarrow> SignatureService \<Rightarrow> SeqNumber \<Rightarrow> SeqNumber \<Rightarrow> SeqNumber \<Rightarrow> PublicKey \<Rightarrow>
     ('e, RandomnessShare) result" where
  "share_new E svc height epoch rnd author =
     rbind (unwrap (request_tss_signature E svc (coin_digest E rnd height epoch))) (\<lambda>sh.
       Ok \<lparr>rs_height = height, rs_epoch = epoch, rs_round = rnd, rs_author = author, rs_signature_share = sh\<rparr>)"

definition share_verify ::
    "'z crypto_ext_scheme \<Rightarrow> Committee \<Rightarrow> PublicKeySet \<Rightarrow> RandomnessShare \<Rightarrow> unit ConsensusResult" where
  "share_verify E c pk_set sh =
     rbind (ensure (0 < stake c (rs_author sh)) (UnknownAuthority (rs_author sh))) (\<lambda>_.
     rbind (committee_id c (rs_author sh)) (\<lambda>id.
     ensure (tss_verify E pk_set id (rs_signature_share sh) (digest_bytes (share_digest E sh)))
       (InvalidThresholdSignature (rs_author sh))))"

record RandomCoin =
  rc_height :: SeqNumber
  rc_epoch :: SeqNumber
  rc_round :: SeqNumber
  rc_leader :: PublicKey
  rc_shares :: "RandomnessShare list"

section \<open>Agreement messages\<close>

record MDoneAndShare =
  md_author :: PublicKey
  md_signature :: Signature
  md_epoch :: SeqNumber
  md_height :: SeqNumber
  md_round :: SeqNumber
  md_share :: RandomnessShare

definition mdone_digest :: "'z crypto_ext_scheme \<Rightarrow> MDoneAndShare \<Rightarrow> Digest" where
  "mdone_digest E d = hash32 E (key_bytes (md_author d) @ u64_to_be_bytes (md_round d) @
     u64_to_le_bytes (md_height d) @ u64_to_le_bytes (md_epoch d))"

definition mdone_new ::
    "'z crypto_ext_scheme \<Rightarrow> SignatureService \<Rightarrow> PublicKey \<Rightarrow> SeqNumber \<Rightarrow> SeqNumber \<Rightarrow> SeqNumber \<Rightarrow>
     RandomnessShare \<Rightarrow> ('e, MDoneAndShare) result" where
  "mdone_new E svc author epoch height rnd share =
     (let d = \<lparr>md_author = author, md_signature = signature_default, md_epoch = epoch, md_height = height,
               md_round = rnd, md_share = share\<rparr>
      in rbind (request_signature E svc (mdone_digest E d)) (\<lambda>sig. Ok (d\<lparr>md_signature := sig\<rparr>)))"

definition mdone_verify ::
    "'z crypto_ext_scheme \<Rightarrow> Committee \<Rightarrow> PublicKeySet \<Rightarrow> MDoneAndShare \<Rightarrow> unit ConsensusResult" where
  "mdone_verify E c pk_set d = checks
     [verify_sig E (md_signature d) (mdone_digest E d) (md_author d),
      share_verify E c pk_set (md_share d)]"

datatype PreVoteTag = PreVoteYes SPBValue SPBProof | PreVoteNo

fun prevotetag_verify ::
    "'z crypto_ext_scheme \<Rightarrow> Committee \<Rightarrow> SeqNumber \<Rightarrow> PreVoteTag \<Rightarrow> unit ConsensusResult" where
  "prevotetag_verify E c fb_length (PreVoteYes v p) = spbvalue_verify E c p fb_length v"
| "prevotetag_verify E c fb_length PreVoteNo = Ok ()"

definition prevotetag_new_yes :: "SPBValue \<Rightarrow> SPBProof \<Rightarrow> PreVoteTag" where
  "prevotetag_new_yes v p = PreVoteYes v p"

definition prevotetag_new_no :: PreVoteTag where
  "prevotetag_new_no = PreVoteNo"

fun prevotetag_is_yes :: "PreVoteTag \<Rightarrow> bool" where
  "prevotetag_is_yes (PreVoteYes v p) = True"
| "prevotetag_is_yes PreVoteNo = False"

fun prevotetag_to_string :: "PreVoteTag \<Rightarrow> string" where
  "prevotetag_to_string (PreVoteYes v p) = ''PreVote-Yes''"
| "prevotetag_to_string PreVoteNo = ''PreVote-No''"

record MPreVote =
  pv_author :: PublicKey
  pv_signature :: Signature
  pv_leader :: PublicKey
  pv_round :: SeqNumber
  pv_height :: SeqNumber
  pv_epoch :: SeqNumber
  pv_tag :: PreVoteTag

definition mprevote_digest :: "'z crypto_ext_scheme \<Rightarrow> MPreVote \<Rightarrow> Digest" where
  "mprevote_digest E v = hash32 E (key_bytes (pv_author v) @ key_bytes (pv_leader v) @
     u64_to_be_bytes (pv_round v) @ u64_to_le_bytes (pv_height v) @ u64_to_le_bytes (pv_epoch v) @
     str_bytes (prevotetag_to_string (pv_tag v)))"

definition mprevote_new ::
    "'z crypto_ext_scheme \<Rightarrow> SignatureService \<Rightarrow> PublicKey \<Rightarrow> PublicKey \<Rightarrow> SeqNumber \<Rightarrow> SeqNumber \<Rightarrow>
     SeqNumber \<Rightarrow> PreVoteTag \<Rightarrow> ('e, MPreVote) result" where
  "mprevote_new E svc author leader rnd height epoch tag =
     (let v = \<lparr>pv_author = author, pv_signature = signature_default, pv_leader = leader, pv_round = rnd,
               pv_height = height, pv_epoch = epoch, pv_tag = tag\<rparr>
      in rbind (request_signature E svc (mprevote_digest E v)) (\<lambda>sig. Ok (v\<lparr>pv_signature := sig\<rparr>)))"

definition mprevote_verify ::
    "'z crypto_ext_scheme \<Rightarrow> Committee \<Rightarrow> SeqNumber \<Rightarrow> MPreVote \<Rightarrow> unit ConsensusResult" where
  "mprevote_verify E c fb_length v = checks
     [ensure (0 < stake c (pv_author v)) (UnknownAuthority (pv_author v)),
      verify_sig E (pv_signature v) (mprevote_digest E v) (pv_author v),
      prevotetag_verify E c fb_length (pv_tag v)]"

datatype MVoteTag = MVoteYes SPBValue SPBProof SPBVote | MVoteNo

definition mvotetag_new_yes ::
    "'z crypto_ext_scheme \<Rightarrow> SignatureService \<Rightarrow> PublicKey \<Rightarrow> SPBValue \<Rightarrow> SPBProof \<Rightarrow> ('e, MVoteTag) result" where
  "mvotetag_new_yes E svc author v p = rbind (spbvote_new E svc v author) (\<lambda>vote. Ok (MVoteYes v p vote))"

definition mvotetag_new_no :: MVoteTag where
  "mvotetag_new_no = MVoteNo"

fun mvotetag_verify ::
    "'z crypto_ext_scheme \<Rightarrow> Committee \<Rightarrow> SeqNumber \<Rightarrow> MVoteTag \<Rightarrow> unit ConsensusResult" where
  "mvotetag_verify E c fb_length (MVoteYes v p vote) =
     checks [spbvalue_verify E c p fb_length v, spbvote_verify E c vote]"
| "mvotetag_verify E c fb_length MVoteNo = Ok ()"

fun mvotetag_to_string :: "MVoteTag \<Rightarrow> string" where
  "mvotetag_to_string (MVoteYes v p vote) = ''Vote-Yes''"
| "mvotetag_to_string MVoteNo = ''Vote-No''"

record MVote =
  mv_author :: PublicKey
  mv_leader :: PublicKey
  mv_round :: SeqNumber
  mv_height :: SeqNumber
  mv_epoch :: SeqNumber
  mv_signature :: Signature
  mv_tag :: MVoteTag

definition mvote_digest :: "'z crypto_ext_scheme \<Rightarrow> MVote \<Rightarrow> Digest" where
  "mvote_digest E v = hash32 E (key_bytes (mv_author v) @ u64_to_be_bytes (mv_round v) @
     u64_to_le_bytes (mv_height v) @ u64_to_le_bytes (mv_epoch v) @ str_bytes (mvotetag_to_string (mv_tag v)))"

definition mvote_new ::
    "'z crypto_ext_scheme \<Rightarrow> SignatureService \<Rightarrow> PublicKey \<Rightarrow> PublicKey \<Rightarrow> SeqNumber \<Rightarrow> SeqNumber \<Rightarrow>
     SeqNumber \<Rightarrow> MVoteTag \<Rightarrow> ('e, MVote) result" where
  "mvote_new E svc author leader rnd height epoch tag =
     (let v = \<lparr>mv_author = author, mv_leader = leader, mv_round = rnd, mv_height = height,
               mv_epoch = epoch, mv_signature = signature_default, mv_tag = tag\<rparr>
      in rbind (request_signature E svc (mvote_digest E v)) (\<lambda>sig. Ok (v\<lparr>mv_signature := sig\<rparr>)))"

definition mvote_verify ::
    "'z crypto_ext_scheme \<Rightarrow> Committee \<Rightarrow> PublicKeySet \<Rightarrow> SeqNumber \<Rightarrow> MVote \<Rightarrow> unit ConsensusResult" where
  "mvote_verify E c pk_set fb_length v = checks
     [ensure (0 < stake c (mv_author v)) (UnknownAuthority (mv_author v)),
      verify_sig E (mv_signature v) (mvote_digest E v) (mv_author v),
      mvotetag_verify E c fb_length (mv_tag v)]"

record MHalt =
  mh_author :: PublicKey
  mh_leader :: PublicKey
  mh_value :: SPBValue
  mh_proof :: SPBProof
  mh_round :: SeqNumber
  mh_height :: SeqNumber
  mh_epoch :: SeqNumber
  mh_signature :: Signature

definition mhalt_digest :: "'z crypto_ext_scheme \<Rightarrow> MHalt \<Rightarrow> Digest" where
  "mhalt_digest E h = hash32 E (key_bytes (mh_author h) @ u64_to_le_bytes (mh_round h) @
     u64_to_le_bytes (mh_height h) @ u64_to_le_bytes (mh_epoch h))"

definition mhalt_new ::
    "'z crypto_ext_scheme \<Rightarrow> SignatureService \<Rightarrow> PublicKey \<Rightarrow> PublicKey \<Rightarrow> SPBValue \<Rightarrow> SPBProof \<Rightarrow>
     ('e, MHalt) result" where
  "mhalt_new E svc author leader value pf =
     (let h = \<lparr>mh_author = author, mh_leader = leader, mh_value = value, mh_proof = pf,
               mh_round = pf_round pf, mh_height = pf_height pf, mh_epoch = b_epoch (sv_block value),
               mh_signature = signature_default\<rparr>
      in rbind (request_signature E svc (mhalt_digest E h)) (\<lambda>sig. Ok (h\<lparr>mh_signature := sig\<rparr>)))"

definition mhalt_verify ::
    "'z crypto_ext_scheme \<Rightarrow> Committee \<Rightarrow> PublicKeySet \<Rightarrow> SeqNumber \<Rightarrow> MHalt \<Rightarrow> unit ConsensusResult" where
  "mhalt_verify E c pk_set fb_length h = checks
     [ensure (0 < stake c (mh_author h)) (UnknownAuthority (mh_author h)),
      verify_sig E (mh_signature h) (mhalt_digest E h) (mh_author h),
      ensure (pf_phase (mh_proof h) = FIN_PHASE) InvalidFinProof,
      spbvalue_verify E c (mh_proof h) fb_length (mh_value h)]"

section \<open>The messages between nodes\<close>

datatype ConsensusMessage =
    HsPropose Block
  | HSVote HVote
  | HsLoopBack Block
  | SyncRequest Digest PublicKey
  | SyncReply Block
  | SPBPropose SPBValue SPBProof
  | SPBVoteMsg SPBVote
  | SPBFinsh SPBValue SPBProof
  | SPBDoneAndShare MDoneAndShare
  | SMVBAPreVote MPreVote
  | SMVBAVote MVote
  | SMVBAHalt MHalt
  | ParPrePare PrePare
  | ParLoopBack Block
  | FBPropose Block
  | FBVote HVote
  | FBLoopBack Block

end
