(* ===== verification/Message_Props.thy ===== *)
theory Message_Props
  imports Messages
begin

text \<open>
  What the checks of \<open>consensus/src/messages.rs\<close> establish: a certificate that verifies has
  distinct voters of the committee with a quorum of stake; what a node makes with its own
  signature service verifies at its peers; no check panics. The last section shows
  what the checks leave out.
\<close>

section \<open>Certificates\<close>

lemma qc_count_Ok:
  "qc_count c votes used w = Ok w' \<longleftrightarrow>
     distinct (map fst votes) \<and> fset used \<inter> set (map fst votes) = {} \<and>
     (\<forall>k \<in> set (map fst votes). 0 < stake c k) \<and> w' = w + sum_list (map (stake c \<circ> fst) votes)"
proof (induction votes arbitrary: used w)
  case Nil
  then show ?case by auto
next
  case (Cons v votes)
  then show ?case by (cases v) (auto simp: add.assoc)
qed

lemma qc_count_no_Panic [simp]: "qc_count c votes used w \<noteq> Panic"
proof (induction votes arbitrary: used w)
  case (Cons v votes)
  then show ?case by (cases v) auto
qed simp

text \<open>The stake of a list of distinct members is counted without wrap-around.\<close>

lemma unat_stake_sum:
  assumes "wf_committee c" and "distinct ks"
  shows "unat (sum_list (map (stake c) ks)) = (\<Sum>k \<in> set ks. unat (stake c k))"
proof -
  have "(\<Sum>k \<in> set ks. unat (stake c k)) = (\<Sum>k \<in> set ks \<inter> set (committee_names c). unat (stake c k))"
    by (intro sum.mono_neutral_right) (auto simp: stake_not_member)
  also have "\<dots> \<le> total_stake c"
    unfolding total_stake_names [OF assms(1)] by (rule sum_mono2) auto
  also have "\<dots> < 2 ^ LENGTH(32)"
    using assms(1) by (simp add: wf_committee_def)
  finally have "sum_list (map unat (map (stake c) ks)) < 2 ^ LENGTH(32)"
    using assms(2) by (simp add: sum_list_distinct_conv_sum_set comp_def)
  from unat_sum_list [OF this] show ?thesis
    using assms(2) by (simp add: sum_list_distinct_conv_sum_set comp_def)
qed

definition voters :: "QC \<Rightarrow> PublicKey set" where
  "voters qc = set (map fst (qc_votes qc))"

definition has_quorum :: "Committee \<Rightarrow> PublicKey set \<Rightarrow> bool" where
  "has_quorum c A \<longleftrightarrow> unat (quorum_threshold c) \<le> (\<Sum>k \<in> A. unat (stake c k))"

lemma qc_verify_char:
  assumes "wf_committee c"
  shows "qc_verify E c qc = Ok () \<longleftrightarrow>
    distinct (map fst (qc_votes qc)) \<and> (\<forall>k \<in> voters qc. 0 < stake c k) \<and>
    has_quorum c (voters qc) \<and> verify_sigs E (qc_digest E qc) (qc_votes qc) = Ok ()"
proof -
  have "qc_verify E c qc = Ok () \<longleftrightarrow>
     distinct (map fst (qc_votes qc)) \<and> (\<forall>k \<in> voters qc. 0 < stake c k) \<and>
     quorum_threshold c \<le> sum_list (map (stake c \<circ> fst) (qc_votes qc)) \<and>
     verify_sigs E (qc_digest E qc) (qc_votes qc) = Ok ()"
    by (auto simp: qc_verify_def rbind_Ok qc_count_Ok voters_def)
  moreover have "quorum_threshold c \<le> sum_list (map (stake c \<circ> fst) (qc_votes qc)) \<longleftrightarrow> has_quorum c (voters qc)"
    if "distinct (map fst (qc_votes qc))"
    using unat_stake_sum [OF assms that] by (simp add: word_le_nat_alt has_quorum_def voters_def)
  ultimately show ?thesis by blast
qed

lemma verified_qc_quorum:
  assumes "wf_committee c" and "qc_verify E c qc = Ok ()"
  shows "has_quorum c (voters qc)" and "distinct (map fst (qc_votes qc))"
  using assms by (simp_all add: qc_verify_char)

lemma finite_voters [simp]: "finite (voters qc)"
  by (simp add: voters_def)

lemma quorums_share_correct:
  assumes "bft_committee c" and "finite A" and "finite B"
    and "has_quorum c A" and "has_quorum c B"
    and "(\<Sum>k \<in> F \<inter> set (committee_names c). unat (stake c k)) \<le> max_faults c"
  obtains k where "k \<in> A" and "k \<in> B" and "k \<in> set (committee_names c)" and "k \<notin> F"
  using cq.common_correct_member [of c A B F] assms unfolding has_quorum_def by blast

lemma verified_certificates_intersect:
  assumes "bft_committee c" and "qc_verify E c qc = Ok ()" and "qc_verify E c qc' = Ok ()"
    and "(\<Sum>k \<in> F \<inter> set (committee_names c). unat (stake c k)) \<le> max_faults c"
  shows "\<exists>k. k \<in> voters qc \<and> k \<in> voters qc' \<and> k \<in> set (committee_names c) \<and> k \<notin> F"
proof -
  have "wf_committee c" using assms(1) by (simp add: bft_committee_def)
  then have "has_quorum c (voters qc)" "has_quorum c (voters qc')"
    using assms(2,3) by (simp_all add: verified_qc_quorum)
  then show ?thesis using quorums_share_correct [OF assms(1) _ _ _ _ assms(4)] finite_voters by metis
qed

section \<open>Fresh messages verify\<close>

definition service_key :: "SignatureService \<Rightarrow> PublicKey" where
  "service_key svc = PublicKey (drop 32 (secret_bytes (ss_secret svc)))"

lemma request_signature_verifies:
  assumes "ed25519_ok E" and "request_signature E svc d = (Ok s :: (ConsensusError, Signature) result)"
  shows "verify_sig E s d (service_key svc) = Ok ()"
  using sign_then_verify [OF assms(1)] assms(2)
  by (simp add: verify_sig_def request_signature_def service_key_def)

lemma block_new_Ok:
  assumes "block_new E svc qc author height epoch rnd payload tag = Ok b"
  shows "b_qc b = qc \<and> b_author b = author \<and> b_height b = height \<and> b_epoch b = epoch \<and>
     b_payload b = payload \<and> b_tag b = tag \<and> b_round b = rnd \<and>
     request_signature E svc (block_digest E b) = (Ok (b_signature b) :: (ConsensusError, Signature) result)"
  using assms by (auto simp: block_new_def Let_def rbind_Ok block_digest_def request_signature_def
      signature_new_def split: if_splits)

lemma hvote_new_Ok:
  assumes "hvote_new E svc b author tag = Ok v"
  shows "hv_hash v = block_digest E b \<and> hv_height v = b_height b \<and> hv_round v = b_round b \<and>
     hv_epoch v = b_epoch b \<and> hv_proposer v = b_author b \<and> hv_tag v = tag \<and> hv_author v = author \<and>
     request_signature E svc (hvote_digest E v) = (Ok (hv_signature v) :: (ConsensusError, Signature) result)"
  using assms by (auto simp: hvote_new_def Let_def rbind_Ok hvote_digest_def request_signature_def
      signature_new_def split: if_splits)

lemma prepare_new_Ok:
  assumes "prepare_new E svc author epoch height qc val = Ok p"
  shows "pp_author p = author \<and> pp_epoch p = epoch \<and> pp_height p = height \<and> pp_qc p = qc \<and> pp_val p = val \<and>
     request_signature E svc (prepare_digest E p) = (Ok (pp_signature p) :: (ConsensusError, Signature) result)"
  using assms by (auto simp: prepare_new_def Let_def rbind_Ok prepare_digest_def request_signature_def
      signature_new_def split: if_splits)

lemma spbvote_new_Ok:
  assumes "spbvote_new E svc value author = Ok v"
  shows "sp_hash v = spbvalue_digest E value \<and> sp_phase v = sv_phase value \<and>
     sp_height v = b_height (sv_block value) \<and> sp_epoch v = b_epoch (sv_block value) \<and>
     sp_round v = sv_round value \<and> sp_proposer v = b_author (sv_block value) \<and> sp_author v = author \<and>
     request_signature E svc (spbvote_digest E v) = (Ok (sp_signature v) :: (ConsensusError, Signature) result)"
  using assms by (auto simp: spbvote_new_def Let_def rbind_Ok spbvote_digest_def request_signature_def
      signature_new_def split: if_splits)

lemma fresh_block_verifies:
  assumes "ed25519_ok E" and "block_new E svc qc (service_key svc) height epoch rnd payload tag = Ok b"
    and "0 < stake c (service_key svc)" and "qc_eq qc qc_genesis \<or> qc_verify E c qc = Ok ()"
  shows "block_verify E c b = Ok ()"
  using block_new_Ok [OF assms(2)] request_signature_verifies [OF assms(1)] assms(3,4)
  by (auto simp: block_verify_def checks_Ok)

lemma fresh_hvote_verifies:
  assumes "ed25519_ok E" and "hvote_new E svc b (service_key svc) tag = Ok v"
    and "0 < stake c (service_key svc)"
  shows "hvote_verify E c v = Ok ()"
  using hvote_new_Ok [OF assms(2)] request_signature_verifies [OF assms(1)] assms(3)
  by (auto simp: hvote_verify_def checks_Ok)

lemma hvote_verify_Ok:
  "hvote_verify E c v = Ok () \<longleftrightarrow>
     0 < stake c (hv_author v) \<and> signature_verify E (hv_signature v) (hvote_digest E v) (hv_author v) = Ok ()"
  by (auto simp: hvote_verify_def verify_sig_def rbind_Ok)

lemma spbvote_verify_Ok:
  "spbvote_verify E c v = Ok () \<longleftrightarrow>
     0 < stake c (sp_author v) \<and> signature_verify E (sp_signature v) (spbvote_digest E v) (sp_author v) = Ok ()"
  by (auto simp: spbvote_verify_def verify_sig_def rbind_Ok)

lemma fresh_prepare_verifies:
  assumes "ed25519_ok E" and "prepare_new E svc (service_key svc) epoch height qc val = Ok p"
    and "val = OPT \<or> val = PES" and "qc_eq qc qc_genesis \<or> qc_verify E c qc = Ok ()"
    and "qc_tag qc = PES \<longrightarrow> qc_round qc = fb_length"
  shows "prepare_verify E c fb_length p = Ok ()"
  using prepare_new_Ok [OF assms(2)] request_signature_verifies [OF assms(1)] assms(3-5)
  by (auto simp: prepare_verify_def checks_Ok)

lemma fresh_spbvote_verifies:
  assumes "ed25519_ok E" and "spbvote_new E svc value (service_key svc) = Ok v"
    and "0 < stake c (service_key svc)"
  shows "spbvote_verify E c v = Ok ()"
  using spbvote_new_Ok [OF assms(2)] request_signature_verifies [OF assms(1)] assms(3)
  by (auto simp: spbvote_verify_def checks_Ok)

section \<open>No check panics\<close>

lemma verify_sig_no_Panic [simp]: "verify_sig E s d k \<noteq> Panic"
  by (simp add: verify_sig_def)

lemma verify_sigs_no_Panic [simp]: "verify_sigs E d vs \<noteq> Panic"
  by (simp add: verify_sigs_def)

lemma qc_verify_no_Panic [simp]: "qc_verify E c qc \<noteq> Panic"
  by (simp add: qc_verify_def rbind_Panic)

lemma block_verify_no_Panic [simp]: "block_verify E c b \<noteq> Panic"
  unfolding block_verify_def by (rule checks_no_Panic) simp

lemma hvote_verify_no_Panic [simp]: "hvote_verify E c v \<noteq> Panic"
  unfolding hvote_verify_def by (rule checks_no_Panic) simp

lemma prepare_verify_no_Panic [simp]: "prepare_verify E c n p \<noteq> Panic"
  unfolding prepare_verify_def by (rule checks_no_Panic) simp

lemma spbvote_verify_no_Panic [simp]: "spbvote_verify E c v \<noteq> Panic"
  unfolding spbvote_verify_def by (rule checks_no_Panic) simp

lemma proof_count_no_Panic [simp]: "proof_count c shares w \<noteq> Panic"
  by (induction shares arbitrary: w) auto

lemma spbproof_verify_no_Panic [simp]: "spbproof_verify E c p \<noteq> Panic"
proof -
  have "checks (map (spbvote_verify E c) (pf_shares p)) \<noteq> Panic"
    by (rule checks_no_Panic) auto
  then show ?thesis by (auto simp: spbproof_verify_def rbind_Panic)
qed

lemma spbvalue_verify_no_Panic [simp]: "spbvalue_verify E c p n v \<noteq> Panic"
  unfolding spbvalue_verify_def Let_def by (rule checks_no_Panic) simp

lemma committee_id_member: "0 < stake c k \<Longrightarrow> \<exists>i. committee_id c k = Ok i"
  by (auto simp: committee_id_def stake_def split: option.splits)

lemma share_verify_no_Panic [simp]: "share_verify E c pk sh \<noteq> Panic"
  using committee_id_member [of c "rs_author sh"]
  by (auto simp: share_verify_def rbind_Panic)

lemma mdone_verify_no_Panic [simp]: "mdone_verify E c pk d \<noteq> Panic"
  unfolding mdone_verify_def by (rule checks_no_Panic) simp

lemma prevotetag_verify_no_Panic [simp]: "prevotetag_verify E c n t \<noteq> Panic"
  by (cases t) simp_all

lemma mprevote_verify_no_Panic [simp]: "mprevote_verify E c n v \<noteq> Panic"
  unfolding mprevote_verify_def by (rule checks_no_Panic) simp

lemma mvotetag_verify_no_Panic [simp]: "mvotetag_verify E c n t \<noteq> Panic"
  by (cases t) (simp_all add: rbind_Panic)

lemma mvote_verify_no_Panic [simp]: "mvote_verify E c pk n v \<noteq> Panic"
  unfolding mvote_verify_def by (rule checks_no_Panic) simp

lemma mhalt_verify_no_Panic [simp]: "mhalt_verify E c pk n h \<noteq> Panic"
  unfolding mhalt_verify_def by (rule checks_no_Panic) simp

section \<open>What the checks leave out\<close>

lemma proof_count_Ok:
  "proof_count c shares w = Ok w' \<longleftrightarrow>
     (\<forall>s \<in> set shares. 0 < stake c (sp_author s)) \<and> w' = w + sum_list (map (stake c \<circ> sp_author) shares)"
  by (induction shares arbitrary: w) (auto simp: add.assoc)

lemma block_digest_round [simp]: "block_digest E (b\<lparr>b_round := r\<rparr>) = block_digest E b"
  by (simp add: block_digest_def)

lemma qc_eq_genesis: "qc_eq qc qc_genesis \<longleftrightarrow>
    qc_hash qc = digest_default \<and> qc_height qc = 0 \<and> qc_proposer qc = key_default"
  by (simp add: qc_eq_def qc_genesis_def)

text \<open>Broadcast proofs are counted share by share, so one share may stand for a quorum.\<close>

lemma repeated_share_proof:
  assumes "spbvote_verify E c v = Ok ()" and "LOCK_PHASE \<le> phase"
    and "quorum_threshold c \<le> word_of_nat n * stake c (sp_author v)"
  shows "spbproof_verify E c \<lparr>pf_phase = phase, pf_round = r, pf_height = h, pf_shares = replicate n v\<rparr> = Ok ()"
proof -
  have "proof_count c (replicate n v) 0 = Ok (word_of_nat n * stake c (sp_author v))"
    using assms(1) by (simp add: proof_count_Ok spbvote_verify_Ok comp_def sum_list_replicate)
  moreover have "checks (map (spbvote_verify E c) (replicate n v)) = Ok ()"
    using assms(1) by (simp add: checks_Ok)
  ultimately show ?thesis
    using assms(2,3) by (simp add: spbproof_verify_def)
qed

text \<open>The value an optimistic prepare starts the agreement with carries no signatures and a block without one.\<close>

lemma opt_value_rejected:
  assumes "wf_committee c" and "fb_length \<noteq> 0"
  shows "\<exists>e. spbvalue_verify E c pf fb_length (spbvalue_new
    (block_default\<lparr>b_author := author, b_epoch := epoch, b_height := height\<rparr>) rnd INIT_PHASE OPT []) = Err e"
proof -
  have "unat (random_coin_threshold c) = max_faults c + 1" by (rule unat_random_coin_threshold) (rule assms(1))
  then have "0 < random_coin_threshold c" by (simp add: word_less_nat_alt)
  with assms(2) show ?thesis
    by (cases "height = 1") (simp_all add: spbvalue_verify_def spbvalue_new_def block_default_def qc_genesis_def Let_def)
qed

end
