(* ===== verification/Leader.thy ===== *)
theory Leader
  imports Message_Props
begin

text \<open>
  Leader election (\<open>consensus/src/leader.rs\<close>): the leaders of a height are a window of
  consecutive members, in key order, that starts at \<open>height mod n\<close>; the leader of an agreement
  round is the one drawn by the random coin. Indices into the vector of names are \<open>nat\<close> (a
  vector holds fewer than \<open>2 ^ 63\<close> elements); the sum \<open>start + leader_window\<close> is taken on words.
\<close>

record LeaderElector =
  le_names :: "PublicKey list"
  le_name_to_idx :: "PublicKey \<rightharpoonup> nat"
  le_window :: usize
  le_random_coins :: "SeqNumber \<times> SeqNumber \<rightharpoonup> RandomCoin"

definition leader_elector_new :: "Committee \<Rightarrow> usize \<Rightarrow> LeaderElector" where
  "leader_elector_new c window =
     (let names = sort (map fst (authorities c))
      in \<lparr>le_names = names, le_name_to_idx = map_of (zip names [0..<length names]),
          le_window = window, le_random_coins = Map.empty\<rparr>)"

definition get_leader_idx :: "LeaderElector \<Rightarrow> SeqNumber \<Rightarrow> nat ConsensusResult" where
  "get_leader_idx le height =
     (if le_names le = [] then Panic else Ok (unat height mod length (le_names le)))"

definition get_leaders :: "LeaderElector \<Rightarrow> SeqNumber \<Rightarrow> PublicKey list ConsensusResult" where
  "get_leaders le height =
     rbind (get_leader_idx le height) (\<lambda>start.
       let n = length (le_names le);
           stop = unat (word_of_nat start + le_window le)
       in Ok (map (\<lambda>i. le_names le ! ((i + n) mod n)) [start..<stop]))"

definition index_as_leader :: "LeaderElector \<Rightarrow> PublicKey \<Rightarrow> SeqNumber \<Rightarrow> nat option ConsensusResult" where
  "index_as_leader le name height =
     rbind (get_leader_idx le height) (\<lambda>start.
     rbind (unwrap (le_name_to_idx le name)) (\<lambda>position.
       let n = length (le_names le);
           idx = (position + n - start) mod n
       in Ok (if idx < unat (le_window le) then Some idx else None)))"

definition add_random_coin :: "RandomCoin \<Rightarrow> LeaderElector \<Rightarrow> LeaderElector" where
  "add_random_coin coin le =
     le\<lparr>le_random_coins := (le_random_coins le)((rc_height coin, rc_round coin) \<mapsto> coin)\<rparr>"

definition get_coin_leader :: "LeaderElector \<Rightarrow> SeqNumber \<Rightarrow> SeqNumber \<Rightarrow> PublicKey option" where
  "get_coin_leader le height rnd = map_option rc_leader (le_random_coins le (height, rnd))"

section \<open>Lemmas\<close>

text \<open>What \<open>new\<close> establishes and the other operations leave alone.\<close>

definition wf_elector :: "LeaderElector \<Rightarrow> bool" where
  "wf_elector le \<longleftrightarrow> le_names le \<noteq> [] \<and> distinct (le_names le) \<and> sorted (le_names le) \<and>
     length (le_names le) < 2 ^ 63 \<and>
     le_name_to_idx le = map_of (zip (le_names le) [0..<length (le_names le)])"

lemma leader_elector_new_wf:
  assumes "keyed_by_name (authorities c)" and "authorities c \<noteq> []" and "length (authorities c) < 2 ^ 63"
  shows "wf_elector (leader_elector_new c window)"
proof -
  have "sort (map fst (authorities c)) \<noteq> []"
    using assms(2) by (metis length_0_conv length_map length_sort)
  then show ?thesis
    using assms(1,3) by (simp add: wf_elector_def leader_elector_new_def Let_def keyed_by_name_def)
qed

lemma add_random_coin_wf [simp]: "wf_elector (add_random_coin coin le) = wf_elector le"
  by (simp add: wf_elector_def add_random_coin_def)

lemma name_to_idx_nth:
  assumes "wf_elector le" and "i < length (le_names le)"
  shows "le_name_to_idx le (le_names le ! i) = Some i"
  using assms map_of_zip_nth [of "le_names le" "[0..<length (le_names le)]" i]
  by (simp add: wf_elector_def)

lemma name_to_idx_None:
  assumes "wf_elector le"
  shows "le_name_to_idx le k = None \<longleftrightarrow> k \<notin> set (le_names le)"
  using assms by (simp add: wf_elector_def map_of_zip_is_None)

lemma name_to_idx_Some:
  assumes "wf_elector le"
  shows "le_name_to_idx le k = Some i \<longleftrightarrow> i < length (le_names le) \<and> le_names le ! i = k"
proof
  assume L: "le_name_to_idx le k = Some i"
  then have "k \<in> set (le_names le)"
    using name_to_idx_None [OF assms, of k] by auto
  then obtain j where j: "j < length (le_names le)" "le_names le ! j = k"
    by (auto simp: in_set_conv_nth)
  with name_to_idx_nth [OF assms j(1)] L have "j = i" by simp
  with j show "i < length (le_names le) \<and> le_names le ! i = k" by simp
next
  assume "i < length (le_names le) \<and> le_names le ! i = k"
  then show "le_name_to_idx le k = Some i" using name_to_idx_nth [OF assms] by auto
qed

text \<open>Rotation by \<open>start\<close> and back.\<close>

lemma rotate_index:
  fixes p i n start :: nat
  assumes "p < n" and "i < n" and "start < n"
  shows "(p + n - start) mod n = i \<longleftrightarrow> p = (start + i) mod n"
proof -
  have L: "(p + n - start) mod n = (if start \<le> p then p - start else p + n - start)"
    using assms by (auto simp: mod_if)
  have R: "(start + i) mod n = (if start + i < n then start + i else start + i - n)"
    using assms by (auto simp: mod_if)
  show ?thesis unfolding L R using assms by auto
qed

lemma get_leaders_nth:
  assumes "wf_elector le" and "unat height mod length (le_names le) + unat (le_window le) < 2 ^ 64"
  shows "get_leaders le height = Ok (map (\<lambda>i. le_names le !
           ((unat height mod length (le_names le) + i) mod length (le_names le))) [0..<unat (le_window le)])"
proof -
  let ?n = "length (le_names le)"
  let ?s = "unat height mod ?n"
  have n: "0 < ?n" "?n < 2 ^ 63" using assms(1) by (auto simp: wf_elector_def)
  have "?s < ?n" using n(1) by (rule mod_less_divisor)
  also have "\<dots> < 2 ^ 64" using n(2) by (rule less_trans) simp
  finally have "?s < 2 ^ 64" .
  then have "unat (word_of_nat ?s + le_window le) = ?s + unat (le_window le)"
    using assms(2) by (simp add: unat_word_ariths unat_of_nat)
  moreover have "map (\<lambda>i. le_names le ! ((i + ?n) mod ?n)) [?s..<?s + unat (le_window le)]
      = map (\<lambda>i. le_names le ! ((?s + i) mod ?n)) [0..<unat (le_window le)]"
    by (rule nth_equalityI) auto
  ultimately show ?thesis
    using assms(1) by (simp add: get_leaders_def get_leader_idx_def wf_elector_def Let_def)
qed

lemma index_as_leader_iff:
  assumes "wf_elector le" and "i < length (le_names le)" and "k \<in> set (le_names le)"
  shows "index_as_leader le k height = Ok (Some i) \<longleftrightarrow>
    i < unat (le_window le) \<and>
    le_names le ! ((unat height mod length (le_names le) + i) mod length (le_names le)) = k"
proof -
  let ?n = "length (le_names le)"
  let ?s = "unat height mod ?n"
  obtain p where p: "p < ?n" "le_names le ! p = k"
    using assms(3) by (auto simp: in_set_conv_nth)
  have n: "0 < ?n" using assms(2) by linarith
  have "le_names le \<noteq> []" using assms(1) by (simp add: wf_elector_def)
  then have "index_as_leader le k height =
      Ok (if (p + ?n - ?s) mod ?n < unat (le_window le) then Some ((p + ?n - ?s) mod ?n) else None)"
    using name_to_idx_nth [OF assms(1) p(1)] p(2)
    by (simp add: index_as_leader_def get_leader_idx_def Let_def)
  then have "index_as_leader le k height = Ok (Some i) \<longleftrightarrow>
      i < unat (le_window le) \<and> (p + ?n - ?s) mod ?n = i" by auto
  also have "(p + ?n - ?s) mod ?n = i \<longleftrightarrow> p = (?s + i) mod ?n"
    using p(1) assms(2) n by (intro rotate_index) auto
  also have "p = (?s + i) mod ?n \<longleftrightarrow> le_names le ! ((?s + i) mod ?n) = k"
    using p n assms(1) nth_eq_iff_index_eq [of "le_names le" "(?s + i) mod ?n" p]
    by (auto simp: wf_elector_def)
  finally show ?thesis .
qed

lemma index_as_leader_unknown:
  assumes "wf_elector le" and "k \<notin> set (le_names le)"
  shows "index_as_leader le k height = Panic"
proof -
  have "le_name_to_idx le k = None" using name_to_idx_None [OF assms(1)] assms(2) by simp
  moreover have "le_names le \<noteq> []" using assms(1) by (simp add: wf_elector_def)
  ultimately show ?thesis by (simp add: index_as_leader_def get_leader_idx_def)
qed

lemma index_as_leader_known:
  assumes "wf_elector le" and "k \<in> set (le_names le)"
  obtains r where "index_as_leader le k height = Ok r" and "\<And>i. r = Some i \<Longrightarrow> i < length (le_names le)"
proof -
  obtain p where "p < length (le_names le)" "le_names le ! p = k"
    using assms(2) by (auto simp: in_set_conv_nth)
  with name_to_idx_nth [OF assms(1)] have "le_name_to_idx le k = Some p" by auto
  moreover have "le_names le \<noteq> []" using assms(1) by (simp add: wf_elector_def)
  moreover define r where "r = (let idx = (p + length (le_names le) - unat height mod length (le_names le))
      mod length (le_names le) in if idx < unat (le_window le) then Some idx else None)"
  ultimately have "index_as_leader le k height = Ok r"
    by (simp add: index_as_leader_def get_leader_idx_def Let_def)
  moreover have "i < length (le_names le)" if "r = Some i" for i
    using that \<open>le_names le \<noteq> []\<close> by (auto simp: r_def Let_def split: if_splits)
  ultimately show ?thesis using that by blast
qed

text \<open>The leaders of a height, as a set, are the names that have an index.\<close>

lemma get_leaders_window:
  assumes wf: "wf_elector le" and w: "unat (le_window le) \<le> length (le_names le)" and L: "get_leaders le height = Ok ls"
  shows "ls = map (\<lambda>i. le_names le ! ((unat height mod length (le_names le) + i) mod length (le_names le))) [0..<unat (le_window le)]"
proof -
  let ?n = "length (le_names le)"
  let ?s = "unat height mod ?n"
  have n: "0 < ?n" "?n < 2 ^ 63" using wf by (auto simp: wf_elector_def)
  have "?s < ?n" using n(1) by (rule mod_less_divisor)
  with w n(2) have "?s + unat (le_window le) < 2 ^ 63 + 2 ^ 63" by linarith
  then have b: "?s + unat (le_window le) < 2 ^ 64" by simp
  from get_leaders_nth [OF wf b] L show ?thesis by simp
qed

lemma leader_index_position:
  assumes wf: "wf_elector le" and k: "k \<in> set (le_names le)"
    and w: "unat (le_window le) \<le> length (le_names le)" and L: "get_leaders le height = Ok ls"
    and i: "index_as_leader le k height = Ok (Some i)"
  shows "i < length ls \<and> ls ! i = k"
proof -
  have "i < length (le_names le)" using index_as_leader_known [OF wf k, of height] i by fastforce
  with i index_as_leader_iff [OF wf _ k] show ?thesis by (simp add: get_leaders_window [OF wf w L])
qed

lemma index_as_leader_in_leaders:
  assumes wf: "wf_elector le" and k: "k \<in> set (le_names le)"
    and w: "unat (le_window le) \<le> length (le_names le)"
    and L: "get_leaders le height = Ok ls"
  shows "(\<exists>i. index_as_leader le k height = Ok (Some i)) \<longleftrightarrow> k \<in> set ls"
proof -
  let ?n = "length (le_names le)"
  let ?s = "unat height mod ?n"
  note ls = get_leaders_window [OF wf w L]
  show ?thesis
  proof
    assume "\<exists>i. index_as_leader le k height = Ok (Some i)"
    then obtain i where i: "index_as_leader le k height = Ok (Some i)" ..
    then have "i < ?n" using index_as_leader_known [OF wf k, of height] by fastforce
    with i index_as_leader_iff [OF wf _ k] show "k \<in> set ls" unfolding ls by force
  next
    assume "k \<in> set ls"
    then obtain i where i: "i < unat (le_window le)" "k = le_names le ! ((?s + i) mod ?n)"
      unfolding ls by auto
    with w have "i < ?n" by simp
    with i index_as_leader_iff [OF wf this k] show "\<exists>i. index_as_leader le k height = Ok (Some i)" by auto
  qed
qed

lemma get_coin_leader_add [simp]:
  "get_coin_leader (add_random_coin coin le) h r =
     (if (h, r) = (rc_height coin, rc_round coin) then Some (rc_leader coin) else get_coin_leader le h r)"
  by (auto simp: get_coin_leader_def add_random_coin_def)

lemma leader_ops_add_coin [simp]:
  "get_leaders (add_random_coin coin le) h = get_leaders le h"
  "index_as_leader (add_random_coin coin le) k h = index_as_leader le k h"
  by (simp_all add: get_leaders_def index_as_leader_def get_leader_idx_def add_random_coin_def)

end
