(* ===== verification/Timer.thy ===== *)
theory Timer
  imports Prelude
begin

text \<open>
  The proposal timer (\<open>consensus/src/timer.rs\<close>). The sleep future is its deadline, in
  milliseconds of the clock that \<open>Instant::now\<close> reads; the clock is an argument. A tokio sleep is ready once the
  clock has reached the deadline, and stays ready until it is reset.
\<close>

record Timer =
  t_sleep :: "nat option"
  t_waker :: bool

definition timer_new :: Timer where
  "timer_new = \<lparr>t_sleep = None, t_waker = False\<rparr>"

text \<open>
  \<open>reset\<close> moves the deadline of an existing sleep or creates one; both end with the deadline
  \<open>now + d\<close>. The second component says whether a waiting task was woken.
\<close>

definition timer_reset :: "nat \<Rightarrow> u64 option \<Rightarrow> Timer \<Rightarrow> Timer \<times> bool" where
  "timer_reset now duration t =
     (let t1 = (case duration of
                  Some d \<Rightarrow> (case t_sleep t of
                      Some _ \<Rightarrow> t\<lparr>t_sleep := Some (now + unat d)\<rparr>
                    | None \<Rightarrow> t\<lparr>t_sleep := Some (now + unat d)\<rparr>)
                | None \<Rightarrow> t\<lparr>t_sleep := None\<rparr>)
      in (t1\<lparr>t_waker := False\<rparr>, t_waker t1))"

definition timer_poll :: "nat \<Rightarrow> Timer \<Rightarrow> Timer \<times> bool" where
  "timer_poll now t =
     (t\<lparr>t_waker := True\<rparr>, case t_sleep t of Some deadline \<Rightarrow> deadline \<le> now | None \<Rightarrow> False)"

text \<open>
  The sequence of calls the actor makes: resets and polls at the times the clock shows. The
  answers of the polls are collected.
\<close>

datatype timer_call = Reset nat "u64 option" | Poll nat

fun timer_run :: "Timer \<Rightarrow> timer_call list \<Rightarrow> Timer \<times> bool list" where
  "timer_run t [] = (t, [])"
| "timer_run t (Reset now d # cs) = timer_run (fst (timer_reset now d t)) cs"
| "timer_run t (Poll now # cs) =
     (let (t', ready) = timer_poll now t; (t'', rs) = timer_run t' cs in (t'', ready # rs))"

lemma timer_reset_sleep [simp]:
  "t_sleep (fst (timer_reset now d t)) = map_option (\<lambda>d. now + unat d) d"
  by (simp add: timer_reset_def Let_def split: option.splits)

lemma timer_poll_sleep [simp]: "t_sleep (fst (timer_poll now t)) = t_sleep t"
  by (simp add: timer_poll_def)

lemma timer_reset_wakes: "snd (timer_reset now d t) = t_waker t \<and> \<not> t_waker (fst (timer_reset now d t))"
  by (simp add: timer_reset_def Let_def split: option.splits)

text \<open>The last reset decides: the polls that follow it are ready exactly from its deadline on.\<close>

lemma timer_run_polls:
  "timer_run t (map Poll nows) =
     (if nows = [] then t else t\<lparr>t_waker := True\<rparr>,
      map (\<lambda>now. case t_sleep t of Some deadline \<Rightarrow> deadline \<le> now | None \<Rightarrow> False) nows)"
  by (induction nows arbitrary: t) (simp_all add: timer_poll_def)

lemma timer_fires_at_deadline:
  "snd (timer_run (fst (timer_reset now d t)) (map Poll nows)) =
     map (\<lambda>time. case d of Some delay \<Rightarrow> now + unat delay \<le> time | None \<Rightarrow> False) nows"
  by (cases d) (simp_all add: timer_run_polls)

end
