(* ===== verification/Aggregator.thy ===== *)
theory Aggregator
  imports Message_Props
begin

text \<open>
  Vote aggregation (\<open>consensus/src/aggregator.rs\<close>): the three makers that collect votes, shares
  of a broadcast proof and shares of the random coin, and the aggregator that keeps one maker per key.
  The contract the first two makers share is the locale \<open>quorum_maker\<close>; its lemmas give the
  behaviour over any sequence of votes, repeated and concurrent voters included.
\<close>

section \<open>Makers\<close>

record QCMaker =
  qm_weight :: Stake
  qm_votes :: "(PublicKey \<times> Signature) list"
  qm_used :: "PublicKey fset"

definition qcmaker_new :: QCMaker where
  "qcmaker_new = \<lparr>qm_weight = 0, qm_votes = [], qm_used = {||}\<rparr>"

definition qcmaker_append :: "Committee \<Rightarrow> HVote \<Rightarrow> QCMaker \<Rightarrow> QCMaker \<times> QC option ConsensusResult" where
  "qcmaker_append c vote m =
     (let author = hv_author vote in
      if author |\<in>| qm_used m then (m, Err (AuthorityReuseinQC author))
      else
        let m1 = m\<lparr>qm_used := finsert author (qm_used m),
                   qm_votes := qm_votes m @ [(author, hv_signature vote)],
                   qm_weight := qm_weight m + stake c author\<rparr>
        in if quorum_threshold c \<le> qm_weight m1
           then (m1\<lparr>qm_weight := 0\<rparr>,
                 Ok (Some \<lparr>qc_hash = hv_hash vote, qc_height = hv_height vote, qc_epoch = hv_epoch vote,
                           qc_round = hv_round vote, qc_tag = hv_tag vote, qc_proposer = hv_proposer vote,
                           qc_acceptor = hv_proposer vote, qc_votes = qm_votes m1\<rparr>))
           else (m1, Ok None))"

record ProofMaker =
  pm_weight :: Stake
  pm_votes :: "SPBVote list"
  pm_used :: "PublicKey fset"

definition proofmaker_new :: ProofMaker where
  "proofmaker_new = \<lparr>pm_weight = 0, pm_votes = [], pm_used = {||}\<rparr>"

definition proofmaker_append ::
    "Committee \<Rightarrow> SPBVote \<Rightarrow> ProofMaker \<Rightarrow> ProofMaker \<times> SPBProof option ConsensusResult" where
  "proofmaker_append c vote m =
     (let author = sp_author vote in
      if author |\<in>| pm_used m then (m, Err (AuthorityReuseinProof author (pm_used m)))
      else
        let m1 = m\<lparr>pm_used := finsert author (pm_used m),
                   pm_votes := pm_votes m @ [vote],
                   pm_weight := pm_weight m + stake c author\<rparr>
        in if quorum_threshold c \<le> pm_weight m1
           then (m1\<lparr>pm_weight := 0\<rparr>,
                 Ok (Some \<lparr>pf_phase = sp_phase vote + 1, pf_round = sp_round vote,
                           pf_height = sp_height vote, pf_shares = pm_votes m1\<rparr>))
           else (m1, Ok None))"

record CoinMaker =
  cm_weight :: Stake
  cm_shares :: "RandomnessShare list"
  cm_used :: "PublicKey fset"

definition coinmaker_new :: CoinMaker where
  "coinmaker_new = \<lparr>cm_weight = 0, cm_shares = [], cm_used = {||}\<rparr>"

text \<open>
  The loop that fills the \<open>BTreeMap\<close> of signature shares by the id of their author; \<open>id\<close> panics
  on an author that is not in the committee. A \<open>BTreeMap\<close> iterates in key order.
\<close>

fun collect_shares ::
    "Committee \<Rightarrow> RandomnessShare list \<Rightarrow> (usize \<times> SignatureShare) list \<Rightarrow>
     (usize \<times> SignatureShare) list ConsensusResult" where
  "collect_shares c [] sigs = Ok sigs"
| "collect_shares c (share # shares) sigs =
     rbind (committee_id c (rs_author share)) (\<lambda>id.
       collect_shares c shares (AList.update id (rs_signature_share share) sigs))"

text \<open>
  The leader a combined signature elects: its first eight bytes, big-endian, modulo the size of
  the committee, as an index into the sorted keys.
\<close>

definition coin_leader :: "Committee \<Rightarrow> bytes \<Rightarrow> PublicKey ConsensusResult" where
  "coin_leader c sig =
     rbind (slice_to 8 sig) (\<lambda>bs.
       if committee_size c = 0 then Panic
       else let id = unat (usize_from_be_bytes bs) mod committee_size c;
                keys = sort (map fst (authorities c))
            in Ok (keys ! id))"

definition coinmaker_append ::
    "'z crypto_ext_scheme \<Rightarrow> PublicKeySet \<Rightarrow> Committee \<Rightarrow> RandomnessShare \<Rightarrow> CoinMaker \<Rightarrow>
     CoinMaker \<times> RandomCoin option ConsensusResult" where
  "coinmaker_append E pk_set c share m =
     (let author = rs_author share in
      if author |\<in>| cm_used m then (m, Err (AuthorityReuseinCoin author))
      else
        let m1 = m\<lparr>cm_used := finsert author (cm_used m),
                   cm_shares := cm_shares m @ [share],
                   cm_weight := cm_weight m + stake c author\<rparr>
        in (m1,
            if cm_weight m1 = random_coin_threshold c
            then rbind (collect_shares c (cm_shares m1) []) (\<lambda>sigs.
                   case tss_combine E pk_set (sort_key fst sigs) of
                     None \<Rightarrow> Ok None
                   | Some sig \<Rightarrow> rbind (coin_leader c sig) (\<lambda>leader.
                       Ok (Some \<lparr>rc_height = rs_height share, rc_epoch = rs_epoch share,
                                 rc_round = rs_round share, rc_leader = leader, rc_shares = cm_shares m1\<rparr>)))
            else Ok None))"

section \<open>The aggregator\<close>

record Aggregator =
  ag_committee :: Committee
  ag_hs :: "SeqNumber \<times> Digest \<rightharpoonup> QCMaker"
  ag_fallback :: "SeqNumber \<times> SeqNumber \<rightharpoonup> QCMaker"
  ag_spb :: "SeqNumber \<times> SeqNumber \<times> u8 \<rightharpoonup> ProofMaker"
  ag_pre :: "SeqNumber \<times> SeqNumber \<rightharpoonup> ProofMaker"
  ag_coin :: "SeqNumber \<times> SeqNumber \<rightharpoonup> CoinMaker"

definition aggregator_new :: "Committee \<Rightarrow> Aggregator" where
  "aggregator_new c = \<lparr>ag_committee = c, ag_hs = Map.empty, ag_fallback = Map.empty, ag_spb = Map.empty,
     ag_pre = Map.empty, ag_coin = Map.empty\<rparr>"

definition add_hs_vote :: "HVote \<Rightarrow> Aggregator \<Rightarrow> Aggregator \<times> QC option ConsensusResult" where
  "add_hs_vote vote a =
     (let k = (hv_height vote, hv_hash vote);
          (m, r) = qcmaker_append (ag_committee a) vote (entry_or (ag_hs a) k qcmaker_new)
      in (a\<lparr>ag_hs := (ag_hs a)(k \<mapsto> m)\<rparr>, r))"

definition add_fallback_vote :: "HVote \<Rightarrow> Aggregator \<Rightarrow> Aggregator \<times> QC option ConsensusResult" where
  "add_fallback_vote vote a =
     (let k = (hv_height vote, hv_round vote);
          (m, r) = qcmaker_append (ag_committee a) vote (entry_or (ag_fallback a) k qcmaker_new)
      in (a\<lparr>ag_fallback := (ag_fallback a)(k \<mapsto> m)\<rparr>, r))"

definition add_spb_vote :: "SPBVote \<Rightarrow> Aggregator \<Rightarrow> Aggregator \<times> SPBProof option ConsensusResult" where
  "add_spb_vote vote a =
     (let k = (sp_height vote, sp_round vote, sp_phase vote);
          (m, r) = proofmaker_append (ag_committee a) vote (entry_or (ag_spb a) k proofmaker_new)
      in (a\<lparr>ag_spb := (ag_spb a)(k \<mapsto> m)\<rparr>, r))"

definition add_pre_vote :: "SPBVote \<Rightarrow> Aggregator \<Rightarrow> Aggregator \<times> SPBProof option ConsensusResult" where
  "add_pre_vote vote a =
     (let k = (sp_height vote, sp_round vote);
          (m, r) = proofmaker_append (ag_committee a) vote (entry_or (ag_pre a) k proofmaker_new)
      in (a\<lparr>ag_pre := (ag_pre a)(k \<mapsto> m)\<rparr>, r))"

definition add_smvba_random ::
    "'z crypto_ext_scheme \<Rightarrow> PublicKeySet \<Rightarrow> RandomnessShare \<Rightarrow> Aggregator \<Rightarrow>
     Aggregator \<times> RandomCoin option ConsensusResult" where
  "add_smvba_random E pk_set share a =
     (let k = (rs_height share, rs_round share);
          (m, r) = coinmaker_append E pk_set (ag_committee a) share (entry_or (ag_coin a) k coinmaker_new)
      in (a\<lparr>ag_coin := (ag_coin a)(k \<mapsto> m)\<rparr>, r))"

definition cleanup_hs_vote :: "SeqNumber \<Rightarrow> Aggregator \<Rightarrow> Aggregator" where
  "cleanup_hs_vote height a = a\<lparr>ag_hs := retain (\<lambda>(k, _). height < k) (ag_hs a)\<rparr>"

definition cleanup_spb_vote :: "SeqNumber \<Rightarrow> Aggregator \<Rightarrow> Aggregator" where
  "cleanup_spb_vote height a =
     a\<lparr>ag_spb := retain (\<lambda>(h, _, _). height < h) (ag_spb a),
       ag_pre := retain (\<lambda>(h, _). height < h) (ag_pre a)\<rparr>"

definition cleanup_mvba_random :: "SeqNumber \<Rightarrow> Aggregator \<Rightarrow> Aggregator" where
  "cleanup_mvba_random height a = a\<lparr>ag_coin := retain (\<lambda>(h, _). height < h) (ag_coin a)\<rparr>"

section \<open>The contract of a quorum maker\<close>

text \<open>
  Feeding a maker with votes, in the order they arrive, and collecting what it emits; a vote that
  is refused leaves the maker as it is for the next.
\<close>

fun feed :: "('v \<Rightarrow> 'm \<Rightarrow> 'm \<times> ('e, 'r option) result) \<Rightarrow> 'v list \<Rightarrow> 'm \<Rightarrow> 'm \<times> 'r list" where
  "feed app [] m = (m, [])"
| "feed app (v # vs) m =
     (case app v m of
        (m', Ok (Some r)) \<Rightarrow> (case feed app vs m' of (m'', rs) \<Rightarrow> (m'', r # rs))
      | (m', _) \<Rightarrow> feed app vs m')"

text \<open>No overflow when one more member is added to the weight of others.\<close>

lemma stake_sum_bounded:
  assumes "wf_committee c" and "finite A"
  shows "(\<Sum>k \<in> A. unat (stake c k)) \<le> total_stake c"
proof -
  have "(\<Sum>k \<in> A. unat (stake c k)) = (\<Sum>k \<in> A \<inter> set (committee_names c). unat (stake c k))"
    using assms(2) by (intro sum.mono_neutral_right) (auto simp: stake_not_member)
  also have "\<dots> \<le> total_stake c" unfolding total_stake_names [OF assms(1)] by (rule sum_mono2) auto
  finally show ?thesis .
qed

lemma unat_weight_add:
  assumes "wf_committee c" and "finite A" and "a \<notin> A" and "unat w = (\<Sum>k \<in> A. unat (stake c k))"
  shows "unat (w + stake c a) = (\<Sum>k \<in> insert a A. unat (stake c k))"
proof -
  have "(\<Sum>k \<in> insert a A. unat (stake c k)) \<le> total_stake c"
    using assms(1,2) by (intro stake_sum_bounded) simp_all
  also have "\<dots> < 2 ^ 32" using assms(1) by (simp add: wf_committee_def)
  finally have "unat w + unat (stake c a) < 2 ^ LENGTH(32)"
    using assms(2-4) by simp
  then show ?thesis using assms(2-4) by (simp add: unat_word_ariths)
qed

locale quorum_maker =
  fixes app :: "Committee \<Rightarrow> 'v \<Rightarrow> 'm \<Rightarrow> 'm \<times> 'r option ConsensusResult"
    and author :: "'v \<Rightarrow> PublicKey"
    and used :: "'m \<Rightarrow> PublicKey fset"
    and weight :: "'m \<Rightarrow> Stake"
    and fresh :: "'m"
  assumes fresh_used: "used fresh = {||}"
    and fresh_weight: "weight fresh = 0"
    and reuse_refused: "author v |\<in>| used m \<Longrightarrow> \<exists>e. app c v m = (m, Err e)"
    and counts: "author v |\<notin>| used m \<Longrightarrow> \<not> quorum_threshold c \<le> weight m + stake c (author v) \<Longrightarrow>
        \<exists>m'. app c v m = (m', Ok None) \<and> used m' = finsert (author v) (used m) \<and>
             weight m' = weight m + stake c (author v)"
    and emits: "author v |\<notin>| used m \<Longrightarrow> quorum_threshold c \<le> weight m + stake c (author v) \<Longrightarrow>
        \<exists>m' r. app c v m = (m', Ok (Some r)) \<and> used m' = finsert (author v) (used m) \<and> weight m' = 0"
begin

text \<open>
  The invariant of a run: before the first emission the weight is that of all voters; after it,
  that of the voters who came later, while those counted for the emission have a quorum.
\<close>

definition counted :: "Committee \<Rightarrow> 'm \<Rightarrow> nat \<Rightarrow> bool" where
  "counted c m n \<longleftrightarrow> (\<exists>C. C \<subseteq> fset (used m) \<and>
     unat (weight m) = (\<Sum>k \<in> fset (used m) - C. unat (stake c k)) \<and>
     (n = 0 \<and> C = {} \<and> \<not> has_quorum c (fset (used m)) \<or> n = 1 \<and> has_quorum c C))"

lemma quorum_positive: "wf_committee c \<Longrightarrow> \<not> has_quorum c {}"
  by (simp add: has_quorum_def unat_quorum_threshold)

lemma counted_fresh: "wf_committee c \<Longrightarrow> counted c fresh 0"
  by (simp add: counted_def fresh_used fresh_weight quorum_positive)

lemma counted_step:
  assumes bft: "bft_committee c" and inv: "counted c m n"
  shows "\<exists>m' r. app c v m = (m', r) \<and> fset (used m') = insert (author v) (fset (used m)) \<and>
    (case r of Ok (Some _) \<Rightarrow> n = 0 \<and> counted c m' 1 | _ \<Rightarrow> counted c m' n)"
proof (cases "author v |\<in>| used m")
  case True
  with reuse_refused [OF this, of c] inv show ?thesis by (auto simp: insert_absorb)
next
  case False
  let ?U = "fset (used m)" and ?a = "author v"
  obtain C where C: "C \<subseteq> ?U" "unat (weight m) = (\<Sum>k \<in> ?U - C. unat (stake c k))"
    and n: "n = 0 \<and> C = {} \<and> \<not> has_quorum c ?U \<or> n = 1 \<and> has_quorum c C"
    using inv by (auto simp: counted_def)
  have wf: "wf_committee c" using bft by (simp add: bft_committee_def)
  have aC: "insert ?a ?U - C = insert ?a (?U - C)" using False C(1) by auto
  have w: "unat (weight m + stake c ?a) = (\<Sum>k \<in> insert ?a ?U - C. unat (stake c k))"
    unfolding aC using False C by (intro unat_weight_add [OF wf]) auto
  have q: "quorum_threshold c \<le> weight m + stake c ?a \<longleftrightarrow> has_quorum c (insert ?a ?U - C)"
    by (simp add: word_le_nat_alt has_quorum_def w)
  show ?thesis
  proof (cases "has_quorum c (insert ?a ?U - C)")
    case True
    have "\<not> has_quorum c C"
    proof
      assume "has_quorum c C"
      then have "(\<Sum>k \<in> insert ?a ?U - C. unat (stake c k)) < unat (quorum_threshold c)"
        using finite_subset [OF C(1) finite_fset]
        by (intro cq.rest_no_quorum [OF bft, of C]) (auto simp: has_quorum_def)
      with True show False by (simp add: has_quorum_def)
    qed
    with n have n0: "n = 0" "C = {}" by auto
    obtain m' r where "app c v m = (m', Ok (Some r))" "used m' = finsert ?a (used m)" "weight m' = 0"
      using emits [OF False] True q by blast
    with n0 True show ?thesis by (auto simp: counted_def)
  next
    case no: False
    then obtain m' where m': "app c v m = (m', Ok None)" "used m' = finsert ?a (used m)"
        "weight m' = weight m + stake c ?a"
      using counts [OF False] q by blast
    have "counted c m' n"
      using C(1) n no w m'(2,3) unfolding counted_def by (intro exI [of _ C]) auto
    with m' show ?thesis by auto
  qed
qed

lemma emission_has_quorum:
  assumes "bft_committee c" and "counted c m n" and "app c v m = (m', Ok (Some r))"
  shows "n = 0" and "counted c m' 1" and "has_quorum c (fset (used m'))"
proof -
  from counted_step [OF assms(1,2), of v] assms(3)
  show "n = 0" and one: "counted c m' 1" by auto
  from one obtain C where "C \<subseteq> fset (used m')" "has_quorum c C" by (auto simp: counted_def)
  then show "has_quorum c (fset (used m'))"
    unfolding has_quorum_def by (meson finite_fset le_trans sum_mono2 zero_le)
qed

lemma no_emission_counted:
  assumes "bft_committee c" and "counted c m n" and "app c v m = (m', r)" and "\<nexists>x. r = Ok (Some x)"
  shows "counted c m' n"
  using counted_step [OF assms(1,2), of v] assms(3,4) by (auto split: result.splits option.splits)

lemma counted_append:
  assumes "bft_committee c" and "counted c m n"
  shows "\<exists>n. counted c (fst (app c v m)) n"
proof (cases "app c v m")
  case (Pair m' r)
  then show ?thesis
    using emission_has_quorum(2) [OF assms, of v m'] no_emission_counted [OF assms Pair] by fastforce
qed

lemma feed_counted:
  assumes "bft_committee c" and "counted c m n"
  shows "fset (used (fst (feed (app c) vs m))) = fset (used m) \<union> author ` set vs \<and>
     counted c (fst (feed (app c) vs m)) (n + length (snd (feed (app c) vs m)))"
  using assms(2)
proof (induction vs arbitrary: m n)
  case Nil
  then show ?case by simp
next
  case (Cons v vs)
  from counted_step [OF assms(1) Cons.prems, of v] obtain m' r
    where step: "app c v m = (m', r)" "fset (used m') = insert (author v) (fset (used m))"
    and inv: "case r of Ok (Some _) \<Rightarrow> n = 0 \<and> counted c m' 1 | _ \<Rightarrow> counted c m' n" by blast
  show ?case
  proof (cases "\<exists>x. r = Ok (Some x)")
    case True
    then obtain x where x: "r = Ok (Some x)" ..
    with inv have "n = 0" "counted c m' 1" by simp_all
    with Cons.IH [of m' 1] x step show ?thesis by (auto split: prod.splits)
  next
    case False
    then have "counted c m' n" using inv by (auto split: result.splits option.splits)
    moreover have "feed (app c) (v # vs) m = feed (app c) vs m'"
      using step False by (auto split: result.splits option.splits)
    ultimately show ?thesis using Cons.IH [of m' n] step by auto
  qed
qed

text \<open>
  The contract: whatever votes arrive, in whatever order and however often, something is emitted
  exactly when the voters have a quorum, and then once.
\<close>

lemma feed_emits_once:
  assumes "bft_committee c"
  shows "length (snd (feed (app c) vs fresh)) = (if has_quorum c (author ` set vs) then 1 else 0)"
proof -
  have wf: "wf_committee c" using assms by (simp add: bft_committee_def)
  from feed_counted [OF assms counted_fresh [OF wf], of vs]
  have U: "fset (used (fst (feed (app c) vs fresh))) = author ` set vs"
    and inv: "counted c (fst (feed (app c) vs fresh)) (length (snd (feed (app c) vs fresh)))"
    by (auto simp: fresh_used)
  have mono: "has_quorum c A \<Longrightarrow> A \<subseteq> author ` set vs \<Longrightarrow> has_quorum c (author ` set vs)" for A
    unfolding has_quorum_def
    by (meson List.finite_set finite_imageI le_trans sum_mono2 zero_le)
  from inv U mono show ?thesis by (auto simp: counted_def)
qed

lemma feed_used: "bft_committee c \<Longrightarrow> fset (used (fst (feed (app c) vs fresh))) = author ` set vs"
  using feed_counted [OF _ counted_fresh, of c vs] by (auto simp: bft_committee_def fresh_used)

end

interpretation qm: quorum_maker qcmaker_append hv_author qm_used qm_weight qcmaker_new
  by unfold_locales (auto simp: qcmaker_append_def qcmaker_new_def Let_def)

interpretation pm: quorum_maker proofmaker_append sp_author pm_used pm_weight proofmaker_new
  by unfold_locales (auto simp: proofmaker_append_def proofmaker_new_def Let_def)

section \<open>Certificates made of votes\<close>

text \<open>
  What a maker has stored comes from the votes it was given, one entry per voter.
\<close>

definition vote_entry :: "HVote \<Rightarrow> PublicKey \<times> Signature" where
  "vote_entry v = (hv_author v, hv_signature v)"

definition votes_from :: "HVote set \<Rightarrow> (PublicKey \<times> Signature) list \<Rightarrow> bool" where
  "votes_from V es \<longleftrightarrow> distinct (map fst es) \<and> set es \<subseteq> vote_entry ` V"

definition maker_from :: "HVote set \<Rightarrow> QCMaker \<Rightarrow> bool" where
  "maker_from V m \<longleftrightarrow> votes_from V (qm_votes m) \<and> fset (qm_used m) = set (map fst (qm_votes m))"

definition qc_of_vote :: "HVote \<Rightarrow> (PublicKey \<times> Signature) list \<Rightarrow> QC" where
  "qc_of_vote v es = \<lparr>qc_hash = hv_hash v, qc_height = hv_height v, qc_epoch = hv_epoch v,
     qc_round = hv_round v, qc_tag = hv_tag v, qc_proposer = hv_proposer v,
     qc_acceptor = hv_proposer v, qc_votes = es\<rparr>"

lemma qc_digest_of_vote: "qc_digest E (qc_of_vote v es) = hvote_digest E v"
  by (simp add: qc_digest_def qc_of_vote_def hvote_digest_def)

lemma qc_votes_of_vote [simp]: "qc_votes (qc_of_vote v es) = es"
  by (simp add: qc_of_vote_def)

lemma qcmaker_append_from:
  assumes "maker_from V m" and "v \<in> V" and "qcmaker_append c v m = (m', r)"
  shows "maker_from V m' \<and> (\<forall>qc. r = Ok (Some qc) \<longrightarrow> qc = qc_of_vote v (qm_votes m'))"
proof (cases "hv_author v |\<in>| qm_used m")
  case True
  with assms show ?thesis by (auto simp: qcmaker_append_def)
next
  case False
  then have m': "qm_votes m' = qm_votes m @ [vote_entry v]" "qm_used m' = finsert (hv_author v) (qm_used m)"
    and r: "\<forall>qc. r = Ok (Some qc) \<longrightarrow> qc = qc_of_vote v (qm_votes m')"
    using assms(3)
    by (auto simp: qcmaker_append_def Let_def vote_entry_def qc_of_vote_def split: if_splits)
  have "hv_author v \<notin> set (map fst (qm_votes m))"
    using False assms(1) by (simp add: maker_from_def)
  with m' r assms(1,2) show ?thesis
    by (simp add: maker_from_def votes_from_def vote_entry_def)
qed

lemma feed_qc_from:
  assumes "bft_committee c" and "qm.counted c m n" and "maker_from V m" and "set vs \<subseteq> V"
    and "qc \<in> set (snd (feed (qcmaker_append c) vs m))"
  shows "\<exists>v \<in> V. \<exists>es. qc = qc_of_vote v es \<and> votes_from V es \<and> has_quorum c (set (map fst es))"
  using assms(2-5)
proof (induction vs arbitrary: m n)
  case Nil
  then show ?case by simp
next
  case (Cons v vs)
  obtain m' r where app: "qcmaker_append c v m = (m', r)" by fastforce
  have v: "v \<in> V" and vs: "set vs \<subseteq> V" using Cons.prems(3) by auto
  note from' = qcmaker_append_from [OF Cons.prems(2) v app]
  show ?case
  proof (cases "\<exists>x. r = Ok (Some x)")
    case True
    then obtain x where x: "r = Ok (Some x)" ..
    note em = qm.emission_has_quorum [OF assms(1) Cons.prems(1) app [unfolded x]]
    have "qc = x \<or> qc \<in> set (snd (feed (qcmaker_append c) vs m'))"
      using Cons.prems(4) app x by (auto split: prod.splits)
    then show ?thesis
    proof
      assume "qc = x"
      with from' x em(3) v show ?thesis
        by (auto simp: maker_from_def intro!: bexI [of _ v] exI [of _ "qm_votes m'"])
    next
      assume "qc \<in> set (snd (feed (qcmaker_append c) vs m'))"
      with Cons.IH [OF em(2) _ vs] from' show ?thesis by blast
    qed
  next
    case False
    then have "feed (qcmaker_append c) (v # vs) m = feed (qcmaker_append c) vs m'"
      using app by (auto split: result.splits option.splits)
    with Cons.IH [OF qm.no_emission_counted [OF assms(1) Cons.prems(1) app False] _ vs] from' Cons.prems(4)
    show ?thesis by auto
  qed
qed

text \<open>
  ed25519-dalek accepts a batch whose signatures all verify one by one.
\<close>

definition batch_complete :: "'z crypto_ext_scheme \<Rightarrow> bool" where
  "batch_complete E \<longleftrightarrow> (\<forall>ms ss ks. length ss = length ms \<longrightarrow> length ks = length ms \<longrightarrow>
     (\<forall>i < length ms. ed_verify_strict E (ks ! i) (ms ! i) (ss ! i)) \<longrightarrow> ed_verify_batch E ms ss ks)"

lemma verify_batch_complete:
  assumes "batch_complete E" and "\<And>k s. (k, s) \<in> set votes \<Longrightarrow> signature_verify E s d k = Ok ()"
  shows "signature_verify_batch E d votes = Ok ()"
proof -
  have sig: "signature_verify E (snd (votes ! i)) d (fst (votes ! i)) = Ok ()" if "i < length votes" for i
    using that nth_mem [OF that] by (intro assms(2)) simp
  have "ed_verify_batch E (replicate (length votes) (digest_bytes d))
      (map (signature_flatten \<circ> snd) votes) (map (key_bytes \<circ> fst) votes)"
    using assms(1) sig by (simp add: batch_complete_def signature_verify_Ok)
  moreover have "\<forall>(k, s) \<in> set votes. ed_signature_from_bytes E (signature_flatten s) \<and> ed_public_from_bytes E (key_bytes k)"
    using assms(2) by (auto simp: signature_verify_Ok)
  ultimately show ?thesis by (simp add: verify_batch_Ok)
qed

lemma maker_from_new [simp]: "maker_from V qcmaker_new"
  by (simp add: maker_from_def votes_from_def qcmaker_new_def)

lemma feed_new_qc:
  assumes "bft_committee c" and "qc \<in> set (snd (feed (qcmaker_append c) vs qcmaker_new))"
  obtains v es where "v \<in> set vs" and "qc = qc_of_vote v es" and "votes_from (set vs) es"
    and "has_quorum c (set (map fst es))"
proof -
  have "qm.counted c qcmaker_new 0"
    using assms(1) by (intro qm.counted_fresh) (simp add: bft_committee_def)
  from feed_qc_from [OF assms(1) this maker_from_new subset_refl assms(2)] that show ?thesis by blast
qed

section \<open>The aggregator keeps one maker per key\<close>

lemma add_hs_vote_entry:
  "entry_or (ag_hs (fst (add_hs_vote v a))) k qcmaker_new =
     (if k = (hv_height v, hv_hash v)
      then fst (qcmaker_append (ag_committee a) v (entry_or (ag_hs a) k qcmaker_new))
      else entry_or (ag_hs a) k qcmaker_new)"
  by (auto simp: add_hs_vote_def Let_def entry_or_def split: prod.splits)

lemma add_hs_vote_result:
  "snd (add_hs_vote v a) =
     snd (qcmaker_append (ag_committee a) v (entry_or (ag_hs a) (hv_height v, hv_hash v) qcmaker_new))"
  by (simp add: add_hs_vote_def Let_def split: prod.splits)

lemma ag_committee_ops [simp]:
  "ag_committee (fst (add_hs_vote v a)) = ag_committee a"
  "ag_committee (fst (add_fallback_vote v a)) = ag_committee a"
  "ag_committee (fst (add_spb_vote w a)) = ag_committee a"
  "ag_committee (fst (add_pre_vote w a)) = ag_committee a"
  "ag_committee (fst (add_smvba_random E pk sh a)) = ag_committee a"
  "ag_committee (cleanup_hs_vote h a) = ag_committee a"
  "ag_committee (cleanup_spb_vote h a) = ag_committee a"
  "ag_committee (cleanup_mvba_random h a) = ag_committee a"
  by (simp_all add: add_hs_vote_def add_fallback_vote_def add_spb_vote_def add_pre_vote_def
      add_smvba_random_def cleanup_hs_vote_def cleanup_spb_vote_def cleanup_mvba_random_def Let_def
      split: prod.splits)

text \<open>
  Votes for all heights and blocks interleaved: each key sees the votes that are for it, in order,
  as if its maker were alone.
\<close>

lemma feed_add_hs_vote:
  "entry_or (ag_hs (fst (feed add_hs_vote vs a))) k qcmaker_new =
   fst (feed (qcmaker_append (ag_committee a)) (filter (\<lambda>v. (hv_height v, hv_hash v) = k) vs)
          (entry_or (ag_hs a) k qcmaker_new))"
proof (induction vs arbitrary: a)
  case Nil
  then show ?case by simp
next
  case (Cons v vs)
  obtain a' r where a': "add_hs_vote v a = (a', r)" by fastforce
  have "fst (feed add_hs_vote (v # vs) a) = fst (feed add_hs_vote vs a')"
    using a' by (auto split: prod.splits result.splits option.splits)
  moreover have "ag_committee a' = ag_committee a"
    using ag_committee_ops(1) [of v a] a' by simp
  ultimately show ?case
    using Cons.IH [of a'] add_hs_vote_entry [of v a k] a'
    by (auto split: prod.splits result.splits option.splits)
qed

section \<open>The random coin\<close>

lemma coin_leader_member:
  assumes "coin_leader c sig = Ok k"
  shows "k \<in> set (committee_names c)"
proof -
  have "0 < committee_size c" and k: "k = sort (map fst (authorities c)) ! (unat (usize_from_be_bytes (take 8 sig)) mod committee_size c)"
    using assms by (auto simp: coin_leader_def slice_to_def Let_def split: if_splits)
  then have "unat (usize_from_be_bytes (take 8 sig)) mod committee_size c < length (sort (map fst (authorities c)))"
    by (simp add: committee_size_def)
  then have "k \<in> set (sort (map fst (authorities c)))" unfolding k by (rule nth_mem)
  then show ?thesis by (simp add: committee_names_def)
qed

lemma collect_shares_no_Panic:
  assumes "\<forall>s \<in> set shares. rs_author s \<in> set (committee_names c)"
  shows "\<exists>sigs'. collect_shares c shares sigs = Ok sigs'"
  using assms
proof (induction shares arbitrary: sigs)
  case Nil
  then show ?case by simp
next
  case (Cons s shares)
  then obtain a where "map_of (authorities c) (rs_author s) = Some a"
    by (auto simp: committee_names_def) (metis map_of_eq_None_iff option.exhaust image_eqI fst_conv)
  with Cons show ?case by (simp add: committee_id_def)
qed

end
