(* ===== verification/Store.thy ===== *)
theory Store
  imports Errors
begin

text \<open>
  The storage actor (\<open>store/src/lib.rs\<close>) and the in-memory table (\<open>store/src/default_db.rs\<close>). RocksDB
  is not part of the repository: what it answers is a function \<open>db_get\<close> of the puts it
  was given (newest first) and of the key. \<open>rocksdb_ok\<close> is its documented behaviour, a
  get returns the value of the last put. The actor's queue of commands is a list; a reply channel is a number.
\<close>

record store_ext = crypto_ext +
  db_get :: "(bytes \<times> bytes) list \<Rightarrow> bytes \<Rightarrow> (StoreError, bytes option) result"

definition rocksdb_ok :: "'z store_ext_scheme \<Rightarrow> bool" where
  "rocksdb_ok E \<longleftrightarrow> (\<forall>puts k. db_get E puts k = Ok (map_of puts k))"

section \<open>The storage actor\<close>

datatype StoreCommand =
    SWrite bytes bytes
  | SRead bytes nat
  | SNotifyRead bytes nat

datatype StoreReply =
    ReadReply nat "(StoreError, bytes option) result"
  | NotifyReply nat "(StoreError, bytes) result"

record Store =
  st_db :: "(bytes \<times> bytes) list"
  st_obligations :: "bytes \<rightharpoonup> nat list"

definition store_new :: Store where
  "store_new = \<lparr>st_db = [], st_obligations = Map.empty\<rparr>"

fun store_step :: "'z store_ext_scheme \<Rightarrow> StoreCommand \<Rightarrow> Store \<Rightarrow> Store \<times> StoreReply list" where
  "store_step E (SWrite key value) st =
     (let st1 = st\<lparr>st_db := (key, value) # st_db st\<rparr>
      in case st_obligations st1 key of
           None \<Rightarrow> (st1, [])
         | Some senders \<Rightarrow> (st1\<lparr>st_obligations := (st_obligations st1)(key := None)\<rparr>,
                           map (\<lambda>s. NotifyReply s (Ok value)) senders))"
| "store_step E (SRead key sender) st = (st, [ReadReply sender (db_get E (st_db st) key)])"
| "store_step E (SNotifyRead key sender) st =
     (case db_get E (st_db st) key of
        Ok None \<Rightarrow> (st\<lparr>st_obligations :=
            (st_obligations st)(key \<mapsto> entry_or (st_obligations st) key [] @ [sender])\<rparr>, [])
      | response \<Rightarrow> (st, [NotifyReply sender (rbind response unwrap)]))"

fun store_run :: "'z store_ext_scheme \<Rightarrow> StoreCommand list \<Rightarrow> Store \<Rightarrow> Store \<times> StoreReply list" where
  "store_run E [] st = (st, [])"
| "store_run E (cmd # cmds) st =
     (let (st1, rs) = store_step E cmd st; (st2, rs') = store_run E cmds st1 in (st2, rs @ rs'))"

text \<open>
  \<open>Store::write\<close> and \<open>Store::read\<close> as their callers see them: a command is sent and, for a
  read, its reply awaited.
\<close>

definition store_write :: "'z store_ext_scheme \<Rightarrow> bytes \<Rightarrow> bytes \<Rightarrow> Store \<Rightarrow> Store" where
  "store_write E key value st = fst (store_step E (SWrite key value) st)"

definition store_read :: "'z store_ext_scheme \<Rightarrow> Store \<Rightarrow> bytes \<Rightarrow> (StoreError, bytes option) result" where
  "store_read E st key = db_get E (st_db st) key"

lemma store_write_db [simp]: "st_db (store_write E key value st) = (key, value) # st_db st"
  by (simp add: store_write_def Let_def split: option.splits)

lemma store_read_write:
  "rocksdb_ok E \<Longrightarrow>
     store_read E (store_write E key value st) k = (if k = key then Ok (Some value) else store_read E st k)"
  by (simp add: store_read_def rocksdb_ok_def)

section \<open>Obligations\<close>

text \<open>No reader waits for a key the database has.\<close>

definition store_inv :: "Store \<Rightarrow> bool" where
  "store_inv st \<longleftrightarrow> (\<forall>key senders. st_obligations st key = Some senders \<longrightarrow> map_of (st_db st) key = None)"

lemma store_inv_new: "store_inv store_new"
  by (simp add: store_inv_def store_new_def)

lemma store_step_inv:
  assumes "rocksdb_ok E" and "store_inv st"
  shows "store_inv (fst (store_step E cmd st))"
proof (cases cmd)
  case (SWrite key val)
  with assms(2) show ?thesis
    by (auto simp: store_inv_def Let_def split: option.splits)
next
  case (SRead key sender)
  with assms(2) show ?thesis by simp
next
  case (SNotifyRead key sender)
  with assms show ?thesis
    by (auto simp: store_inv_def rocksdb_ok_def split: option.splits)
qed

text \<open>The answers a reply channel gets, and the first value written under a key.\<close>

fun notify_replies :: "nat \<Rightarrow> StoreReply list \<Rightarrow> (StoreError, bytes) result list" where
  "notify_replies s [] = []"
| "notify_replies s (NotifyReply s' r # rs) = (if s' = s then r # notify_replies s rs else notify_replies s rs)"
| "notify_replies s (ReadReply s' r # rs) = notify_replies s rs"

fun first_write :: "bytes \<Rightarrow> StoreCommand list \<Rightarrow> bytes option" where
  "first_write key [] = None"
| "first_write key (SWrite k v # cmds) = (if k = key then Some v else first_write key cmds)"
| "first_write key (_ # cmds) = first_write key cmds"

fun notify_sender :: "StoreCommand \<Rightarrow> nat option" where
  "notify_sender (SNotifyRead key s) = Some s"
| "notify_sender _ = None"

definition waits :: "nat \<Rightarrow> Store \<Rightarrow> bytes set" where
  "waits s st = {key. \<exists>senders. st_obligations st key = Some senders \<and> s \<in> set senders}"

lemma notify_replies_append: "notify_replies s (rs @ rs') = notify_replies s rs @ notify_replies s rs'"
  by (induction s rs rule: notify_replies.induct) auto

lemma notify_replies_map:
  "notify_replies s (map (\<lambda>x. NotifyReply x r) xs) = replicate (count_list xs s) r"
  by (induction xs) auto

lemma not_waiting_count:
  assumes "k \<notin> waits s st"
  shows "count_list (entry_or (st_obligations st) k []) s = 0"
proof (cases "st_obligations st k")
  case None
  then show ?thesis by simp
next
  case (Some senders)
  with assms show ?thesis by (simp add: waits_def count_list_0_iff)
qed

lemma waits_step:
  assumes "notify_sender cmd \<noteq> Some s"
  shows "waits s (fst (store_step E cmd st)) = waits s st - (case cmd of SWrite k v \<Rightarrow> {k} | _ \<Rightarrow> {})"
proof (cases cmd)
  case (SWrite key val)
  then show ?thesis by (auto simp: waits_def Let_def split: option.splits if_splits)
next
  case (SRead key sender)
  then show ?thesis by simp
next
  case (SNotifyRead key sender)
  with assms show ?thesis
    by (auto simp: waits_def entry_or_def split: option.splits result.splits if_splits)
qed

lemma replies_step:
  assumes "notify_sender cmd \<noteq> Some s"
  shows "notify_replies s (snd (store_step E cmd st)) =
    (case cmd of SWrite k v \<Rightarrow> replicate (count_list (entry_or (st_obligations st) k []) s) (Ok v) | _ \<Rightarrow> [])"
  using assms
  by (cases cmd) (auto simp: Let_def notify_replies_map split: option.splits result.splits)

lemma obligation_step:
  assumes "notify_sender cmd \<noteq> Some s" and "\<nexists>v. cmd = SWrite key v"
  shows "count_list (entry_or (st_obligations (fst (store_step E cmd st))) key []) s =
      count_list (entry_or (st_obligations st) key []) s \<and>
    map_of (st_db (fst (store_step E cmd st))) key = map_of (st_db st) key"
  using assms
  by (cases cmd) (auto simp: Let_def entry_or_def split: option.splits result.splits)

lemma store_run_Cons:
  "notify_replies s (snd (store_run E (cmd # cmds) st)) =
     notify_replies s (snd (store_step E cmd st)) @
     notify_replies s (snd (store_run E cmds (fst (store_step E cmd st))))"
  by (simp add: notify_replies_append split: prod.splits)

lemma not_waiting_no_reply:
  assumes "waits s st = {}" and "\<forall>cmd \<in> set cmds. notify_sender cmd \<noteq> Some s"
  shows "notify_replies s (snd (store_run E cmds st)) = []"
  using assms
proof (induction cmds arbitrary: st)
  case Nil
  then show ?case by simp
next
  case (Cons cmd cmds)
  have c: "notify_sender cmd \<noteq> Some s" using Cons.prems(2) by simp
  have "count_list (entry_or (st_obligations st) k []) s = 0" for k
    using Cons.prems(1) by (intro not_waiting_count) simp
  then have "notify_replies s (snd (store_step E cmd st)) = []"
    unfolding replies_step [OF c] by (auto split: StoreCommand.splits)
  moreover have "waits s (fst (store_step E cmd st)) = {}"
    using Cons.prems(1) by (simp add: waits_step [OF c])
  ultimately show ?case
    unfolding store_run_Cons using Cons by simp
qed

text \<open>
  A waiting reader is answered once, with the first value written under its key from then on.
\<close>

lemma waiting_gets_first_write:
  assumes "count_list (entry_or (st_obligations st) key []) s = 1" and "waits s st = {key}"
    and "\<forall>cmd \<in> set cmds. notify_sender cmd \<noteq> Some s"
  shows "notify_replies s (snd (store_run E cmds st)) =
    (case first_write key cmds of None \<Rightarrow> [] | Some v \<Rightarrow> [Ok v])"
  using assms
proof (induction cmds arbitrary: st)
  case Nil
  then show ?case by simp
next
  case (Cons cmd cmds)
  have c: "notify_sender cmd \<noteq> Some s" and cmds: "\<forall>c \<in> set cmds. notify_sender c \<noteq> Some s"
    using Cons.prems(3) by auto
  show ?case
  proof (cases "\<exists>v. cmd = SWrite key v")
    case True
    then obtain v where v: "cmd = SWrite key v" ..
    have "waits s (fst (store_step E cmd st)) = {}"
      unfolding waits_step [OF c] by (simp add: v Cons.prems(2))
    from not_waiting_no_reply [OF this cmds] show ?thesis
      unfolding store_run_Cons replies_step [OF c] by (simp add: v Cons.prems(1))
  next
    case False
    have other: "k \<noteq> key \<Longrightarrow> count_list (entry_or (st_obligations st) k []) s = 0" for k
      using Cons.prems(2) by (intro not_waiting_count) simp
    have "notify_replies s (snd (store_step E cmd st)) = []"
      unfolding replies_step [OF c] using False other by (auto split: StoreCommand.splits)
    moreover have "waits s (fst (store_step E cmd st)) = {key}"
      unfolding waits_step [OF c] using False Cons.prems(2) by (auto split: StoreCommand.splits)
    moreover have "first_write key (cmd # cmds) = first_write key cmds"
      using False by (cases cmd) auto
    ultimately show ?thesis
      unfolding store_run_Cons using obligation_step [OF c False, of E st] Cons.IH Cons.prems(1) cmds by simp
  qed
qed

lemma notify_read_answer:
  assumes "rocksdb_ok E" and "waits s st = {}"
    and "\<forall>cmd \<in> set cmds. notify_sender cmd \<noteq> Some s"
  shows "notify_replies s (snd (store_run E (SNotifyRead key s # cmds) st)) =
    (case map_of (st_db st) key of
       Some v \<Rightarrow> [Ok v]
     | None \<Rightarrow> (case first_write key cmds of None \<Rightarrow> [] | Some v \<Rightarrow> [Ok v]))"
proof (cases "map_of (st_db st) key")
  case None
  let ?st = "fst (store_step E (SNotifyRead key s) st)"
  have "count_list (entry_or (st_obligations st) key []) s = 0"
    using assms(2) by (intro not_waiting_count) simp
  then have 1: "count_list (entry_or (st_obligations ?st) key []) s = 1"
    using assms(1) None by (simp add: rocksdb_ok_def entry_or_def)
  have 2: "waits s ?st = {key}"
    using assms(1,2) None by (auto simp: rocksdb_ok_def waits_def split: if_splits)
  have 3: "snd (store_step E (SNotifyRead key s) st) = []"
    using assms(1) None by (simp add: rocksdb_ok_def)
  show ?thesis
    unfolding store_run_Cons using waiting_gets_first_write [OF 1 2 assms(3), of E] None 3 by simp
next
  case (Some v)
  then have "store_step E (SNotifyRead key s) st = (st, [NotifyReply s (Ok v)])"
    using assms(1) by (simp add: rocksdb_ok_def)
  then show ?thesis
    unfolding store_run_Cons using not_waiting_no_reply [OF assms(2,3), of E] Some by simp
qed

end
