(* ===== verification/Payload_Maker.thy ===== *)
theory Payload_Maker
  imports Store Message_Props
begin

text \<open>
  Payloads of client transactions (\<open>mempool/src/messages.rs\<close>) and the task that gathers
  transactions into payloads (\<open>mempool/src/payload.rs\<close>). Also here, because it mentions
  payloads and blocks: the record \<open>node_ext\<close> of the remaining external functions,
  which are bincode, the capacity a \<open>HashSet\<close> reports after an operation (\<open>cap_with\<close> for \<open>with_capacity\<close>,
  \<open>cap_insert\<close> and \<open>cap_remove\<close>, given the element, the set and the capacity before) and the
  iteration order of hash tables, both of which the standard library leaves open.
\<close>

type_synonym Transaction = bytes

record Payload =
  pl_transactions :: "Transaction list"
  pl_author :: PublicKey
  pl_signature :: Signature

record node_ext = store_ext +
  ser_block :: "Block \<Rightarrow> bytes"
  de_block :: "bytes \<Rightarrow> Block option"
  ser_payload :: "Payload \<Rightarrow> bytes"
  de_payload :: "bytes \<Rightarrow> Payload option"
  cap_with :: "nat \<Rightarrow> nat"
  cap_insert :: "Digest \<Rightarrow> Digest fset \<Rightarrow> nat \<Rightarrow> nat"
  cap_remove :: "Digest \<Rightarrow> Digest fset \<Rightarrow> nat \<Rightarrow> nat"
  iter_digests :: "Digest fset \<Rightarrow> Digest list"
  iter_sigs :: "(PublicKey \<times> Signature) list \<Rightarrow> (PublicKey \<times> Signature) list"

text \<open>bincode restores what it wrote; the capacity of a table is at least what was asked for
  and at least the number of its elements; an iteration visits every element once.\<close>

definition bincode_ok :: "'z node_ext_scheme \<Rightarrow> bool" where
  "bincode_ok E \<longleftrightarrow> (\<forall>b. de_block E (ser_block E b) = Some b) \<and> (\<forall>p. de_payload E (ser_payload E p) = Some p)"

definition hash_tables_ok :: "'z node_ext_scheme \<Rightarrow> bool" where
  "hash_tables_ok E \<longleftrightarrow> (\<forall>n. n \<le> cap_with E n) \<and>
     (\<forall>x S c. fcard (finsert x S) \<le> cap_insert E x S c) \<and>
     (\<forall>x S c. fcard (S |-| {|x|}) \<le> cap_remove E x S c) \<and>
     (\<forall>S. distinct (iter_digests E S) \<and> set (iter_digests E S) = fset S) \<and>
     (\<forall>m. distinct (map fst m) \<longrightarrow> set (iter_sigs E m) = set m \<and> distinct (map fst (iter_sigs E m)))"

section \<open>Payloads\<close>

definition payload_digest :: "'z crypto_ext_scheme \<Rightarrow> Payload \<Rightarrow> Digest" where
  "payload_digest E p = hash32 E (key_bytes (pl_author p) @ concat (pl_transactions p))"

definition payload_new ::
    "'z crypto_ext_scheme \<Rightarrow> SignatureService \<Rightarrow> Transaction list \<Rightarrow> PublicKey \<Rightarrow> Payload MempoolResult" where
  "payload_new E svc txs author =
     (let p = \<lparr>pl_transactions = txs, pl_author = author, pl_signature = signature_default\<rparr>
      in rbind (request_signature E svc (payload_digest E p)) (\<lambda>sig. Ok (p\<lparr>pl_signature := sig\<rparr>)))"

definition payload_size :: "Payload \<Rightarrow> nat" where
  "payload_size p = sum_list (map length (pl_transactions p))"

datatype MempoolMessage =
    OwnPayload Payload
  | PayloadMsg Payload
  | PayloadRequest "Digest list" PublicKey

section \<open>The task that gathers transactions\<close>

record Runner =
  rn_transactions :: "Transaction list"
  rn_size :: nat
  rn_max_size :: usize
  rn_name :: PublicKey
  rn_service :: SignatureService
  rn_core_channel :: "MempoolMessage list"

definition runner_new :: "PublicKey \<Rightarrow> SignatureService \<Rightarrow> usize \<Rightarrow> Runner" where
  "runner_new name svc max_size = \<lparr>rn_transactions = [], rn_size = 0, rn_max_size = max_size,
     rn_name = name, rn_service = svc, rn_core_channel = []\<rparr>"

definition runner_make :: "'z crypto_ext_scheme \<Rightarrow> (Runner, MempoolError, Payload) comp" where
  "runner_make E = (\<lambda>r.
     (r\<lparr>rn_transactions := [], rn_size := 0\<rparr>,
      payload_new E (rn_service r) (rn_transactions r) (rn_name r)))"

definition runner_push :: "Transaction \<Rightarrow> (Runner, MempoolError, unit) comp" where
  "runner_push tx = modifyM (\<lambda>r. r\<lparr>rn_transactions := rn_transactions r @ [tx], rn_size := rn_size r + length tx\<rparr>)"

definition runner_add :: "'z crypto_ext_scheme \<Rightarrow> Transaction \<Rightarrow> (Runner, MempoolError, Payload option) comp" where
  "runner_add E tx = readM (\<lambda>r.
     bindM (if unat (rn_max_size r) < rn_size r + length tx
            then bindM (runner_make E) (\<lambda>p. ret (Some p)) else ret None) (\<lambda>res.
     bindM (runner_push tx) (\<lambda>_. ret res)))"

text \<open>\<open>PayloadMaker::make\<close>: the answer to a request, an empty payload being dropped.\<close>

definition payload_maker_make :: "'z crypto_ext_scheme \<Rightarrow> (Runner, MempoolError, Payload option) comp" where
  "payload_maker_make E =
     bindM (runner_make E) (\<lambda>p. ret (if payload_size p = 0 then None else Some p))"

datatype RunnerEvent = ClientTx Transaction | MakeRequest

text \<open>
  One turn of the loop: a client's transaction, whose payload, if one was made, goes to the mempool
  core; or a request of the core, answered with what is buffered. The value of a turn is
  what left the buffer.
\<close>

definition runner_deliver :: "Payload option \<Rightarrow> (Runner, MempoolError, Payload list) comp" where
  "runner_deliver res = (case res of
       None \<Rightarrow> ret []
     | Some p \<Rightarrow> bindM (modifyM (\<lambda>r. r\<lparr>rn_core_channel := rn_core_channel r @ [OwnPayload p]\<rparr>)) (\<lambda>_. ret [p]))"

fun runner_turn :: "'z crypto_ext_scheme \<Rightarrow> RunnerEvent \<Rightarrow> (Runner, MempoolError, Payload list) comp" where
  "runner_turn E (ClientTx tx) =
     bindM (runner_add E tx) runner_deliver"
| "runner_turn E MakeRequest = bindM (runner_make E) (\<lambda>p. ret [p])"

fun runner_run :: "'z crypto_ext_scheme \<Rightarrow> RunnerEvent list \<Rightarrow> (Runner, MempoolError, Payload list) comp" where
  "runner_run E [] = ret []"
| "runner_run E (ev # evs) =
     bindM (runner_turn E ev) (\<lambda>ps. bindM (runner_run E evs) (\<lambda>ps'. ret (ps @ ps')))"

section \<open>Lemmas\<close>

text \<open>The counter is the size of what is buffered.\<close>

definition runner_inv :: "Runner \<Rightarrow> bool" where
  "runner_inv r \<longleftrightarrow> rn_size r = sum_list (map length (rn_transactions r))"

lemma runner_inv_new: "runner_inv (runner_new name svc max_size)"
  by (simp add: runner_inv_def runner_new_def)

lemma payload_new_Ok:
  assumes "payload_new E svc txs author = Ok p"
  shows "pl_transactions p = txs \<and> pl_author p = author \<and> payload_size p = sum_list (map length txs)"
  using assms by (auto simp: payload_new_def Let_def rbind_Ok payload_size_def)

lemma payload_new_no_Err: "payload_new E svc txs author \<noteq> Err e"
  by (simp add: payload_new_def request_signature_def signature_new_def Let_def)

lemma fresh_payload_verifies:
  assumes "ed25519_ok E" and "payload_new E svc txs (service_key svc) = Ok p"
  shows "signature_verify E (pl_signature p) (payload_digest E p) (pl_author p) = Ok ()"
proof -
  have "request_signature E svc (payload_digest E p) = (Ok (pl_signature p) :: (ConsensusError, Signature) result)"
    and "pl_author p = service_key svc"
    using assms(2) by (auto simp: payload_new_def Let_def rbind_Ok payload_digest_def request_signature_def
        signature_new_def split: if_splits)
  with request_signature_verifies [OF assms(1)] show ?thesis
    by (auto simp: verify_sig_def)
qed

lemma runner_add_cases:
  assumes "runner_add E tx r = (r1, Ok res)"
  shows "(res = None \<and> rn_size r + length tx \<le> unat (rn_max_size r) \<and>
            rn_transactions r1 = rn_transactions r @ [tx] \<and> rn_size r1 = rn_size r + length tx) \<or>
         (\<exists>p. res = Some p \<and> unat (rn_max_size r) < rn_size r + length tx \<and>
            pl_transactions p = rn_transactions r \<and> rn_transactions r1 = [tx] \<and> rn_size r1 = length tx)"
  using assms payload_new_Ok [of E "rn_service r" "rn_transactions r" "rn_name r"]
  by (auto simp: runner_add_def runner_push_def runner_make_def comp_defs
      split: if_splits result.splits prod.splits)

text \<open>The transactions of an event, of a payload list and of the buffer.\<close>

fun event_txs :: "RunnerEvent \<Rightarrow> Transaction list" where
  "event_txs (ClientTx tx) = [tx]"
| "event_txs MakeRequest = []"

definition payload_txs :: "Payload list \<Rightarrow> Transaction list" where
  "payload_txs ps = concat (map pl_transactions ps)"

lemma payload_txs_simps [simp]:
  "payload_txs [] = []"
  "payload_txs (p # ps) = pl_transactions p @ payload_txs ps"
  "payload_txs (ps @ qs) = payload_txs ps @ payload_txs qs"
  by (simp_all add: payload_txs_def)

lemma runner_turn_Ok:
  assumes "runner_turn E ev r = (r1, Ok ps)" and "runner_inv r"
  shows "runner_inv r1 \<and> rn_max_size r1 = rn_max_size r \<and>
    payload_txs ps @ rn_transactions r1 = rn_transactions r @ event_txs ev \<and>
    (\<forall>p \<in> set ps. payload_size p = rn_size r)"
proof (cases ev)
  case (ClientTx tx)
  from assms(1) obtain res r' where add: "runner_add E tx r = (r', Ok res)"
    and rest: "runner_deliver res r' = (r1, Ok ps)"
    unfolding ClientTx runner_turn.simps bindM_Ok by blast
  have m: "rn_max_size r' = rn_max_size r"
    using add by (auto simp: runner_add_def runner_push_def runner_make_def comp_defs split: result.splits if_splits)
  have "rn_transactions r1 = rn_transactions r'" "rn_size r1 = rn_size r'" "rn_max_size r1 = rn_max_size r'"
    "ps = (case res of None \<Rightarrow> [] | Some p \<Rightarrow> [p])"
    using rest by (auto simp: runner_deliver_def comp_defs split: option.splits)
  with runner_add_cases [OF add] m assms(2) ClientTx show ?thesis
    by (auto simp: runner_inv_def payload_size_def)
next
  case MakeRequest
  with assms payload_new_Ok [of E "rn_service r" "rn_transactions r" "rn_name r"] show ?thesis
    by (auto simp: runner_make_def comp_defs runner_inv_def split: result.splits)
qed

lemma runner_run_Ok:
  assumes "runner_run E evs r = (r1, Ok ps)" and "runner_inv r"
  shows "runner_inv r1 \<and> payload_txs ps @ rn_transactions r1 = rn_transactions r @ concat (map event_txs evs)"
  using assms
proof (induction evs arbitrary: r ps)
  case Nil
  then show ?case by (simp add: ret_def)
next
  case (Cons ev evs)
  then obtain r' ps1 ps2 where t: "runner_turn E ev r = (r', Ok ps1)"
    and "runner_run E evs r' = (r1, Ok ps2)" and "ps = ps1 @ ps2"
    by (auto simp: bindM_Ok ret_def)
  moreover note turn = runner_turn_Ok [OF t Cons.prems(2)]
  ultimately have "runner_inv r1" and "payload_txs ps2 @ rn_transactions r1 = rn_transactions r' @ concat (map event_txs evs)"
    using Cons.IH [of r' ps2] by blast+
  moreover have "payload_txs ps1 @ rn_transactions r' @ xs = rn_transactions r @ event_txs ev @ xs" for xs
    using turn by (metis append_assoc)
  ultimately show ?case using \<open>ps = ps1 @ ps2\<close> by simp
qed

text \<open>
  When no transaction is larger than the limit, the buffer stays within it, and so does every payload.
\<close>

lemma runner_turn_bounded:
  assumes "runner_turn E ev r = (r1, Ok ps)" and "runner_inv r" and "rn_size r \<le> unat (rn_max_size r)"
    and "\<forall>tx \<in> set (event_txs ev). length tx \<le> unat (rn_max_size r)"
  shows "rn_size r1 \<le> unat (rn_max_size r1)"
proof (cases ev)
  case (ClientTx tx)
  from assms(1) obtain res r' where add: "runner_add E tx r = (r', Ok res)"
    and rest: "runner_deliver res r' = (r1, Ok ps)"
    unfolding ClientTx runner_turn.simps bindM_Ok by blast
  have "rn_size r1 = rn_size r'"
    using rest by (auto simp: runner_deliver_def comp_defs split: option.splits)
  with runner_add_cases [OF add] assms(4) runner_turn_Ok [OF assms(1,2)] ClientTx show ?thesis by auto
next
  case MakeRequest
  with assms(1) show ?thesis by (auto simp: runner_make_def comp_defs split: result.splits)
qed

lemma runner_run_bounded:
  assumes "runner_run E evs r = (r1, Ok ps)" and "runner_inv r" and "rn_size r \<le> unat (rn_max_size r)"
    and "\<forall>tx \<in> set (concat (map event_txs evs)). length tx \<le> unat (rn_max_size r)"
  shows "\<forall>p \<in> set ps. payload_size p \<le> unat (rn_max_size r)"
  using assms
proof (induction evs arbitrary: r ps)
  case Nil
  then show ?case by (simp add: ret_def)
next
  case (Cons ev evs)
  then obtain r' ps1 ps2 where t: "runner_turn E ev r = (r', Ok ps1)"
    and run: "runner_run E evs r' = (r1, Ok ps2)" and ps: "ps = ps1 @ ps2"
    by (auto simp: bindM_Ok ret_def)
  note turn = runner_turn_Ok [OF t Cons.prems(2)]
  have "rn_size r' \<le> unat (rn_max_size r')"
    using runner_turn_bounded [OF t Cons.prems(2,3)] Cons.prems(4) by simp
  with Cons.IH [OF run] turn Cons.prems(4) have "\<forall>p \<in> set ps2. payload_size p \<le> unat (rn_max_size r)" by simp
  with turn ps Cons.prems(3) show ?case by auto
qed

text \<open>With a key pair that loads, the task never fails.\<close>

lemma payload_new_succeeds:
  "ed_keypair_from_bytes E (secret_bytes (ss_secret svc)) \<Longrightarrow> \<exists>p. payload_new E svc txs author = Ok p"
  by (simp add: payload_new_def request_signature_def signature_new_def Let_def)

lemma runner_turn_succeeds:
  assumes "ed_keypair_from_bytes E (secret_bytes (ss_secret (rn_service r)))"
  shows "\<exists>r1 ps. runner_turn E ev r = (r1, Ok ps) \<and> rn_service r1 = rn_service r"
  using payload_new_succeeds [OF assms, of "rn_transactions r" "rn_name r"]
  by (cases ev) (auto simp: runner_add_def runner_push_def runner_make_def runner_deliver_def comp_defs)

lemma runner_run_succeeds:
  assumes "ed_keypair_from_bytes E (secret_bytes (ss_secret (rn_service r)))"
  shows "\<exists>r1 ps. runner_run E evs r = (r1, Ok ps)"
  using assms
proof (induction evs arbitrary: r)
  case Nil
  then show ?case by (simp add: ret_def)
next
  case (Cons ev evs)
  from runner_turn_succeeds [OF Cons.prems, of ev] obtain r1 ps
    where t: "runner_turn E ev r = (r1, Ok ps)" and "rn_service r1 = rn_service r" by blast
  with Cons.prems Cons.IH [of r1] obtain r2 ps2 where "runner_run E evs r1 = (r2, Ok ps2)" by auto
  with t show ?case by (auto simp: bindM_def ret_def)
qed

end
