(* ===== verification/Mempool_Core.thy ===== *)
theory Mempool_Core
  imports Payload_Maker
begin

text \<open>
  The mempool of a node: its core (\<open>mempool/src/core.rs\<close>), its synchronizer, which waits for missing payloads
  (\<open>mempool/src/synchronizer.rs\<close>), and the driver through which the consensus core calls it
  (\<open>consensus/src/mempool.rs\<close>). The two actors and the payload maker share one state here; channels are
  lists, and an actor that panicked is marked dead, so that the next send to it panics as well.
  A handler of the core runs to its end before another step of the node; the synchronizer's own steps
  come in any order and any number, as \<open>tokio::select!\<close> allows.

  The lemmas show what is available when: a digest in a queue is in the store, and the synchronizer
  hands a block back only when all its payloads are there.
\<close>

section \<open>State\<close>

datatype SynchronizerMessage =
    Sync "Digest fset" Block u8
  | Clean SeqNumber

text \<open>A future made by \<open>waiter\<close>, with the number of its cancel channel.\<close>

record MWaiter =
  wt_id :: nat
  wt_missing :: "Digest fset"
  wt_block :: Block
  wt_tag :: u8
  wt_cancelled :: bool

record MSynchronizer =
  ms_inner_channel :: "SynchronizerMessage list"
  ms_waiting :: "MWaiter list"
  ms_pending :: "(Digest \<times> (SeqNumber \<times> nat)) list"
  ms_requests :: "(Digest \<times> (SeqNumber \<times> nat)) list"
  ms_next_id :: nat
  ms_alive :: bool

definition msync_new :: MSynchronizer where
  "msync_new = \<lparr>ms_inner_channel = [], ms_waiting = [], ms_pending = [], ms_requests = [],
     ms_next_id = 0, ms_alive = True\<rparr>"

record Mempool =
  mp_name :: PublicKey
  mp_committee :: MCommittee
  mp_parameters :: MParameters
  mp_store :: Store
  mp_synchronizer :: MSynchronizer
  mp_payload_maker :: Runner
  mp_network_channel :: "(MempoolMessage \<times> SocketAddr list) list"
  mp_consensus_channel :: "ConsensusMessage list"
  mp_consensus_channel_smvba :: "ConsensusMessage list"
  mp_opt_queue :: "Digest fset"
  mp_opt_capacity :: nat
  mp_pes_queue :: "Digest fset"
  mp_pes_capacity :: nat
  mp_alive :: bool

definition mempool_core_new ::
    "'z node_ext_scheme \<Rightarrow> PublicKey \<Rightarrow> MCommittee \<Rightarrow> MParameters \<Rightarrow> Store \<Rightarrow> Runner \<Rightarrow> Mempool" where
  "mempool_core_new E name c p st maker = \<lparr>mp_name = name, mp_committee = c, mp_parameters = p, mp_store = st,
     mp_synchronizer = msync_new, mp_payload_maker = maker, mp_network_channel = [],
     mp_consensus_channel = [], mp_consensus_channel_smvba = [],
     mp_opt_queue = {||}, mp_opt_capacity = cap_with E (unat (m_queue_capacity p)),
     mp_pes_queue = {||}, mp_pes_capacity = cap_with E (unat (m_queue_capacity p * 3 div 2)),
     mp_alive = True\<rparr>"

text \<open>\<open>Mempool::run\<close> without the sockets: the node has to be in the committee.\<close>

definition mempool_run ::
    "'z node_ext_scheme \<Rightarrow> PublicKey \<Rightarrow> MCommittee \<Rightarrow> MParameters \<Rightarrow> Store \<Rightarrow> SignatureService \<Rightarrow> Mempool MempoolResult" where
  "mempool_run E name c p st svc =
     rbind (front_address c name) (\<lambda>_.
     rbind (mempool_address c name) (\<lambda>_.
     Ok (mempool_core_new E name c p st (runner_new name svc (m_max_payload_size p)))))"

type_synonym 'a mcomp = "(Mempool, MempoolError, 'a) comp"

section \<open>Synchronizer interface\<close>

definition mempool_transmit :: "MempoolMessage \<Rightarrow> PublicKey option \<Rightarrow> unit mcomp" where
  "mempool_transmit message to = readM (\<lambda>m.
     bindM (liftR (case to of
         Some t \<Rightarrow> rbind (mempool_address (mp_committee m) t) (\<lambda>a. Ok [a])
       | None \<Rightarrow> Ok (mempool_broadcast_addresses (mp_committee m) (mp_name m)))) (\<lambda>addresses.
     modifyM (\<lambda>m. m\<lparr>mp_network_channel := mp_network_channel m @ [(message, addresses)]\<rparr>)))"

definition msync_send :: "SynchronizerMessage \<Rightarrow> unit mcomp" where
  "msync_send msg = (\<lambda>m.
     if ms_alive (mp_synchronizer m)
     then (m\<lparr>mp_synchronizer := (mp_synchronizer m)\<lparr>ms_inner_channel :=
             ms_inner_channel (mp_synchronizer m) @ [msg]\<rparr>\<rparr>, Ok ())
     else (m, Panic))"

fun missing_of :: "'z store_ext_scheme \<Rightarrow> Store \<Rightarrow> Digest list \<Rightarrow> Digest fset \<Rightarrow> Digest fset MempoolResult" where
  "missing_of E st [] missing = Ok missing"
| "missing_of E st (digest # digests) missing =
     rbind (map_err MStoreFailure (store_read E st (digest_to_vec digest))) (\<lambda>r.
       missing_of E st digests (if r = None then finsert digest missing else missing))"

definition msync_verify_payload :: "'z store_ext_scheme \<Rightarrow> Block \<Rightarrow> u8 \<Rightarrow> bool mcomp" where
  "msync_verify_payload E block tag = readM (\<lambda>m.
     bindM (liftR (missing_of E (mp_store m) (b_payload block) {||})) (\<lambda>missing.
     if missing = {||} then ret True
     else bindM (msync_send (Sync missing block tag)) (\<lambda>_. ret False)))"

definition msync_cleanup :: "SeqNumber \<Rightarrow> unit mcomp" where
  "msync_cleanup rnd = msync_send (Clean rnd)"

section \<open>Mempool core\<close>

definition store_payload :: "'z node_ext_scheme \<Rightarrow> bytes \<Rightarrow> Payload \<Rightarrow> unit mcomp" where
  "store_payload E key payload =
     modifyM (\<lambda>m. m\<lparr>mp_store := store_write E key (ser_payload E payload) (mp_store m)\<rparr>)"

definition opt_insert :: "'z node_ext_scheme \<Rightarrow> Digest \<Rightarrow> Mempool \<Rightarrow> Mempool" where
  "opt_insert E d m = m\<lparr>mp_opt_queue := finsert d (mp_opt_queue m),
     mp_opt_capacity := cap_insert E d (mp_opt_queue m) (mp_opt_capacity m)\<rparr>"

definition pes_insert :: "'z node_ext_scheme \<Rightarrow> Digest \<Rightarrow> Mempool \<Rightarrow> Mempool" where
  "pes_insert E d m = m\<lparr>mp_pes_queue := finsert d (mp_pes_queue m),
     mp_pes_capacity := cap_insert E d (mp_pes_queue m) (mp_pes_capacity m)\<rparr>"

definition opt_remove :: "'z node_ext_scheme \<Rightarrow> Digest \<Rightarrow> Mempool \<Rightarrow> Mempool" where
  "opt_remove E d m = m\<lparr>mp_opt_queue := mp_opt_queue m |-| {|d|},
     mp_opt_capacity := cap_remove E d (mp_opt_queue m) (mp_opt_capacity m)\<rparr>"

definition pes_remove :: "'z node_ext_scheme \<Rightarrow> Digest \<Rightarrow> Mempool \<Rightarrow> Mempool" where
  "pes_remove E d m = m\<lparr>mp_pes_queue := mp_pes_queue m |-| {|d|},
     mp_pes_capacity := cap_remove E d (mp_pes_queue m) (mp_pes_capacity m)\<rparr>"

definition process_own_payload :: "'z node_ext_scheme \<Rightarrow> Digest \<Rightarrow> Payload \<Rightarrow> unit mcomp" where
  "process_own_payload E digest payload = stmts
     [ensureM (\<lambda>m. fcard (mp_opt_queue m) < mp_opt_capacity m \<and> fcard (mp_pes_queue m) < mp_pes_capacity m) MempoolFull,
      store_payload E (digest_to_vec digest) payload,
      mempool_transmit (PayloadMsg payload) None]"

definition handle_own_payload :: "'z node_ext_scheme \<Rightarrow> Payload \<Rightarrow> unit mcomp" where
  "handle_own_payload E payload = stmts
     [ensureM (\<lambda>m. fcard (mp_opt_queue m) < unat (m_queue_capacity (mp_parameters m))) MempoolFull,
      process_own_payload E (payload_digest E payload) payload,
      modifyM (opt_insert E (payload_digest E payload)),
      modifyM (pes_insert E (payload_digest E payload))]"

definition handle_others_payload :: "'z node_ext_scheme \<Rightarrow> Payload \<Rightarrow> unit mcomp" where
  "handle_others_payload E payload = stmts
     [ensureM (\<lambda>m. committee_exists (mp_committee m) (pl_author payload)) (MUnknownAuthority (pl_author payload)),
      ensureM (\<lambda>m. payload_size payload \<le> unat (m_max_payload_size (mp_parameters m))) PayloadTooBig,
      liftR (map_err MInvalidSignature
        (signature_verify E (pl_signature payload) (payload_digest E payload) (pl_author payload))),
      store_payload E (digest_to_vec (payload_digest E payload)) payload,
      modifyM (opt_insert E (payload_digest E payload)),
      modifyM (pes_insert E (payload_digest E payload))]"

definition handle_payload_request :: "'z node_ext_scheme \<Rightarrow> Digest list \<Rightarrow> PublicKey \<Rightarrow> unit mcomp" where
  "handle_payload_request E digests requestor = forM digests (\<lambda>digest. readM (\<lambda>m.
     bindM (liftR (map_err MStoreFailure (store_read E (mp_store m) (digest_to_vec digest)))) (\<lambda>r.
     case r of
       None \<Rightarrow> ret ()
     | Some bytes \<Rightarrow>
         bindM (liftR (ok_or (MSerializationError ''deserialize'') (de_payload E bytes))) (\<lambda>payload.
         mempool_transmit (PayloadMsg payload) (Some requestor)))))"

text \<open>The payload maker is an actor of its own; what the core sees is its answer.\<close>

definition ask_payload_maker :: "'z crypto_ext_scheme \<Rightarrow> Payload option mcomp" where
  "ask_payload_maker E = (\<lambda>m. case payload_maker_make E (mp_payload_maker m) of
     (maker, r) \<Rightarrow> (m\<lparr>mp_payload_maker := maker\<rparr>, r))"

definition get_payload :: "'z node_ext_scheme \<Rightarrow> usize \<Rightarrow> u8 \<Rightarrow> Digest list mcomp" where
  "get_payload E max_bytes tag = readM (\<lambda>m.
     if (tag = OPT \<and> mp_opt_queue m = {||}) \<or> (tag = PES \<and> mp_pes_queue m = {||})
     then bindM (ask_payload_maker E) (\<lambda>r. case r of
            Some payload \<Rightarrow> bindM (process_own_payload E (payload_digest E payload) payload)
                                 (\<lambda>_. ret [payload_digest E payload])
          | None \<Rightarrow> ret [])
     else if tag = OPT
     then (let digests = take (unat max_bytes div digest_size digest_default) (iter_digests E (mp_opt_queue m))
           in bindM (modifyM (fold (opt_remove E) digests)) (\<lambda>_. ret digests))
     else (let digests = take (unat max_bytes div digest_size digest_default) (iter_digests E (mp_pes_queue m))
           in bindM (modifyM (fold (pes_remove E) digests)) (\<lambda>_. ret digests)))"

definition mempool_cleanup :: "'z node_ext_scheme \<Rightarrow> Digest list \<Rightarrow> SeqNumber \<Rightarrow> unit mcomp" where
  "mempool_cleanup E digests rnd = stmts
     [msync_cleanup rnd,
      modifyM (fold (\<lambda>x m. pes_remove E x (opt_remove E x m)) digests)]"

text \<open>The receive loop: a message of the core channel, its result only being logged.\<close>

fun mempool_dispatch :: "'z node_ext_scheme \<Rightarrow> MempoolMessage \<Rightarrow> unit mcomp" where
  "mempool_dispatch E (OwnPayload payload) = handle_own_payload E payload"
| "mempool_dispatch E (PayloadMsg payload) = handle_others_payload E payload"
| "mempool_dispatch E (PayloadRequest digests sender) = handle_payload_request E digests sender"

text \<open>A turn of the loop of an actor that may be dead; a panic kills it.\<close>

definition mempool_turn :: "'a mcomp \<Rightarrow> Mempool \<Rightarrow> Mempool \<times> 'a MempoolResult" where
  "mempool_turn h m = (if \<not> mp_alive m then (m, Panic) else
     (case h m of
        (m', Panic) \<Rightarrow> (m'\<lparr>mp_alive := False\<rparr>, Panic)
      | (m', r) \<Rightarrow> (m', r)))"

section \<open>The driver of the consensus core\<close>

datatype PayloadStatus = Accept | Reject | Wait

fun payload_status :: "bool MempoolResult \<Rightarrow> PayloadStatus ConsensusResult" where
  "payload_status (Ok True) = Ok Accept"
| "payload_status (Ok False) = Ok Wait"
| "payload_status (Err e) = Ok Reject"
| "payload_status Panic = Panic"
| "payload_status OutOfFuel = OutOfFuel"

fun unwrap_or_default :: "Digest list MempoolResult \<Rightarrow> Digest list ConsensusResult" where
  "unwrap_or_default (Ok ds) = Ok ds"
| "unwrap_or_default (Err e) = Ok []"
| "unwrap_or_default Panic = Panic"
| "unwrap_or_default OutOfFuel = OutOfFuel"

definition driver_get :: "'z node_ext_scheme \<Rightarrow> usize \<Rightarrow> u8 \<Rightarrow> Mempool \<Rightarrow> Mempool \<times> Digest list ConsensusResult" where
  "driver_get E max_bytes tag m = (case mempool_turn (get_payload E max_bytes tag) m of (m', r) \<Rightarrow> (m', unwrap_or_default r))"

fun status_result :: "PayloadStatus \<Rightarrow> bool ConsensusResult" where
  "status_result Accept = Ok True"
| "status_result Reject = Err InvalidPayload"
| "status_result Wait = Ok False"

definition driver_verify :: "'z store_ext_scheme \<Rightarrow> Block \<Rightarrow> u8 \<Rightarrow> Mempool \<Rightarrow> Mempool \<times> bool ConsensusResult" where
  "driver_verify E block tag m = (case mempool_turn (msync_verify_payload E block tag) m of
     (m', r) \<Rightarrow> (m', rbind (payload_status r) status_result))"

text \<open>\<open>cleanup_par\<close> does not wait for the mempool: it fails only when the receiver is gone already.\<close>

definition driver_cleanup_par :: "'z node_ext_scheme \<Rightarrow> Block \<Rightarrow> Mempool \<Rightarrow> Mempool \<times> unit ConsensusResult" where
  "driver_cleanup_par E b0 m = (if \<not> mp_alive m then (m, Panic)
     else (fst (mempool_turn (mempool_cleanup E (b_payload b0) (b_height b0)) m), Ok ()))"

section \<open>The synchronizer's loop\<close>

definition set_msync :: "(MSynchronizer \<Rightarrow> MSynchronizer) \<Rightarrow> Mempool \<Rightarrow> Mempool" where
  "set_msync f m = m\<lparr>mp_synchronizer := f (mp_synchronizer m)\<rparr>"

text \<open>A panic inside the loop ends the actor.\<close>

definition msync_guard :: "unit mcomp \<Rightarrow> Mempool \<Rightarrow> Mempool" where
  "msync_guard h m = (case h m of
     (m', Ok _) \<Rightarrow> m'
   | (m', _) \<Rightarrow> set_msync (\<lambda>s. s\<lparr>ms_alive := False\<rparr>) m')"

definition waiter :: "nat \<Rightarrow> Digest fset \<Rightarrow> Block \<Rightarrow> u8 \<Rightarrow> MWaiter" where
  "waiter cid missing block tag =
     \<lparr>wt_id = cid, wt_missing = missing, wt_block = block, wt_tag = tag, wt_cancelled = False\<rparr>"

definition register_waiter :: "'z crypto_ext_scheme \<Rightarrow> Digest fset \<Rightarrow> Block \<Rightarrow> u8 \<Rightarrow> MSynchronizer \<Rightarrow> MSynchronizer" where
  "register_waiter E missing block tag s = s\<lparr>
     ms_pending := AList.update (block_digest E block) (b_height block, ms_next_id s) (ms_pending s),
     ms_waiting := ms_waiting s @ [waiter (ms_next_id s) missing block tag],
     ms_next_id := ms_next_id s + 1\<rparr>"

definition msync_request :: "'z node_ext_scheme \<Rightarrow> nat \<Rightarrow> Digest fset \<Rightarrow> Block \<Rightarrow> unit mcomp" where
  "msync_request E now missing block = readM (\<lambda>m.
     let new = filter (\<lambda>x. map_of (ms_requests (mp_synchronizer m)) x = None) (iter_digests E missing)
     in whenM (\<lambda>_. new \<noteq> []) (stmts
          [modifyM (set_msync (\<lambda>s. s\<lparr>ms_requests :=
              fold (\<lambda>x. AList.update x (b_height block, now)) new (ms_requests s)\<rparr>)),
           mempool_transmit (PayloadRequest new (mp_name m)) (Some (b_author block))]))"

definition msync_handle_sync :: "'z node_ext_scheme \<Rightarrow> nat \<Rightarrow> Digest fset \<Rightarrow> Block \<Rightarrow> u8 \<Rightarrow> unit mcomp" where
  "msync_handle_sync E now missing block tag =
     unlessM (\<lambda>m. map_of (ms_pending (mp_synchronizer m)) (block_digest E block) \<noteq> None) (stmts
       [modifyM (set_msync (register_waiter E missing block tag)),
        msync_request E now missing block])"

definition msync_handle_clean :: "SeqNumber \<Rightarrow> MSynchronizer \<Rightarrow> MSynchronizer" where
  "msync_handle_clean rnd s = s\<lparr>
     ms_waiting := map (\<lambda>w. if \<exists>(d, r, cid) \<in> set (ms_pending s). r \<le> rnd \<and> cid = wt_id w
                            then w\<lparr>wt_cancelled := True\<rparr> else w) (ms_waiting s),
     ms_pending := filter (\<lambda>(d, r, cid). rnd < r) (ms_pending s),
     ms_requests := filter (\<lambda>(d, r, now). rnd < r) (ms_requests s)\<rparr>"

definition msync_recv :: "'z node_ext_scheme \<Rightarrow> nat \<Rightarrow> Mempool \<Rightarrow> Mempool" where
  "msync_recv E now m = (case ms_inner_channel (mp_synchronizer m) of
     [] \<Rightarrow> m
   | msg # msgs \<Rightarrow>
       (let m1 = set_msync (\<lambda>s. s\<lparr>ms_inner_channel := msgs\<rparr>) m
        in case msg of
             Sync missing block tag \<Rightarrow> msync_guard (msync_handle_sync E now missing block tag) m1
           | Clean rnd \<Rightarrow> set_msync (msync_handle_clean rnd) m1))"

text \<open>A future of \<open>waiter\<close> is ready when every key it subscribed to has been answered with a value.\<close>

definition stored :: "'z store_ext_scheme \<Rightarrow> Store \<Rightarrow> Digest \<Rightarrow> bool" where
  "stored E st d = (case store_read E st (digest_to_vec d) of Ok (Some v) \<Rightarrow> True | _ \<Rightarrow> False)"

definition waiter_ready :: "'z store_ext_scheme \<Rightarrow> Store \<Rightarrow> MWaiter \<Rightarrow> bool" where
  "waiter_ready E st w = fBall (wt_missing w) (stored E st)"

definition waiter_failed :: "'z store_ext_scheme \<Rightarrow> Store \<Rightarrow> MWaiter \<Rightarrow> bool" where
  "waiter_failed E st w = fBex (wt_missing w) (\<lambda>d.
     case store_read E st (digest_to_vec d) of Err e \<Rightarrow> True | _ \<Rightarrow> False)"

definition drop_waiter :: "nat \<Rightarrow> MSynchronizer \<Rightarrow> MSynchronizer" where
  "drop_waiter i s = s\<lparr>ms_waiting := take i (ms_waiting s) @ drop (Suc i) (ms_waiting s)\<rparr>"

definition loopback :: "u8 \<Rightarrow> Block \<Rightarrow> Mempool \<Rightarrow> Mempool" where
  "loopback tag block m =
     (if tag = OPT
      then m\<lparr>mp_consensus_channel := mp_consensus_channel m @ [HsLoopBack block]\<rparr>
      else if tag = PES
      then m\<lparr>mp_consensus_channel_smvba := mp_consensus_channel_smvba m @ [ParLoopBack block]\<rparr>
      else m\<lparr>mp_consensus_channel_smvba := mp_consensus_channel_smvba m @ [FBLoopBack block]\<rparr>)"

definition msync_deliver :: "'z crypto_ext_scheme \<Rightarrow> nat \<Rightarrow> Mempool \<Rightarrow> Mempool" where
  "msync_deliver E i m =
     (let w = ms_waiting (mp_synchronizer m) ! i
      in loopback (wt_tag w) (wt_block w) (set_msync (\<lambda>s. (drop_waiter i s)\<lparr>
           ms_pending := AList.delete (block_digest E (wt_block w)) (ms_pending s),
           ms_requests := fold AList.delete (b_payload (wt_block w)) (ms_requests s)\<rparr>) m))"

definition msync_timer :: "'z node_ext_scheme \<Rightarrow> nat \<Rightarrow> Mempool \<Rightarrow> Mempool" where
  "msync_timer E now m =
     (let due = fset_of_list (map fst (filter (\<lambda>(d, r, timestamp).
                  timestamp + unat (m_sync_retry_delay (mp_parameters m)) < now)
                (ms_requests (mp_synchronizer m))));
          retransmit = iter_digests E due
      in if retransmit = [] then m
         else msync_guard (mempool_transmit (PayloadRequest retransmit (mp_name m)) None) m)"

section \<open>Steps of the mempool of a node\<close>

text \<open>
  What can happen next: a message from another node, a payload of the node's own maker, a client's
  transaction, a call of the consensus core, a turn of the synchronizer, or a write of the consensus core to the
  shared store.
\<close>

inductive mempool_step :: "'z node_ext_scheme \<Rightarrow> Mempool \<Rightarrow> Mempool \<Rightarrow> bool" for E where
  recv: "mempool_step E m (fst (mempool_turn (mempool_dispatch E msg) m))"
| own: "rn_core_channel (mp_payload_maker m) = msg # msgs \<Longrightarrow>
    mempool_step E m (fst (mempool_turn (mempool_dispatch E msg)
      (m\<lparr>mp_payload_maker := (mp_payload_maker m)\<lparr>rn_core_channel := msgs\<rparr>\<rparr>)))"
| client: "mempool_step E m (m\<lparr>mp_payload_maker := fst (runner_turn E (ClientTx tx) (mp_payload_maker m))\<rparr>)"
| get: "mempool_step E m (fst (driver_get E max_bytes tag m))"
| verify: "mempool_step E m (fst (driver_verify E block tag m))"
| cleanup: "mempool_step E m (fst (driver_cleanup_par E block m))"
| sync_recv: "ms_alive (mp_synchronizer m) \<Longrightarrow> mempool_step E m (msync_recv E now m)"
| sync_deliver: "ms_alive (mp_synchronizer m) \<Longrightarrow> i < length (ms_waiting (mp_synchronizer m)) \<Longrightarrow>
    waiter_ready E (mp_store m) (ms_waiting (mp_synchronizer m) ! i) \<Longrightarrow> mempool_step E m (msync_deliver E i m)"
| sync_cancel: "ms_alive (mp_synchronizer m) \<Longrightarrow> i < length (ms_waiting (mp_synchronizer m)) \<Longrightarrow>
    wt_cancelled (ms_waiting (mp_synchronizer m) ! i) \<Longrightarrow> mempool_step E m (set_msync (drop_waiter i) m)"
| sync_fail: "ms_alive (mp_synchronizer m) \<Longrightarrow> i < length (ms_waiting (mp_synchronizer m)) \<Longrightarrow>
    waiter_failed E (mp_store m) (ms_waiting (mp_synchronizer m) ! i) \<Longrightarrow> mempool_step E m (set_msync (drop_waiter i) m)"
| sync_timer: "ms_alive (mp_synchronizer m) \<Longrightarrow> mempool_step E m (msync_timer E now m)"
| store_block: "mempool_step E m (m\<lparr>mp_store := store_write E key val (mp_store m)\<rparr>)"

inductive mempool_reaches :: "'z node_ext_scheme \<Rightarrow> Mempool \<Rightarrow> Mempool \<Rightarrow> bool" for E where
  start: "mempool_reaches E m m"
| more: "mempool_reaches E m m' \<Longrightarrow> mempool_step E m' m'' \<Longrightarrow> mempool_reaches E m m''"

inductive_cases mempool_stepE: "mempool_step E m m'"

end
