(* ===== verification/Mempool_Props.thy ===== *)
theory Mempool_Props
  imports Mempool_Core
begin

text \<open>
  Lemmas about the mempool: the invariant that ties queues, waiters and loopbacks to the store, kept by every
  step of the node; what \<open>get_payload\<close> takes and removes; what \<open>verify_payload\<close> answers; and what
  the synchronizer cleans up.
\<close>

section \<open>The store only grows\<close>

definition available :: "'z store_ext_scheme \<Rightarrow> Store \<Rightarrow> Block \<Rightarrow> Digest fset \<Rightarrow> bool" where
  "available E st b missing \<longleftrightarrow> (\<forall>d \<in> set (b_payload b). d |\<in>| missing \<or> stored E st d)"

lemma stored_iff: "stored E st d \<longleftrightarrow> (\<exists>v. store_read E st (digest_to_vec d) = Ok (Some v))"
  by (auto simp: stored_def split: result.splits option.splits)

lemma stored_write: "rocksdb_ok E \<Longrightarrow> stored E st d \<Longrightarrow> stored E (store_write E key val st) d"
  by (auto simp: stored_iff store_read_write)

lemma stored_written: "rocksdb_ok E \<Longrightarrow> stored E (store_write E (digest_to_vec d) val st) d"
  by (auto simp: stored_iff store_read_write)

lemma available_write: "rocksdb_ok E \<Longrightarrow> available E st b ms \<Longrightarrow> available E (store_write E key val st) b ms"
  by (auto simp: available_def stored_write)

lemma available_ready:
  "available E st (wt_block w) (wt_missing w) \<Longrightarrow> waiter_ready E st w \<Longrightarrow> available E st (wt_block w) {||}"
  by (auto simp: available_def waiter_ready_def)

section \<open>The invariant\<close>

fun loopback_block :: "ConsensusMessage \<Rightarrow> Block option" where
  "loopback_block (HsLoopBack b) = Some b"
| "loopback_block (ParLoopBack b) = Some b"
| "loopback_block (FBLoopBack b) = Some b"
| "loopback_block _ = None"

definition queues_stored :: "'z store_ext_scheme \<Rightarrow> Mempool \<Rightarrow> bool" where
  "queues_stored E m \<longleftrightarrow> (\<forall>d. d |\<in>| mp_opt_queue m \<or> d |\<in>| mp_pes_queue m \<longrightarrow> stored E (mp_store m) d)"

definition waiters_cover :: "'z store_ext_scheme \<Rightarrow> Mempool \<Rightarrow> bool" where
  "waiters_cover E m \<longleftrightarrow>
     (\<forall>missing b tag. Sync missing b tag \<in> set (ms_inner_channel (mp_synchronizer m)) \<longrightarrow> available E (mp_store m) b missing) \<and>
     (\<forall>w \<in> set (ms_waiting (mp_synchronizer m)). available E (mp_store m) (wt_block w) (wt_missing w))"

definition loopbacks_available :: "'z store_ext_scheme \<Rightarrow> Mempool \<Rightarrow> bool" where
  "loopbacks_available E m \<longleftrightarrow>
     (\<forall>msg \<in> set (mp_consensus_channel m) \<union> set (mp_consensus_channel_smvba m).
        \<forall>b. loopback_block msg = Some b \<longrightarrow> available E (mp_store m) b {||})"

definition mempool_inv :: "'z store_ext_scheme \<Rightarrow> Mempool \<Rightarrow> bool" where
  "mempool_inv E m \<longleftrightarrow> queues_stored E m \<and> waiters_cover E m \<and> loopbacks_available E m"

lemmas mempool_inv_defs = mempool_inv_def queues_stored_def waiters_cover_def loopbacks_available_def

interpretation minv: step_order "\<lambda>m m'. mempool_inv E m \<longrightarrow> mempool_inv E m'" for E
  by unfold_locales auto

text \<open>The parts of the state the invariant does not read may change freely.\<close>

lemma mempool_inv_cong:
  assumes "mp_store m' = mp_store m" and "mp_opt_queue m' |\<subseteq>| mp_opt_queue m" and "mp_pes_queue m' |\<subseteq>| mp_pes_queue m"
    and "set (ms_inner_channel (mp_synchronizer m')) \<subseteq> set (ms_inner_channel (mp_synchronizer m))"
    and "set (ms_waiting (mp_synchronizer m')) \<subseteq> set (ms_waiting (mp_synchronizer m))"
    and "mp_consensus_channel m' = mp_consensus_channel m"
    and "mp_consensus_channel_smvba m' = mp_consensus_channel_smvba m"
    and "mempool_inv E m"
  shows "mempool_inv E m'"
  using assms unfolding mempool_inv_defs by (simp add: subset_iff fsubset_iff) blast

lemma inv_transmit: "keeps (\<lambda>m m'. mempool_inv E m \<longrightarrow> mempool_inv E m') (mempool_transmit msg to)"
proof -
  have "mempool_inv E m \<Longrightarrow> mempool_inv E (m\<lparr>mp_network_channel := x\<rparr>)" for m x
    by (rule mempool_inv_cong) auto
  then show ?thesis
    unfolding mempool_transmit_def by (intro keep_rules minv.keeps_modify) simp
qed

lemma inv_payload_maker: "mempool_inv E m \<Longrightarrow> mempool_inv E (m\<lparr>mp_payload_maker := x\<rparr>)"
  by (rule mempool_inv_cong) auto

lemma inv_alive: "mempool_inv E m \<Longrightarrow> mempool_inv E (m\<lparr>mp_alive := x\<rparr>)"
  by (rule mempool_inv_cong) auto

lemma inv_store_write:
  "rocksdb_ok E \<Longrightarrow> mempool_inv E m \<Longrightarrow> mempool_inv E (m\<lparr>mp_store := store_write E key val (mp_store m)\<rparr>)"
  unfolding mempool_inv_defs by (simp add: stored_write available_write)

lemma queue_ops_simps [simp]:
  "mp_store (opt_insert E d m) = mp_store m" "mp_store (pes_insert E d m) = mp_store m"
  "mp_opt_queue (opt_insert E d m) = finsert d (mp_opt_queue m)" "mp_pes_queue (opt_insert E d m) = mp_pes_queue m"
  "mp_pes_queue (pes_insert E d m) = finsert d (mp_pes_queue m)" "mp_opt_queue (pes_insert E d m) = mp_opt_queue m"
  "mp_store (opt_remove E d m) = mp_store m" "mp_store (pes_remove E d m) = mp_store m"
  "mp_opt_queue (opt_remove E d m) = mp_opt_queue m |-| {|d|}" "mp_pes_queue (opt_remove E d m) = mp_pes_queue m"
  "mp_pes_queue (pes_remove E d m) = mp_pes_queue m |-| {|d|}" "mp_opt_queue (pes_remove E d m) = mp_opt_queue m"
  by (simp_all add: opt_insert_def pes_insert_def opt_remove_def pes_remove_def)

lemma inv_opt_insert: "mempool_inv E m \<Longrightarrow> stored E (mp_store m) d \<Longrightarrow> mempool_inv E (opt_insert F d m)"
  unfolding mempool_inv_defs by (auto simp: opt_insert_def)

lemma inv_pes_insert: "mempool_inv E m \<Longrightarrow> stored E (mp_store m) d \<Longrightarrow> mempool_inv E (pes_insert F d m)"
  unfolding mempool_inv_defs by (auto simp: pes_insert_def)

lemma inv_opt_remove: "mempool_inv E m \<Longrightarrow> mempool_inv E (opt_remove F d m)"
  by (rule mempool_inv_cong [of _ m]) (auto simp: opt_remove_def)

lemma inv_pes_remove: "mempool_inv E m \<Longrightarrow> mempool_inv E (pes_remove F d m)"
  by (rule mempool_inv_cong [of _ m]) (auto simp: pes_remove_def)

lemma inv_fold:
  assumes "\<And>x m. mempool_inv E m \<Longrightarrow> mempool_inv E (f x m)"
  shows "mempool_inv E m \<Longrightarrow> mempool_inv E (fold f xs m)"
  using assms by (induction xs arbitrary: m) auto

text \<open>Storing a payload and queueing its digest, the common end of the two payload handlers.\<close>

lemma inv_process_own_payload:
  "rocksdb_ok E \<Longrightarrow> keeps (\<lambda>m m'. mempool_inv E m \<longrightarrow> mempool_inv E m') (process_own_payload E d p)"
  unfolding process_own_payload_def store_payload_def
  by (intro keep_rules) (auto intro!: keep_rules minv.keeps_modify inv_transmit inv_store_write)

lemma process_own_payload_stored:
  assumes "rocksdb_ok E" and "process_own_payload E d p m = (m', Ok ())"
  shows "stored E (mp_store m') d"
  using assms stored_written [OF assms(1)]
  by (auto simp: process_own_payload_def store_payload_def mempool_transmit_def comp_defs
      split: result.splits if_splits)

lemma inv_queue_both:
  "mempool_inv E m \<Longrightarrow> stored E (mp_store m) d \<Longrightarrow> mempool_inv E (pes_insert F d (opt_insert F d m))"
  by (intro inv_pes_insert inv_opt_insert) simp_all

lemma inv_handle_own_payload:
  assumes "rocksdb_ok E" and "mempool_inv E m"
  shows "mempool_inv E (fst (handle_own_payload E p m))"
proof -
  obtain m' r where p: "process_own_payload E (payload_digest E p) p m = (m', r)" by force
  have "mempool_inv E m'"
    using keepsD [OF inv_process_own_payload [OF assms(1)] p] assms(2) by simp
  moreover have "r = Ok () \<Longrightarrow> stored E (mp_store m') (payload_digest E p)"
    using process_own_payload_stored [OF assms(1)] p by blast
  ultimately show ?thesis
    using assms(2) p by (cases r) (auto simp: handle_own_payload_def comp_defs ensure_def intro: inv_queue_both)
qed

lemma inv_handle_others_payload:
  assumes "rocksdb_ok E" and "mempool_inv E m"
  shows "mempool_inv E (fst (handle_others_payload E p m))"
proof -
  let ?m = "m\<lparr>mp_store := store_write E (digest_to_vec (payload_digest E p)) (ser_payload E p) (mp_store m)\<rparr>"
  have "mempool_inv E (pes_insert E (payload_digest E p) (opt_insert E (payload_digest E p) ?m))"
    using assms by (intro inv_queue_both inv_store_write) (simp_all add: stored_written)
  with assms(2) show ?thesis
    by (auto simp: handle_others_payload_def store_payload_def comp_defs ensure_def split: result.splits)
qed

lemma inv_handle_payload_request:
  "keeps (\<lambda>m m'. mempool_inv E m \<longrightarrow> mempool_inv E m') (handle_payload_request F digests requestor)"
  unfolding handle_payload_request_def
  by (intro keep_rules) (auto intro!: keep_rules inv_transmit split: option.splits)

lemma inv_dispatch:
  assumes "rocksdb_ok E" and "mempool_inv E m"
  shows "mempool_inv E (fst (mempool_dispatch E msg m))"
  using assms inv_handle_payload_request [of E]
  by (cases msg) (auto simp: inv_handle_own_payload inv_handle_others_payload keeps_def)

lemma inv_turn:
  assumes "mempool_inv E m" and "mempool_inv E (fst (h m))"
  shows "mempool_inv E (fst (mempool_turn h m))"
  using assms by (auto simp: mempool_turn_def inv_alive split: prod.splits result.splits)

lemma inv_ask_payload_maker: "keeps (\<lambda>m m'. mempool_inv E m \<longrightarrow> mempool_inv E m') (ask_payload_maker F)"
  by (auto simp: keeps_def ask_payload_maker_def inv_payload_maker split: prod.splits)

lemma inv_get_payload:
  "rocksdb_ok E \<Longrightarrow> keeps (\<lambda>m m'. mempool_inv E m \<longrightarrow> mempool_inv E m') (get_payload E mx tag)"
  unfolding get_payload_def Let_def
  by (auto intro!: keep_rules minv.keeps_modify inv_ask_payload_maker inv_process_own_payload inv_fold
      inv_opt_remove inv_pes_remove split: option.splits)

lemma missing_of_char:
  "missing_of E st ds ms = Ok ms' \<Longrightarrow>
     fset ms' = fset ms \<union> {d \<in> set ds. \<not> stored E st d}"
proof (induction ds arbitrary: ms)
  case Nil
  then show ?case by simp
next
  case (Cons d ds)
  then obtain r where r: "store_read E st (digest_to_vec d) = Ok r"
    and rest: "missing_of E st ds (if r = None then finsert d ms else ms) = Ok ms'"
    by (auto simp: rbind_Ok)
  from Cons.IH [OF rest] r show ?case
    by (cases r) (auto simp: stored_iff)
qed

lemma inv_verify_payload:
  "keeps (\<lambda>m m'. mempool_inv E m \<longrightarrow> mempool_inv E m') (msync_verify_payload E b tag)"
proof -
  have "mempool_inv E m \<Longrightarrow> missing_of E (mp_store m) (b_payload b) {||} = Ok ms \<Longrightarrow>
    mempool_inv E (m\<lparr>mp_synchronizer := (mp_synchronizer m)\<lparr>ms_inner_channel :=
      ms_inner_channel (mp_synchronizer m) @ [Sync ms b tag]\<rparr>\<rparr>)" for m ms
    by (frule missing_of_char) (auto simp: mempool_inv_defs available_def)
  then show ?thesis
    by (auto simp: keeps_def msync_verify_payload_def msync_send_def comp_defs split: result.splits)
qed

lemma inv_cleanup: "keeps (\<lambda>m m'. mempool_inv E m \<longrightarrow> mempool_inv E m') (mempool_cleanup F digests rnd)"
proof -
  have "mempool_inv E m \<Longrightarrow> mempool_inv E (fst (msync_send (Clean rnd) m))" for m
    by (auto simp: msync_send_def mempool_inv_defs)
  then have "keeps (\<lambda>m m'. mempool_inv E m \<longrightarrow> mempool_inv E m') (msync_cleanup rnd)"
    by (simp add: keeps_def msync_cleanup_def)
  then show ?thesis
    unfolding mempool_cleanup_def
    by (intro keep_rules) (auto intro!: minv.keeps_modify inv_fold inv_opt_remove inv_pes_remove)
qed

lemma inv_register_waiter:
  assumes "mempool_inv E m" and "available E (mp_store m) b missing"
  shows "mempool_inv E (set_msync (register_waiter F missing b tag) m)"
  using assms unfolding mempool_inv_defs by (auto simp: set_msync_def register_waiter_def waiter_def)

lemma inv_requests: "mempool_inv E m \<Longrightarrow> mempool_inv E (set_msync (\<lambda>s. s\<lparr>ms_requests := f s\<rparr>) m)"
  by (rule mempool_inv_cong) (auto simp: set_msync_def)

lemma inv_guard: "mempool_inv E (fst (h m)) \<Longrightarrow> mempool_inv E (msync_guard h m)"
  by (auto simp: msync_guard_def set_msync_def split: prod.splits result.splits intro!: mempool_inv_cong [of _ "fst (h m)"])

lemma inv_drop_waiter: "mempool_inv E m \<Longrightarrow> mempool_inv E (set_msync (drop_waiter i) m)"
  by (rule mempool_inv_cong)
    (auto simp: set_msync_def drop_waiter_def dest: in_set_takeD in_set_dropD)

lemma inv_request: "keeps (\<lambda>m m'. mempool_inv E m \<longrightarrow> mempool_inv E m') (msync_request F now missing b)"
  unfolding msync_request_def Let_def
  by (intro keep_rules) (auto intro!: minv.keeps_modify inv_requests inv_transmit)

lemma inv_handle_sync:
  assumes "mempool_inv E m" and "available E (mp_store m) b missing"
  shows "mempool_inv E (fst (msync_handle_sync F now missing b tag m))"
proof (cases "map_of (ms_pending (mp_synchronizer m)) (block_digest F b) = None")
  case True
  let ?m = "set_msync (register_waiter F missing b tag) m"
  have "keeps (\<lambda>m m'. mempool_inv E m \<longrightarrow> mempool_inv E m') (stmts [msync_request F now missing b])"
    by (intro keep_rules) (auto intro: inv_request)
  with inv_register_waiter [OF assms] have "mempool_inv E (fst (stmts [msync_request F now missing b] ?m))"
    unfolding keeps_def by blast
  then show ?thesis
    using True unfolding msync_handle_sync_def by (simp add: unlessM_def bindM_def modifyM_def)
next
  case False
  with assms(1) show ?thesis by (simp add: msync_handle_sync_def unlessM_def)
qed

lemma inv_handle_clean: "mempool_inv E m \<Longrightarrow> mempool_inv E (set_msync (msync_handle_clean rnd) m)"
  unfolding mempool_inv_defs by (auto simp: set_msync_def msync_handle_clean_def split: if_splits)

lemma inv_recv:
  assumes "mempool_inv E m"
  shows "mempool_inv E (msync_recv F now m)"
proof (cases "ms_inner_channel (mp_synchronizer m)")
  case Nil
  with assms show ?thesis by (simp add: msync_recv_def)
next
  case (Cons msg msgs)
  let ?m = "set_msync (\<lambda>s. s\<lparr>ms_inner_channel := msgs\<rparr>) m"
  have "mempool_inv E ?m"
    using assms by (rule mempool_inv_cong [rotated -1]) (auto simp: set_msync_def Cons)
  moreover have "available E (mp_store ?m) b missing" if "msg = Sync missing b tag" for missing b tag
    using assms Cons that by (auto simp: mempool_inv_defs set_msync_def)
  ultimately show ?thesis
    using Cons by (auto simp: msync_recv_def Let_def inv_handle_clean split: SynchronizerMessage.splits
        intro!: inv_guard inv_handle_sync)
qed

lemma inv_loopback:
  "mempool_inv E m \<Longrightarrow> available E (mp_store m) b {||} \<Longrightarrow> mempool_inv E (loopback tag b m)"
  unfolding mempool_inv_defs loopback_def by auto

lemma inv_deliver:
  assumes "mempool_inv E m" and "i < length (ms_waiting (mp_synchronizer m))"
    and "waiter_ready E (mp_store m) (ms_waiting (mp_synchronizer m) ! i)"
  shows "mempool_inv E (msync_deliver F i m)"
proof -
  let ?w = "ms_waiting (mp_synchronizer m) ! i"
  have "available E (mp_store m) (wt_block ?w) (wt_missing ?w)"
    using assms(1,2) nth_mem unfolding mempool_inv_defs by blast
  then have "available E (mp_store m) (wt_block ?w) {||}"
    using assms(3) by (rule available_ready)
  moreover have "mempool_inv E (set_msync (\<lambda>s. (drop_waiter i s)\<lparr>ms_pending := f s, ms_requests := g s\<rparr>) m)" for f g
    by (rule mempool_inv_cong [OF _ _ _ _ _ _ _ inv_drop_waiter [OF assms(1), of i]]) (simp_all add: set_msync_def drop_waiter_def)
  ultimately show ?thesis
    unfolding msync_deliver_def Let_def by (intro inv_loopback) (simp_all add: set_msync_def)
qed

lemma inv_timer: "mempool_inv E m \<Longrightarrow> mempool_inv E (msync_timer F now m)"
  using inv_transmit [of E] by (auto simp: msync_timer_def Let_def keeps_def intro!: inv_guard)

lemma inv_step: "mempool_step E m m' \<Longrightarrow> rocksdb_ok E \<Longrightarrow> mempool_inv E m \<Longrightarrow> mempool_inv E m'"
proof (induction rule: mempool_step.induct)
  case (own m msg msgs)
  then show ?case by (intro inv_turn inv_dispatch inv_payload_maker)
next
  case (get m mx tag)
  then have "mempool_inv E (fst (mempool_turn (get_payload E mx tag) m))"
    using inv_get_payload [of E mx tag] by (intro inv_turn) (auto simp: keeps_def)
  then show ?case by (simp add: driver_get_def case_prod_beta)
next
  case (verify m b tag)
  then have "mempool_inv E (fst (mempool_turn (msync_verify_payload E b tag) m))"
    using inv_verify_payload [of E b tag] by (intro inv_turn) (auto simp: keeps_def)
  then show ?case by (simp add: driver_verify_def case_prod_beta)
next
  case (cleanup m b)
  then have "mempool_inv E (fst (mempool_turn (mempool_cleanup E (b_payload b) (b_height b)) m))"
    using inv_cleanup [of E E] by (intro inv_turn) (auto simp: keeps_def)
  with cleanup show ?case by (simp add: driver_cleanup_par_def)
qed (simp_all add: inv_turn inv_dispatch inv_payload_maker inv_recv inv_deliver inv_drop_waiter inv_timer inv_store_write)

lemma inv_core_new: "mempool_inv E (mempool_core_new F name c p st maker)"
  by (simp add: mempool_inv_defs mempool_core_new_def msync_new_def)

lemma inv_reaches: "mempool_reaches E m m' \<Longrightarrow> rocksdb_ok E \<Longrightarrow> mempool_inv E m \<Longrightarrow> mempool_inv E m'"
  by (induction rule: mempool_reaches.induct) (auto intro: inv_step)

section \<open>What the operations return\<close>

lemma fold_opt_remove [simp]:
  "mp_opt_queue (fold (opt_remove E) ds m) = mp_opt_queue m |-| fset_of_list ds \<and>
   mp_pes_queue (fold (opt_remove E) ds m) = mp_pes_queue m"
  by (induction ds arbitrary: m) auto

lemma fold_pes_remove [simp]:
  "mp_pes_queue (fold (pes_remove E) ds m) = mp_pes_queue m |-| fset_of_list ds \<and>
   mp_opt_queue (fold (pes_remove E) ds m) = mp_opt_queue m"
  by (induction ds arbitrary: m) auto

definition path_queue :: "u8 \<Rightarrow> Mempool \<Rightarrow> Digest fset" where
  "path_queue tag m = (if tag = OPT then mp_opt_queue m else mp_pes_queue m)"

lemma fold_remove_alive [simp]:
  "mp_alive (fold (opt_remove E) ds m) = mp_alive m" "mp_alive (fold (pes_remove E) ds m) = mp_alive m"
  "mp_store (fold (opt_remove E) ds m) = mp_store m" "mp_store (fold (pes_remove E) ds m) = mp_store m"
  by (induction ds arbitrary: m) (simp_all add: opt_remove_def pes_remove_def)

lemma get_payload_takes:
  assumes "hash_tables_ok E" and "tag = OPT \<or> tag = PES" and "path_queue tag m \<noteq> {||}"
  shows "\<exists>m' ds. get_payload E mx tag m = (m', Ok ds) \<and>
    length ds = min (unat mx div 32) (fcard (path_queue tag m)) \<and> distinct ds \<and> set ds \<subseteq> fset (path_queue tag m) \<and>
    path_queue tag m' = path_queue tag m |-| fset_of_list ds \<and> (\<forall>t \<in> {OPT, PES} - {tag}. path_queue t m' = path_queue t m) \<and>
    mp_store m' = mp_store m"
proof -
  let ?q = "iter_digests E (path_queue tag m)"
  let ?ds = "take (unat mx div 32) ?q"
  let ?m = "fold (if tag = OPT then opt_remove E else pes_remove E) ?ds m"
  have q: "distinct ?q" "set ?q = fset (path_queue tag m)"
    using assms(1) by (auto simp: hash_tables_ok_def)
  then have "length ?q = fcard (path_queue tag m)"
    by (metis distinct_card fcard.rep_eq)
  moreover have "get_payload E mx tag m = (?m, Ok ?ds)"
    using assms(2,3) by (auto simp: get_payload_def Let_def comp_defs digest_size_def digest_default_def tag_defs path_queue_def)
  moreover have "path_queue tag ?m = path_queue tag m |-| fset_of_list ?ds" "\<forall>t \<in> {OPT, PES} - {tag}. path_queue t ?m = path_queue t m"
      "mp_store ?m = mp_store m"
    using assms(2) by (auto simp: path_queue_def tag_defs)
  ultimately show ?thesis
    using q by (intro exI [of _ ?m] exI [of _ ?ds]) (auto simp: distinct_take dest: in_set_takeD)
qed

lemma missing_of_total:
  assumes "rocksdb_ok E"
  shows "missing_of E st ds ms = Ok (ms |\<union>| fset_of_list (filter (\<lambda>d. \<not> stored E st d) ds))"
proof -
  have read: "store_read E st (digest_to_vec d) = Ok (map_of (st_db st) (digest_to_vec d))" for d
    using assms by (simp add: store_read_def rocksdb_ok_def)
  show ?thesis
    by (induction ds arbitrary: ms) (auto simp: read stored_iff)
qed

definition missing_payload :: "'z store_ext_scheme \<Rightarrow> Store \<Rightarrow> Block \<Rightarrow> Digest fset" where
  "missing_payload E st b = fset_of_list (filter (\<lambda>d. \<not> stored E st d) (b_payload b))"

lemma missing_payload_empty: "missing_payload E st b = {||} \<longleftrightarrow> (\<forall>d \<in> set (b_payload b). stored E st d)"
proof -
  have "missing_payload E st b = {||} \<longleftrightarrow> set (filter (\<lambda>d. \<not> stored E st d) (b_payload b)) = {}"
    by (metis bot_fset.rep_eq fset_inject fset_of_list.rep_eq missing_payload_def)
  then show ?thesis by auto
qed

lemma verify_payload_answer:
  assumes "rocksdb_ok E" and "ms_alive (mp_synchronizer m)"
  shows "msync_verify_payload E b tag m =
    (if missing_payload E (mp_store m) b = {||} then (m, Ok True)
     else (set_msync (\<lambda>s. s\<lparr>ms_inner_channel := ms_inner_channel s @ [Sync (missing_payload E (mp_store m) b) b tag]\<rparr>) m,
           Ok False))"
  using assms(2)
  by (simp add: msync_verify_payload_def missing_of_total [OF assms(1)] missing_payload_def comp_defs msync_send_def
      set_msync_def)

lemma driver_verify_answer:
  assumes "rocksdb_ok E" and "ms_alive (mp_synchronizer m)" and "mp_alive m"
  shows "driver_verify E b tag m =
    (if missing_payload E (mp_store m) b = {||} then (m, Ok True)
     else (set_msync (\<lambda>s. s\<lparr>ms_inner_channel := ms_inner_channel s @ [Sync (missing_payload E (mp_store m) b) b tag]\<rparr>) m,
           Ok False))"
  using assms(3) by (simp add: driver_verify_def mempool_turn_def verify_payload_answer [OF assms(1,2)])

text \<open>
  A payload of another node: the first check that fails is the answer, and then nothing changes; one that passes is
  stored and queued.
\<close>

lemma others_payload_eq:
  "handle_others_payload E p m =
    (let r = if \<not> committee_exists (mp_committee m) (pl_author p) then Err (MUnknownAuthority (pl_author p))
       else if unat (m_max_payload_size (mp_parameters m)) < payload_size p then Err PayloadTooBig
       else map_err MInvalidSignature (signature_verify E (pl_signature p) (payload_digest E p) (pl_author p));
       d = payload_digest E p
     in (if r = Ok () then pes_insert E d (opt_insert E d (m\<lparr>mp_store := store_write E (digest_to_vec d) (ser_payload E p) (mp_store m)\<rparr>))
         else m, r))"
  by (cases "signature_verify E (pl_signature p) (payload_digest E p) (pl_author p)")
    (auto simp: handle_others_payload_def comp_defs ensure_def store_payload_def Let_def not_less)

text \<open>What is stored can be asked for: the requestor is sent the payload.\<close>

lemma stored_payload_served:
  assumes "store_read E (mp_store m) (digest_to_vec d) = Ok (Some (ser_payload E p))" and "de_payload E (ser_payload E p) = Some p"
    and "mempool_address (mp_committee m) requestor = Ok a"
  shows "handle_payload_request E [d] requestor m = (m\<lparr>mp_network_channel := mp_network_channel m @ [(PayloadMsg p, [a])]\<rparr>, Ok ())"
  using assms by (simp add: handle_payload_request_def comp_defs mempool_transmit_def)

text \<open>After a clean-up up to a round no request and no pending block of that round or before is left,
  and every waiter that was pending for one has been told to stop.\<close>

lemma handle_clean_effect:
  "(\<forall>(d, r, t) \<in> set (ms_requests (msync_handle_clean rnd s)). rnd < r) \<and>
   (\<forall>(d, r, t) \<in> set (ms_pending (msync_handle_clean rnd s)). rnd < r) \<and>
   (\<forall>w \<in> set (ms_waiting (msync_handle_clean rnd s)). (\<exists>(d, r, cid) \<in> set (ms_pending s). r \<le> rnd \<and> cid = wt_id w) \<longrightarrow>
      wt_cancelled w)"
  by (auto simp: msync_handle_clean_def)

end
