(* ===== verification/Core_State.thy ===== *)
theory Core_State
  imports Mempool_Core Aggregator Leader Timer
begin

text \<open>
  The state of the consensus core and its operations that do not call handlers:
  \<open>consensus/src/core.rs\<close> up to \<open>advance_height\<close>, and \<open>consensus/src/synchronizer.rs\<close>, the actor that
  waits for missing parents. The core shares its store with the mempool, so both live in \<open>k_mempool\<close>; the channels
  it sends on are lists, newest last. Two fields are no variables of the code: \<open>k_clock\<close> is what
  \<open>Instant::now\<close> reads, and \<open>k_signed_votes\<close> records the votes for optimistic blocks the node has signed, for the
  statements about them; \<open>k_commit_log\<close> is the sequence of \<open>Committed\<close> log lines.
\<close>

section \<open>State\<close>

text \<open>The synchronizer: blocks to wait for, futures (parent awaited, block to hand back), requests and when they were made.\<close>

record Synchronizer =
  cs_inner_channel :: "Block list"
  cs_waiting :: "(Digest \<times> Block) list"
  cs_pending :: "Digest fset"
  cs_requests :: "(Digest \<times> nat) list"
  cs_alive :: bool

definition synchronizer_new :: Synchronizer where
  "synchronizer_new = \<lparr>cs_inner_channel = [], cs_waiting = [], cs_pending = {||}, cs_requests = [], cs_alive = True\<rparr>"

type_synonym FilterInput = "ConsensusMessage \<times> SocketAddr list"

type_synonym hr = "SeqNumber \<times> SeqNumber"

record Core =
  k_name :: PublicKey
  k_committee :: Committee
  k_parameters :: Parameters
  k_signature_service :: SignatureService
  k_pk_set :: PublicKeySet
  k_leader_elector :: LeaderElector
  k_mempool :: Mempool
  k_synchronizer :: Synchronizer
  k_tx_core :: "ConsensusMessage list"
  k_tx_smvba :: "ConsensusMessage list"
  k_network_filter :: "FilterInput list"
  k_network_filter_smvba :: "FilterInput list"
  k_commit_channel :: "Block list"
  k_height :: SeqNumber
  k_epoch :: SeqNumber
  k_last_voted_height :: SeqNumber
  k_last_committed_height :: SeqNumber
  k_fallback_is_invoke :: "SeqNumber \<rightharpoonup> bool"
  k_unhandle_message :: "(SeqNumber \<times> ConsensusMessage) list"
  k_high_qc :: QC
  k_timer :: Timer
  k_aggregator :: Aggregator
  k_opt_path :: bool
  k_pes_path :: bool
  k_smvba_y_flag :: "hr \<rightharpoonup> bool"
  k_smvba_n_flag :: "hr \<rightharpoonup> bool"
  k_smvba_d_flag :: "hr \<rightharpoonup> bool"
  k_spb_proposes :: "hr \<rightharpoonup> SPBValue"
  k_spb_finishs :: "hr \<rightharpoonup> (PublicKey \<times> SPBValue \<times> SPBProof) list"
  k_spb_locks :: "hr \<rightharpoonup> (PublicKey \<times> SPBValue \<times> SPBProof) list"
  k_spb_current_phase :: "hr \<rightharpoonup> u8"
  k_spb_abandon_flag :: "SeqNumber \<rightharpoonup> bool"
  k_smvba_halt_falg :: "SeqNumber \<rightharpoonup> bool"
  k_smvba_dones :: "hr \<rightharpoonup> PublicKey fset"
  k_smvba_current_round :: "SeqNumber \<rightharpoonup> SeqNumber"
  k_smvba_votes :: "hr \<rightharpoonup> PublicKey fset"
  k_smvba_no_prevotes :: "hr \<rightharpoonup> PublicKey fset"
  k_smvba_is_invoke :: "SeqNumber \<rightharpoonup> bool"
  k_prepare_tag :: "SeqNumber \<rightharpoonup> PrePare"
  k_par_prepare_opts :: "SeqNumber \<rightharpoonup> (PublicKey \<times> Signature) list"
  k_par_prepare_pess :: "SeqNumber \<rightharpoonup> (PublicKey \<times> Signature) list"
  k_fallback_length :: SeqNumber
  k_fallback_high_qc :: "hr \<rightharpoonup> QC option"
  k_clock :: nat
  k_signed_votes :: "HVote list"
  k_commit_log :: "Block list"

type_synonym 'a ccomp = "(Core, ConsensusError, 'a) comp"

abbreviation k_store :: "Core \<Rightarrow> Store" where
  "k_store s \<equiv> mp_store (k_mempool s)"

section \<open>Bookkeeping of the agreement instances\<close>

definition update_smvba_state :: "SeqNumber \<Rightarrow> SeqNumber \<Rightarrow> Core \<Rightarrow> Core" where
  "update_smvba_state height rnd s = s\<lparr>
     k_smvba_d_flag := (k_smvba_d_flag s)((height, rnd) \<mapsto> False),
     k_smvba_y_flag := (k_smvba_y_flag s)((height, rnd) \<mapsto> False),
     k_smvba_n_flag := (k_smvba_n_flag s)((height, rnd) \<mapsto> False),
     k_smvba_current_round := (k_smvba_current_round s)(height \<mapsto> rnd),
     k_spb_current_phase := (k_spb_current_phase s)((height, rnd) \<mapsto> INIT_PHASE),
     k_smvba_dones := (k_smvba_dones s)((height, rnd) \<mapsto> {||}),
     k_smvba_no_prevotes := (k_smvba_no_prevotes s)((height, rnd) \<mapsto> {||}),
     k_smvba_votes := (k_smvba_votes s)((height, rnd) \<mapsto> {||}),
     k_spb_abandon_flag := (k_spb_abandon_flag s)(height := None)\<rparr>"

definition update_prepare_state :: "SeqNumber \<Rightarrow> Core \<Rightarrow> Core" where
  "update_prepare_state height s = s\<lparr>
     k_par_prepare_opts := (k_par_prepare_opts s)(height \<mapsto> []),
     k_par_prepare_pess := (k_par_prepare_pess s)(height \<mapsto> [])\<rparr>"

definition clean_smvba_state :: "SeqNumber \<Rightarrow> Core \<Rightarrow> Core" where
  "clean_smvba_state height s = s\<lparr>
     k_smvba_d_flag := retain (\<lambda>(h, _). height < h) (k_smvba_d_flag s),
     k_smvba_y_flag := retain (\<lambda>(h, _). height < h) (k_smvba_y_flag s),
     k_smvba_n_flag := retain (\<lambda>(h, _). height < h) (k_smvba_n_flag s),
     k_spb_current_phase := retain (\<lambda>(h, _). height < h) (k_spb_current_phase s),
     k_smvba_current_round := retain (\<lambda>h. height < h) (k_smvba_current_round s),
     k_spb_proposes := retain (\<lambda>(h, _). height < h) (k_spb_proposes s),
     k_spb_finishs := retain (\<lambda>(h, _). height < h) (k_spb_finishs s),
     k_spb_locks := retain (\<lambda>(h, _). height < h) (k_spb_locks s),
     k_smvba_dones := retain (\<lambda>(h, _). height < h) (k_smvba_dones s),
     k_smvba_votes := retain (\<lambda>(h, _). height < h) (k_smvba_votes s),
     k_smvba_no_prevotes := retain (\<lambda>(h, _). height < h) (k_smvba_no_prevotes s),
     k_aggregator := cleanup_spb_vote height (cleanup_mvba_random height (k_aggregator s)),
     k_prepare_tag := retain (\<lambda>h. height < h) (k_prepare_tag s),
     k_par_prepare_opts := retain (\<lambda>h. height < h) (k_par_prepare_opts s),
     k_par_prepare_pess := retain (\<lambda>h. height < h) (k_par_prepare_pess s),
     k_spb_abandon_flag := retain (\<lambda>h. height < h) (k_spb_abandon_flag s),
     k_fallback_high_qc := retain (\<lambda>(h, _). height < h) (k_fallback_high_qc s)\<rparr>"

definition terminate_smvba :: "SeqNumber \<Rightarrow> unit ccomp" where
  "terminate_smvba height = modifyM (clean_smvba_state height)"

section \<open>Construction and epochs\<close>

definition core_new ::
    "PublicKey \<Rightarrow> Committee \<Rightarrow> Parameters \<Rightarrow> SignatureService \<Rightarrow> PublicKeySet \<Rightarrow> LeaderElector \<Rightarrow> Mempool \<Rightarrow>
     Synchronizer \<Rightarrow> bool \<Rightarrow> bool \<Rightarrow> Core" where
  "core_new name c p svc pk_set le mempool sync opt_path pes_path =
     update_prepare_state 1 (update_smvba_state 1 1 \<lparr>
       k_name = name, k_committee = c, k_parameters = p, k_signature_service = svc, k_pk_set = pk_set,
       k_leader_elector = le, k_mempool = mempool, k_synchronizer = sync,
       k_tx_core = [], k_tx_smvba = [], k_network_filter = [], k_network_filter_smvba = [],
       k_commit_channel = [], k_height = 1, k_epoch = 0, k_last_voted_height = 0, k_last_committed_height = 0,
       k_fallback_is_invoke = Map.empty, k_unhandle_message = [], k_high_qc = qc_genesis, k_timer = timer_new,
       k_aggregator = aggregator_new c, k_opt_path = opt_path, k_pes_path = pes_path,
       k_smvba_y_flag = Map.empty, k_smvba_n_flag = Map.empty, k_smvba_d_flag = Map.empty,
       k_spb_proposes = Map.empty, k_spb_finishs = Map.empty, k_spb_locks = Map.empty,
       k_spb_current_phase = Map.empty, k_spb_abandon_flag = Map.empty, k_smvba_halt_falg = Map.empty,
       k_smvba_dones = Map.empty, k_smvba_current_round = Map.empty, k_smvba_votes = Map.empty,
       k_smvba_no_prevotes = Map.empty, k_smvba_is_invoke = Map.empty, k_prepare_tag = Map.empty,
       k_par_prepare_opts = Map.empty, k_par_prepare_pess = Map.empty, k_fallback_length = fallback_length p,
       k_fallback_high_qc = Map.empty, k_clock = 0, k_signed_votes = [], k_commit_log = []\<rparr>)"

definition epoch_init :: "SeqNumber \<Rightarrow> Core \<Rightarrow> Core" where
  "epoch_init epoch s = update_prepare_state 1 (update_smvba_state 1 1 (s\<lparr>
     k_leader_elector := leader_elector_new (k_committee s) (leader_window (k_parameters s)),
     k_aggregator := aggregator_new (k_committee s),
     k_height := 1, k_epoch := epoch, k_high_qc := qc_genesis, k_timer := timer_new,
     k_last_voted_height := 0, k_last_committed_height := 0,
     k_fallback_is_invoke := Map.empty,
     k_smvba_y_flag := Map.empty, k_smvba_n_flag := Map.empty, k_smvba_d_flag := Map.empty,
     k_spb_proposes := Map.empty, k_spb_finishs := Map.empty, k_spb_locks := Map.empty,
     k_spb_current_phase := Map.empty, k_spb_abandon_flag := Map.empty, k_smvba_halt_falg := Map.empty,
     k_smvba_current_round := Map.empty, k_smvba_dones := Map.empty, k_smvba_votes := Map.empty,
     k_smvba_no_prevotes := Map.empty, k_smvba_is_invoke := Map.empty, k_prepare_tag := Map.empty,
     k_par_prepare_opts := Map.empty, k_par_prepare_pess := Map.empty, k_fallback_high_qc := Map.empty\<rparr>))"

section \<open>Calls of other actors\<close>

definition in_mempool :: "(Mempool \<Rightarrow> Mempool \<times> 'a ConsensusResult) \<Rightarrow> 'a ccomp" where
  "in_mempool f = (\<lambda>s. case f (k_mempool s) of (m, r) \<Rightarrow> (s\<lparr>k_mempool := m\<rparr>, r))"

definition store_block :: "'z node_ext_scheme \<Rightarrow> Block \<Rightarrow> unit ccomp" where
  "store_block E block = in_mempool (\<lambda>m.
     (m\<lparr>mp_store := store_write E (digest_to_vec (block_digest E block)) (ser_block E block) (mp_store m)\<rparr>, Ok ()))"

text \<open>
  \<open>Synchronizer::transmit\<close>. Its callers pass the channel that goes with the tag: \<open>network_filter\<close> with
  \<open>OPT\<close>, \<open>network_filter_smvba\<close> with \<open>PES\<close>.
\<close>

definition transmit_addresses :: "Committee \<Rightarrow> PublicKey \<Rightarrow> PublicKey option \<Rightarrow> u8 \<Rightarrow> SocketAddr list ConsensusResult" where
  "transmit_addresses c from to tag =
     (case to of
        Some t \<Rightarrow> rbind (if tag = OPT then address c t else smvba_address c t) (\<lambda>a. Ok [a])
      | None \<Rightarrow> Ok (if tag = OPT then broadcast_addresses c from else smvba_broadcast_addresses c from))"

definition transmit :: "ConsensusMessage \<Rightarrow> PublicKey option \<Rightarrow> u8 \<Rightarrow> unit ccomp" where
  "transmit message to tag = readM (\<lambda>s.
     bindM (liftR (transmit_addresses (k_committee s) (k_name s) to tag)) (\<lambda>addresses.
     modifyM (\<lambda>s. if tag = OPT
       then s\<lparr>k_network_filter := k_network_filter s @ [(message, addresses)]\<rparr>
       else s\<lparr>k_network_filter_smvba := k_network_filter_smvba s @ [(message, addresses)]\<rparr>)))"

definition set_timer :: "u64 option \<Rightarrow> Core \<Rightarrow> Core" where
  "set_timer d s = s\<lparr>k_timer := fst (timer_reset (k_clock s) d (k_timer s))\<rparr>"

section \<open>Ancestors\<close>

definition request_parent :: "Block \<Rightarrow> Core \<Rightarrow> Core" where
  "request_parent block s = s\<lparr>k_synchronizer := (k_synchronizer s)\<lparr>cs_inner_channel :=
     cs_inner_channel (k_synchronizer s) @ [block]\<rparr>\<rparr>"

definition read_block :: "'z node_ext_scheme \<Rightarrow> Store \<Rightarrow> Digest \<Rightarrow> Block option ConsensusResult" where
  "read_block E st d =
     rbind (map_err StoreFailure (store_read E st (digest_to_vec d))) (\<lambda>r. case r of
       Some bytes \<Rightarrow> rbind (ok_or (SerializationError ''deserialize'') (de_block E bytes)) (\<lambda>b. Ok (Some b))
     | None \<Rightarrow> Ok None)"

definition get_parent_block :: "'z node_ext_scheme \<Rightarrow> Block \<Rightarrow> Block option ccomp" where
  "get_parent_block E block = readM (\<lambda>s.
     if qc_eq (b_qc block) qc_genesis then ret (Some block_genesis)
     else bindM (liftR (read_block E (k_store s) (block_parent block))) (\<lambda>r. case r of
       Some b \<Rightarrow> ret (Some b)
     | None \<Rightarrow> if cs_alive (k_synchronizer s)
               then bindM (modifyM (request_parent block)) (\<lambda>_. ret None)
               else liftR Panic))"

definition get_ancestors :: "'z node_ext_scheme \<Rightarrow> Block \<Rightarrow> (Block \<times> Block) option ccomp" where
  "get_ancestors E block = bindM (get_parent_block E block) (\<lambda>r. case r of
     None \<Rightarrow> ret None
   | Some b1 \<Rightarrow> bindM (get_parent_block E b1) (\<lambda>r. case r of
       None \<Rightarrow> liftR Panic
     | Some b0 \<Rightarrow> ret (Some (b0, b1))))"

section \<open>Proposals, commits and heights\<close>

definition generate_proposal ::
    "'z node_ext_scheme \<Rightarrow> SeqNumber \<Rightarrow> SeqNumber \<Rightarrow> QC option \<Rightarrow> u8 \<Rightarrow> Block ccomp" where
  "generate_proposal E height rnd qc tag = readM (\<lambda>s.
     bindM (in_mempool (driver_get E (max_payload_size (k_parameters s)) tag)) (\<lambda>payload.
     liftR (block_new E (k_signature_service s) (case qc of Some q \<Rightarrow> q | None \<Rightarrow> qc_genesis)
       (k_name s) height (k_epoch s) rnd payload tag)))"

text \<open>
  The loop of \<open>commit\<close>. It follows the parents in the store, which never contains more
  than \<open>length (st_db st)\<close> keys: a walk of \<open>length (st_db st) + 2\<close> steps that has not ended has met a block
  twice. The fuel chosen in \<open>commit\<close> is that number.
\<close>

definition commit_block :: "'z node_ext_scheme \<Rightarrow> Block \<Rightarrow> unit ccomp" where
  "commit_block E b = whenM (\<lambda>_. b_payload b \<noteq> []) (stmts
     [modifyM (\<lambda>s. s\<lparr>k_commit_log := k_commit_log s @ [b]\<rparr>),
      in_mempool (driver_cleanup_par E b)])"

fun commit_loop :: "'z node_ext_scheme \<Rightarrow> nat \<Rightarrow> Block \<Rightarrow> unit ccomp" where
  "commit_loop E 0 current_block = liftR OutOfFuel"
| "commit_loop E (Suc fuel) current_block =
     whenM (\<lambda>s. k_last_committed_height s < b_height current_block) (stmts
       [commit_block E current_block,
        bindM (get_parent_block E current_block) (\<lambda>r. case r of
          Some parent \<Rightarrow> commit_loop E fuel parent
        | None \<Rightarrow> ret ())])"

definition commit :: "'z node_ext_scheme \<Rightarrow> Block \<Rightarrow> unit ccomp" where
  "commit E block = readM (\<lambda>s. commit_loop E (length (st_db (k_store s)) + 2) block)"

text \<open>What the three callers of \<open>commit\<close> do: walk the ancestors, move the height, announce the block.\<close>

definition commit_and_send :: "'z node_ext_scheme \<Rightarrow> Block \<Rightarrow> unit ccomp" where
  "commit_and_send E b = stmts
     [commit E b,
      modifyM (\<lambda>s. s\<lparr>k_last_committed_height := b_height b, k_commit_channel := k_commit_channel s @ [b]\<rparr>)]"

definition commit_if_new :: "'z node_ext_scheme \<Rightarrow> Block \<Rightarrow> unit ccomp" where
  "commit_if_new E b = whenM (\<lambda>s. k_last_committed_height s < b_height b) (commit_and_send E b)"

definition update_high_qc :: "QC \<Rightarrow> Core \<Rightarrow> Core" where
  "update_high_qc qc s = (if qc_height (k_high_qc s) < qc_height qc then s\<lparr>k_high_qc := qc\<rparr> else s)"

definition advance_height :: "SeqNumber \<Rightarrow> Core \<Rightarrow> Core" where
  "advance_height height s =
     (if height < k_height s then s
      else let s1 = s\<lparr>k_aggregator := cleanup_hs_vote (k_height s) (k_aggregator s), k_height := height + 1\<rparr>
           in update_smvba_state (k_height s1) 1 (update_prepare_state (k_height s1) s1))"

definition process_qc :: "QC \<Rightarrow> unit ccomp" where
  "process_qc qc = stmts [modifyM (advance_height (qc_height qc)), modifyM (update_high_qc qc)]"

definition increase_last_voted_round :: "SeqNumber \<Rightarrow> Core \<Rightarrow> Core" where
  "increase_last_voted_round target s = s\<lparr>k_last_voted_height := max (k_last_voted_height s) target\<rparr>"

definition handle_sync_request :: "'z node_ext_scheme \<Rightarrow> Digest \<Rightarrow> PublicKey \<Rightarrow> unit ccomp" where
  "handle_sync_request E digest sender = readM (\<lambda>s.
     bindM (liftR (read_block E (k_store s) digest)) (\<lambda>r. case r of
       Some block \<Rightarrow> transmit (SyncReply block) (Some sender) OPT
     | None \<Rightarrow> ret ()))"

definition is_optmistic :: "Core \<Rightarrow> bool" where
  "is_optmistic s \<longleftrightarrow> \<not> ddos (k_parameters s) \<and> \<not> random_ddos (k_parameters s)"

section \<open>The synchronizer's loop\<close>

definition csync_guard :: "unit ccomp \<Rightarrow> Core \<Rightarrow> Core" where
  "csync_guard h s = (case h s of
     (s', Ok _) \<Rightarrow> s'
   | (s', _) \<Rightarrow> s'\<lparr>k_synchronizer := (k_synchronizer s')\<lparr>cs_alive := False\<rparr>\<rparr>)"

definition csync_wait :: "'z crypto_ext_scheme \<Rightarrow> Block \<Rightarrow> Synchronizer \<Rightarrow> Synchronizer" where
  "csync_wait E block y = y\<lparr>cs_pending := finsert (block_digest E block) (cs_pending y),
     cs_waiting := cs_waiting y @ [(block_parent block, block)]\<rparr>"

definition csync_recv :: "'z crypto_ext_scheme \<Rightarrow> Core \<Rightarrow> Core" where
  "csync_recv E s = (case cs_inner_channel (k_synchronizer s) of
     [] \<Rightarrow> s
   | block # blocks \<Rightarrow>
       (let s1 = s\<lparr>k_synchronizer := (k_synchronizer s)\<lparr>cs_inner_channel := blocks\<rparr>\<rparr>
        in if block_digest E block |\<in>| cs_pending (k_synchronizer s1) then s1
           else let s2 = s1\<lparr>k_synchronizer := csync_wait E block (k_synchronizer s1)\<rparr>;
                    parent = block_parent block
                in if map_of (cs_requests (k_synchronizer s2)) parent \<noteq> None then s2
                   else csync_guard (transmit (SyncRequest parent (k_name s2)) None OPT)
                     (s2\<lparr>k_synchronizer := (k_synchronizer s2)\<lparr>cs_requests :=
                        AList.update parent (k_clock s2) (cs_requests (k_synchronizer s2))\<rparr>\<rparr>)))"

definition csync_deliver :: "'z crypto_ext_scheme \<Rightarrow> nat \<Rightarrow> Core \<Rightarrow> Core" where
  "csync_deliver E i s =
     (let y = k_synchronizer s; (parent, block) = cs_waiting y ! i
      in s\<lparr>k_synchronizer := y\<lparr>cs_waiting := take i (cs_waiting y) @ drop (Suc i) (cs_waiting y),
              cs_pending := cs_pending y |-| {|block_digest E block|},
              cs_requests := AList.delete (block_parent block) (cs_requests y)\<rparr>,
           k_tx_core := k_tx_core s @ [HsLoopBack block]\<rparr>)"

text \<open>A future whose read fails is dropped and logged; the block stays pending.\<close>

definition csync_fail :: "nat \<Rightarrow> Core \<Rightarrow> Core" where
  "csync_fail i s =
     (let y = k_synchronizer s
      in s\<lparr>k_synchronizer := y\<lparr>cs_waiting := take i (cs_waiting y) @ drop (Suc i) (cs_waiting y)\<rparr>\<rparr>)"

text \<open>The timer repeats the requests that are older than the retry delay, in the order of the map.\<close>

definition csync_timer :: "Core \<Rightarrow> Core" where
  "csync_timer s =
     csync_guard (forM (cs_requests (k_synchronizer s)) (\<lambda>(digest, timestamp).
       whenM (\<lambda>s. timestamp + unat (sync_retry_delay (k_parameters s)) < k_clock s)
         (transmit (SyncRequest digest (k_name s)) None OPT))) s"

end
