(* ===== verification/Core_Handlers.thy ===== *)
theory Core_Handlers
  imports Core_State
begin

text \<open>
  The handlers of the consensus core (\<open>consensus/src/core.rs\<close> from \<open>opt_propose\<close> on). They call
  each other recursively, a node handling its own messages at once. The recursion is opened at five
  calls, the constructors of \<open>call\<close>: every handler gets what these do as an argument \<open>call\<close> and
  stands after the handlers it calls directly. \<open>exec\<close> ties the knot with a bound on the depth of these calls; a
  recursion that is deeper gives \<open>OutOfFuel\<close>. The order of the file is therefore the reverse of the code's: agreement
  first, then prepare, fallback and the optimistic path.
\<close>

datatype call =
    OptProposeCall
  | InvokeFallbackCall SeqNumber "QC option"
  | BroadcastFallbackProposeCall Block
  | BroadcastPesProposeCall SPBValue SPBProof
  | InvokeDoneAndShareCall SeqNumber SeqNumber

section \<open>Filters\<close>

definition fallback_message_filter :: "SeqNumber \<Rightarrow> SeqNumber \<Rightarrow> Core \<Rightarrow> bool" where
  "fallback_message_filter epoch height s \<longleftrightarrow> \<not> (height + 2 \<le> k_height s \<or> epoch < k_epoch s)"

definition smvba_msg_filter :: "SeqNumber \<Rightarrow> SeqNumber \<Rightarrow> SeqNumber \<Rightarrow> u8 \<Rightarrow> Core \<Rightarrow> bool" where
  "smvba_msg_filter epoch height rnd phase s \<longleftrightarrow>
     (if epoch < k_epoch s then False else if height + 2 \<le> k_height s then False else True)"

text \<open>The checks that are made only when the parameter \<open>exp\<close> is 1.\<close>

definition exp_check :: "(Core \<Rightarrow> unit ConsensusResult) \<Rightarrow> unit ccomp" where
  "exp_check f = whenM (\<lambda>s. exp_checks (k_parameters s) = 1) (readM (\<lambda>s. liftR (f s)))"

text \<open>A message of a later epoch is kept for then, and ends the current epoch.\<close>

definition park_message :: "SeqNumber \<Rightarrow> ConsensusMessage \<Rightarrow> unit ccomp" where
  "park_message e msg = whenM (\<lambda>s. k_epoch s < e) (stmts
     [modifyM (\<lambda>s. s\<lparr>k_unhandle_message := k_unhandle_message s @ [(e, msg)]\<rparr>),
      readM (\<lambda>s. liftR (Err (EpochEnd (k_epoch s))))])"

section \<open>Output of an agreement\<close>

text \<open>The end of the epoch when the block is a new one of the pessimistic path.\<close>

definition output_block :: "'z node_ext_scheme \<Rightarrow> Block \<Rightarrow> unit ccomp" where
  "output_block E block = whenM (\<lambda>s. k_last_committed_height s < b_height block) (stmts
     [commit_and_send E block,
      whenM (\<lambda>_. b_tag block = PES) (readM (\<lambda>s. liftR (Err (EpochEnd (k_epoch s)))))])"

definition process_par_out :: "'z node_ext_scheme \<Rightarrow> (call \<Rightarrow> unit ccomp) \<Rightarrow> Block \<Rightarrow> unit ccomp" where
  "process_par_out E call block =
     unlessM (\<lambda>s. b_epoch block < k_epoch s \<or> b_height block + 2 \<le> k_height s)
     (if b_tag block = OPT then call (InvokeFallbackCall (b_height block + 1) None)
      else stmts
        [store_block E block,
         output_block E block,
         in_mempool (driver_cleanup_par E block)])"

definition handle_smvba_halt :: "'z node_ext_scheme \<Rightarrow> (call \<Rightarrow> unit ccomp) \<Rightarrow> MHalt \<Rightarrow> unit ccomp" where
  "handle_smvba_halt E call halt = stmts
     [ensureM (smvba_msg_filter (mh_epoch halt) (mh_height halt) (mh_round halt) FIN_PHASE)
        (TimeOutMessage (mh_height halt) (mh_round halt)),
      exp_check (\<lambda>s. mhalt_verify E (k_committee s) (k_pk_set s) (k_fallback_length s) halt),
      unlessM (\<lambda>s. get_coin_leader (k_leader_elector s) (mh_height halt) (mh_round halt) \<noteq>
                     Some (b_author (sv_block (mh_value halt)))) (stmts
        [modifyM (\<lambda>s. s\<lparr>k_smvba_halt_falg := or_insert (k_smvba_halt_falg s) (mh_height halt) False\<rparr>),
         unlessM (\<lambda>s. entry_or (k_smvba_halt_falg s) (mh_height halt) False) (stmts
           [modifyM (\<lambda>s. s\<lparr>k_smvba_halt_falg := (k_smvba_halt_falg s)(mh_height halt \<mapsto> True)\<rparr>),
            bindM (in_mempool (driver_verify E (sv_block (mh_value halt)) PES)) (\<lambda>present.
              unlessM (\<lambda>_. \<not> present) (process_par_out E call (sv_block (mh_value halt))))])])]"

section \<open>Voting of an agreement\<close>

text \<open>\<open>.expect(..)\<close> on a result, and \<open>let _ =\<close> of one.\<close>

definition expectM :: "unit ccomp \<Rightarrow> unit ccomp" where
  "expectM h = (\<lambda>s. case h s of (s', Err e) \<Rightarrow> (s', Panic) | r \<Rightarrow> r)"

definition ignore_err :: "unit ccomp \<Rightarrow> unit ccomp" where
  "ignore_err h = (\<lambda>s. case h s of (s', Err e) \<Rightarrow> (s', Ok ()) | r \<Rightarrow> r)"

definition smvba_round_advance ::
    "'z node_ext_scheme \<Rightarrow> (call \<Rightarrow> unit ccomp) \<Rightarrow> SeqNumber \<Rightarrow> SeqNumber \<Rightarrow> unit ccomp" where
  "smvba_round_advance E call height rnd = stmts
     [modifyM (update_smvba_state height rnd),
      readM (\<lambda>s. case k_spb_proposes s (height, 1) of
        None \<Rightarrow> ret ()
      | Some last_value \<Rightarrow>
          bindM (generate_proposal E height (k_fallback_length s + 1) (Some (b_qc (sv_block last_value))) PES) (\<lambda>block.
          expectM (call (BroadcastPesProposeCall
            (spbvalue_new block rnd INIT_PHASE (sv_val last_value) (sv_signatures last_value))
            \<lparr>pf_phase = INIT_PHASE, pf_round = rnd, pf_height = height, pf_shares = []\<rparr>))))]"

text \<open>A final proof is announced and handled by its maker.\<close>

definition announce_halt ::
    "'z node_ext_scheme \<Rightarrow> (call \<Rightarrow> unit ccomp) \<Rightarrow> PublicKey \<Rightarrow> SPBValue \<Rightarrow> SPBProof \<Rightarrow> unit ccomp" where
  "announce_halt E call leader val pf = readM (\<lambda>s.
     bindM (liftR (mhalt_new E (k_signature_service s) (k_name s) leader val pf)) (\<lambda>mhalt. stmts
       [transmit (SMVBAHalt mhalt) None PES,
        handle_smvba_halt E call mhalt]))"

definition in_aggregator :: "(Aggregator \<Rightarrow> Aggregator \<times> 'a ConsensusResult) \<Rightarrow> 'a ccomp" where
  "in_aggregator f = (\<lambda>s. case f (k_aggregator s) of (a, r) \<Rightarrow> (s\<lparr>k_aggregator := a\<rparr>, r))"

definition count_stake :: "PublicKey fset \<Rightarrow> Stake" where
  "count_stake S = word_of_nat (fcard S)"

definition handle_smvba_mvote :: "'z node_ext_scheme \<Rightarrow> (call \<Rightarrow> unit ccomp) \<Rightarrow> MVote \<Rightarrow> unit ccomp" where
  "handle_smvba_mvote E call mvote =
     (let k = (mv_height mvote, mv_round mvote);
          advance = whenM (\<lambda>s. count_stake (entry_or (k_smvba_votes s) k {||}) = quorum_threshold (k_committee s))
                      (smvba_round_advance E call (mv_height mvote) (mv_round mvote + 1))
      in stmts
        [ensureM (smvba_msg_filter (mv_epoch mvote) (mv_height mvote) (mv_round mvote) FIN_PHASE)
           (TimeOutMessage (mv_height mvote) (mv_round mvote)),
         exp_check (\<lambda>s. mvote_verify E (k_committee s) (k_pk_set s) (k_fallback_length s) mvote),
         modifyM (\<lambda>s. s\<lparr>k_smvba_votes := (k_smvba_votes s)(k \<mapsto>
           finsert (mv_author mvote) (entry_or (k_smvba_votes s) k {||}))\<rparr>),
         (case mv_tag mvote of
            MVoteYes val _ vote \<Rightarrow> bindM (in_aggregator (add_pre_vote vote)) (\<lambda>r. case r of
              Some fin_proof \<Rightarrow> announce_halt E call (mv_leader mvote) val fin_proof
            | None \<Rightarrow> advance)
          | MVoteNo \<Rightarrow> advance)])"

definition make_spb_vote :: "'z node_ext_scheme \<Rightarrow> SPBValue \<Rightarrow> SPBVote option ccomp" where
  "make_spb_vote E val = readM (\<lambda>s.
     if LOCK_PHASE < sv_phase val then ret None
     else bindM (liftR (spbvote_new E (k_signature_service s) val (k_name s))) (\<lambda>v. ret (Some v)))"

text \<open>The vote a prevote leads to: none when a flag is up already, else by the kind of the prevote.\<close>

definition prevote_answer :: "'z node_ext_scheme \<Rightarrow> MPreVote \<Rightarrow> MVote option ccomp" where
  "prevote_answer E prevote =
     (let k = (pv_height prevote, pv_round prevote);
          new_vote = (\<lambda>tag. readM (\<lambda>s. bindM (liftR (mvote_new E (k_signature_service s) (k_name s)
              (pv_leader prevote) (pv_round prevote) (pv_height prevote) (pv_epoch prevote) tag)) (\<lambda>v. ret (Some v))))
      in readM (\<lambda>s.
        if entry_or (k_smvba_y_flag s) k False \<or> entry_or (k_smvba_n_flag s) k False then ret None
        else (case pv_tag prevote of
          PreVoteYes val pf \<Rightarrow>
            bindM (modifyM (\<lambda>s. s\<lparr>k_smvba_y_flag := (k_smvba_y_flag s)(k \<mapsto> True)\<rparr>)) (\<lambda>_.
            bindM (make_spb_vote E val) (\<lambda>r. case r of
              Some vote \<Rightarrow> new_vote (MVoteYes val pf vote)
            | None \<Rightarrow> ret None))
        | PreVoteNo \<Rightarrow>
            bindM (modifyM (\<lambda>s. s\<lparr>k_smvba_no_prevotes := (k_smvba_no_prevotes s)(k \<mapsto>
                finsert (pv_author prevote) (entry_or (k_smvba_no_prevotes s) k {||}))\<rparr>)) (\<lambda>_.
            readM (\<lambda>s.
              if count_stake (entry_or (k_smvba_no_prevotes s) k {||}) = quorum_threshold (k_committee s)
              then bindM (modifyM (\<lambda>s. s\<lparr>k_smvba_n_flag := (k_smvba_n_flag s)(k \<mapsto> True)\<rparr>)) (\<lambda>_. new_vote MVoteNo)
              else ret None)))))"

definition handle_smvba_prevote :: "'z node_ext_scheme \<Rightarrow> (call \<Rightarrow> unit ccomp) \<Rightarrow> MPreVote \<Rightarrow> unit ccomp" where
  "handle_smvba_prevote E call prevote =
     (let k = (pv_height prevote, pv_round prevote) in stmts
        [ensureM (smvba_msg_filter (pv_epoch prevote) (pv_height prevote) (pv_round prevote) FIN_PHASE)
           (TimeOutMessage (pv_height prevote) (pv_round prevote)),
         exp_check (\<lambda>s. mprevote_verify E (k_committee s) (k_fallback_length s) prevote),
         modifyM (\<lambda>s. s\<lparr>k_smvba_y_flag := or_insert (k_smvba_y_flag s) k False,
                        k_smvba_n_flag := or_insert (k_smvba_n_flag s) k False\<rparr>),
         bindM (prevote_answer E prevote) (\<lambda>mvote. case mvote of
           Some vote \<Rightarrow> stmts [transmit (SMVBAVote vote) None PES, handle_smvba_mvote E call vote]
         | None \<Rightarrow> ret ())])"

section \<open>Done messages and the random coin\<close>

definition new_prevote :: "'z node_ext_scheme \<Rightarrow> PublicKey \<Rightarrow> SeqNumber \<Rightarrow> SeqNumber \<Rightarrow> SeqNumber \<Rightarrow> PreVoteTag \<Rightarrow> MPreVote ccomp" where
  "new_prevote E leader rnd height epoch tag = readM (\<lambda>s.
     liftR (mprevote_new E (k_signature_service s) (k_name s) leader rnd height epoch tag))"

text \<open>A share of a coin that is not known yet; the coin it completes is recorded.\<close>

definition toss_coin :: "'z node_ext_scheme \<Rightarrow> RandomnessShare \<Rightarrow> RandomCoin option ccomp" where
  "toss_coin E share = readM (\<lambda>s.
     if get_coin_leader (k_leader_elector s) (rs_height share) (rs_round share) \<noteq> None then ret None
     else bindM (in_aggregator (add_smvba_random E (k_pk_set s) share)) (\<lambda>r. case r of
       Some coin \<Rightarrow> bindM (modifyM (\<lambda>s. s\<lparr>k_leader_elector := add_random_coin coin (k_leader_elector s)\<rparr>)) (\<lambda>_. ret (Some coin))
     | None \<Rightarrow> ret None))"

text \<open>What follows a coin: a halt with the leader's finished value, else a prevote with its locked value or without one.\<close>

definition after_coin :: "'z node_ext_scheme \<Rightarrow> (call \<Rightarrow> unit ccomp) \<Rightarrow> SeqNumber \<Rightarrow> SeqNumber \<Rightarrow> RandomCoin \<Rightarrow> unit ccomp" where
  "after_coin E call height rnd coin =
     (let k = (rc_height coin, rc_round coin); leader = rc_leader coin in stmts
        [modifyM (\<lambda>s. s\<lparr>k_spb_finishs := or_insert (k_spb_finishs s) k []\<rparr>),
         readM (\<lambda>s. case map_of (entry_or (k_spb_finishs s) k []) leader of
           Some (val, pf) \<Rightarrow> announce_halt E call leader val pf
         | None \<Rightarrow>
             bindM (new_prevote E leader rnd height (rc_epoch coin) PreVoteNo) (\<lambda>no_vote.
             bindM (modifyM (\<lambda>s. s\<lparr>k_spb_locks := or_insert (k_spb_locks s) k []\<rparr>)) (\<lambda>_.
             bindM (readM (\<lambda>s. case map_of (entry_or (k_spb_locks s) k []) leader of
                 Some (val, pf) \<Rightarrow> new_prevote E leader rnd height (rc_epoch coin) (PreVoteYes val pf)
               | None \<Rightarrow> ret no_vote)) (\<lambda>pre_vote. stmts
             [transmit (SMVBAPreVote pre_vote) None PES,
              handle_smvba_prevote E call pre_vote]))))])"

definition handle_smvba_rs :: "'z node_ext_scheme \<Rightarrow> (call \<Rightarrow> unit ccomp) \<Rightarrow> RandomnessShare \<Rightarrow> unit ccomp" where
  "handle_smvba_rs E call share = stmts
     [ensureM (smvba_msg_filter (rs_epoch share) (rs_height share) (rs_round share) FIN_PHASE)
        (TimeOutMessage (rs_height share) (rs_round share)),
      exp_check (\<lambda>s. share_verify E (k_committee s) (k_pk_set s) share),
      bindM (toss_coin E share) (\<lambda>r. case r of
        Some coin \<Rightarrow> after_coin E call (rs_height share) (rs_round share) coin
      | None \<Rightarrow> ret ())]"

definition handle_smvba_done :: "'z node_ext_scheme \<Rightarrow> (call \<Rightarrow> unit ccomp) \<Rightarrow> MDoneAndShare \<Rightarrow> unit ccomp" where
  "handle_smvba_done E call mdone =
     (let k = (md_height mdone, md_round mdone) in stmts
        [ensureM (smvba_msg_filter (md_epoch mdone) (md_height mdone) (md_round mdone) FIN_PHASE)
           (TimeOutMessage (md_height mdone) (md_round mdone)),
         exp_check (\<lambda>s. mdone_verify E (k_committee s) (k_pk_set s) mdone),
         modifyM (\<lambda>s. s\<lparr>k_smvba_d_flag := or_insert (k_smvba_d_flag s) k False,
           k_smvba_dones := (k_smvba_dones s)(k \<mapsto> finsert (md_author mdone) (entry_or (k_smvba_dones s) k {||}))\<rparr>),
         readM (\<lambda>s. let weight = count_stake (entry_or (k_smvba_dones s) k {||}) in
           if \<not> entry_or (k_smvba_d_flag s) k False \<and> weight = random_coin_threshold (k_committee s)
           then stmts
             [modifyM (\<lambda>s. s\<lparr>k_smvba_d_flag := (k_smvba_d_flag s)(k \<mapsto> True)\<rparr>),
              call (InvokeDoneAndShareCall (md_height mdone) (md_round mdone))]
           else whenM (\<lambda>_. weight = quorum_threshold (k_committee s))
             (modifyM (\<lambda>s. s\<lparr>k_spb_abandon_flag := (k_spb_abandon_flag s)(md_height mdone \<mapsto> True)\<rparr>)))])"

definition handle_smvba_done_with_share :: "'z node_ext_scheme \<Rightarrow> (call \<Rightarrow> unit ccomp) \<Rightarrow> MDoneAndShare \<Rightarrow> unit ccomp" where
  "handle_smvba_done_with_share E call mdone = stmts
     [handle_smvba_done E call mdone,
      handle_smvba_rs E call (md_share mdone)]"

definition invoke_done_and_share ::
    "'z node_ext_scheme \<Rightarrow> (call \<Rightarrow> unit ccomp) \<Rightarrow> SeqNumber \<Rightarrow> SeqNumber \<Rightarrow> unit ccomp" where
  "invoke_done_and_share E call height rnd = readM (\<lambda>s.
     bindM (liftR (share_new E (k_signature_service s) height (k_epoch s) rnd (k_name s))) (\<lambda>share.
     bindM (liftR (mdone_new E (k_signature_service s) (k_name s) (k_epoch s) height rnd share)) (\<lambda>mdone. stmts
       [transmit (SPBDoneAndShare mdone) None PES,
        handle_smvba_done_with_share E call mdone])))"

section \<open>Strong provable broadcast\<close>

definition handle_spb_finish ::
    "'z node_ext_scheme \<Rightarrow> (call \<Rightarrow> unit ccomp) \<Rightarrow> SPBValue \<Rightarrow> SPBProof \<Rightarrow> unit ccomp" where
  "handle_spb_finish E call val pf =
     (let k = (pf_height pf, pf_round pf) in stmts
        [ensureM (smvba_msg_filter (b_epoch (sv_block val)) (pf_height pf) (pf_round pf) (pf_phase pf))
           (TimeOutMessage (pf_height pf) (pf_round pf)),
         exp_check (\<lambda>s. spbvalue_verify E (k_committee s) pf (k_fallback_length s) val),
         modifyM (\<lambda>s. s\<lparr>k_spb_finishs := (k_spb_finishs s)(k \<mapsto>
             AList.update (b_author (sv_block val)) (val, pf) (entry_or (k_spb_finishs s) k [])),
           k_smvba_d_flag := or_insert (k_smvba_d_flag s) k False\<rparr>),
         unlessM (\<lambda>s. entry_or (k_smvba_d_flag s) k False)
           (whenM (\<lambda>s. word_of_nat (length (entry_or (k_spb_finishs s) k [])) = quorum_threshold (k_committee s)) (stmts
             [modifyM (\<lambda>s. s\<lparr>k_smvba_d_flag := (k_smvba_d_flag s)(k \<mapsto> True)\<rparr>),
              invoke_done_and_share E call (pf_height pf) (pf_round pf)]))])"

definition handle_spb_vote :: "'z node_ext_scheme \<Rightarrow> (call \<Rightarrow> unit ccomp) \<Rightarrow> SPBVote \<Rightarrow> unit ccomp" where
  "handle_spb_vote E call spb_vote = stmts
     [ensureM (smvba_msg_filter (sp_epoch spb_vote) (sp_height spb_vote) (sp_round spb_vote) (sp_phase spb_vote))
        (TimeOutMessage (sp_height spb_vote) (sp_round spb_vote)),
      exp_check (\<lambda>s. spbvote_verify E (k_committee s) spb_vote),
      bindM (in_aggregator (add_spb_vote spb_vote)) (\<lambda>r. case r of
        None \<Rightarrow> ret ()
      | Some pf \<Rightarrow> readM (\<lambda>s.
          bindM (liftR (unwrap (k_spb_proposes s (pf_height pf, pf_round pf)))) (\<lambda>val.
          if pf_phase pf = LOCK_PHASE then call (BroadcastPesProposeCall (val\<lparr>sv_phase := LOCK_PHASE\<rparr>) pf)
          else if pf_phase pf = FIN_PHASE then stmts
            [transmit (SPBFinsh (val\<lparr>sv_phase := FIN_PHASE\<rparr>) pf) None PES,
             handle_spb_finish E call (val\<lparr>sv_phase := FIN_PHASE\<rparr>) pf]
          else ret ())))]"

definition process_spb_propose ::
    "'z node_ext_scheme \<Rightarrow> (call \<Rightarrow> unit ccomp) \<Rightarrow> SPBValue \<Rightarrow> SPBProof \<Rightarrow> unit ccomp" where
  "process_spb_propose E call val pf =
     (let k = (b_height (sv_block val), sv_round val) in stmts
        [whenM (\<lambda>_. sv_phase val = LOCK_PHASE) (modifyM (\<lambda>s. s\<lparr>k_spb_locks := (k_spb_locks s)(k \<mapsto>
             AList.update (b_author (sv_block val)) (val, pf) (entry_or (k_spb_locks s) k []))\<rparr>)),
         bindM (make_spb_vote E val) (\<lambda>r. case r of
           None \<Rightarrow> ret ()
         | Some spb_vote \<Rightarrow> readM (\<lambda>s.
             if k_name s \<noteq> b_author (sv_block val)
             then transmit (SPBVoteMsg spb_vote) (Some (b_author (sv_block val))) PES
             else handle_spb_vote E call spb_vote))])"

definition broadcast_pes_propose ::
    "'z node_ext_scheme \<Rightarrow> (call \<Rightarrow> unit ccomp) \<Rightarrow> SPBValue \<Rightarrow> SPBProof \<Rightarrow> unit ccomp" where
  "broadcast_pes_propose E call val pf = stmts
     [whenM (\<lambda>_. pf_phase pf = INIT_PHASE) (modifyM (\<lambda>s. s\<lparr>k_spb_proposes :=
        (k_spb_proposes s)((b_height (sv_block val), sv_round val) \<mapsto> val)\<rparr>)),
      transmit (SPBPropose val pf) None PES,
      process_spb_propose E call val pf]"

definition handle_spb_proposal ::
    "'z node_ext_scheme \<Rightarrow> (call \<Rightarrow> unit ccomp) \<Rightarrow> SPBValue \<Rightarrow> SPBProof \<Rightarrow> unit ccomp" where
  "handle_spb_proposal E call val pf = stmts
     [ensureM (smvba_msg_filter (b_epoch (sv_block val)) (pf_height pf) (pf_round pf) (pf_phase pf))
        (TimeOutMessage (pf_height pf) (pf_round pf)),
      exp_check (\<lambda>s. spbvalue_verify E (k_committee s) pf (k_fallback_length s) val),
      park_message (b_epoch (sv_block val)) (SPBPropose val pf),
      process_spb_propose E call val pf]"

definition invoke_smvba ::
    "'z node_ext_scheme \<Rightarrow> (call \<Rightarrow> unit ccomp) \<Rightarrow> SeqNumber \<Rightarrow> u8 \<Rightarrow> (PublicKey \<times> Signature) list \<Rightarrow> QC option \<Rightarrow> unit ccomp" where
  "invoke_smvba E call height val signatures qc = stmts
     [modifyM (\<lambda>s. s\<lparr>k_smvba_is_invoke := or_insert (k_smvba_is_invoke s) height False\<rparr>),
      unlessM (\<lambda>s. entry_or (k_smvba_is_invoke s) height False) (stmts
        [modifyM (\<lambda>s. s\<lparr>k_smvba_is_invoke := (k_smvba_is_invoke s)(height \<mapsto> True)\<rparr>),
         bindM (if val = OPT
                then readM (\<lambda>s. ret (block_default\<lparr>b_author := k_name s, b_epoch := k_epoch s, b_height := height\<rparr>))
                else readM (\<lambda>s. generate_proposal E height (k_fallback_length s + 1) qc PES)) (\<lambda>block. stmts
         [modifyM (\<lambda>s. s\<lparr>k_smvba_current_round := or_insert (k_smvba_current_round s) height 1\<rparr>),
          readM (\<lambda>s. let rnd = entry_or (k_smvba_current_round s) height 1 in
            broadcast_pes_propose E call (spbvalue_new block rnd INIT_PHASE val signatures)
              \<lparr>pf_phase = INIT_PHASE, pf_round = rnd, pf_height = height, pf_shares = []\<rparr>)])])]"

section \<open>Prepare\<close>

definition fast_commit :: "'z node_ext_scheme \<Rightarrow> PrePare \<Rightarrow> unit ccomp" where
  "fast_commit E prepare = stmts
     [readM (\<lambda>s. bindM (liftR (read_block E (k_store s) (qc_hash (pp_qc prepare)))) (\<lambda>r. case r of
        Some block \<Rightarrow> commit_if_new E block
      | None \<Rightarrow> ret ())),
      whenM (\<lambda>s. k_pes_path s \<and> 2 \<le> pp_height prepare) (terminate_smvba (pp_height prepare - 1))]"

definition handle_par_prepare :: "'z node_ext_scheme \<Rightarrow> (call \<Rightarrow> unit ccomp) \<Rightarrow> PrePare \<Rightarrow> unit ccomp" where
  "handle_par_prepare E call prepare =
     (let h = pp_height prepare in stmts
        [ensureM (\<lambda>s. pp_epoch prepare = k_epoch s \<and> k_height s < h + 2) (TimeOutMessage (pp_epoch prepare) h),
         exp_check (\<lambda>s. prepare_verify E (k_committee s) (k_fallback_length s) prepare),
         modifyM (\<lambda>s. s\<lparr>k_par_prepare_opts := or_insert (k_par_prepare_opts s) h [],
                        k_par_prepare_pess := or_insert (k_par_prepare_pess s) h []\<rparr>),
         if pp_val prepare = OPT then stmts
           [ensureM (\<lambda>s. map_of (entry_or (k_par_prepare_opts s) h []) (pp_author prepare) = None)
              (AuthorityReuseinPrePare (pp_author prepare)),
            modifyM (\<lambda>s. s\<lparr>k_par_prepare_opts := (k_par_prepare_opts s)(h \<mapsto>
              AList.update (pp_author prepare) (pp_signature prepare) (entry_or (k_par_prepare_opts s) h []))\<rparr>),
            whenM (\<lambda>s. word_of_nat (length (entry_or (k_par_prepare_opts s) h [])) = quorum_threshold (k_committee s))
              (fast_commit E prepare),
            invoke_smvba E call h OPT [] (Some (pp_qc prepare))]
         else if pp_val prepare = PES then stmts
           [ensureM (\<lambda>s. map_of (entry_or (k_par_prepare_pess s) h []) (pp_author prepare) = None)
              (AuthorityReuseinPrePare (pp_author prepare)),
            modifyM (\<lambda>s. s\<lparr>k_par_prepare_pess := (k_par_prepare_pess s)(h \<mapsto>
              AList.update (pp_author prepare) (pp_signature prepare) (entry_or (k_par_prepare_pess s) h []))\<rparr>),
            whenM (\<lambda>s. quorum_threshold (k_committee s) \<le> word_of_nat (length (entry_or (k_par_prepare_pess s) h []))) (stmts
              [modifyM (\<lambda>s. s\<lparr>k_fallback_high_qc := or_insert (k_fallback_high_qc s) (h, k_fallback_length s) None\<rparr>),
               readM (\<lambda>s. case entry_or (k_fallback_high_qc s) (h, k_fallback_length s) None of
                 Some qc \<Rightarrow> invoke_smvba E call h PES (iter_sigs E (entry_or (k_par_prepare_pess s) h [])) (Some qc)
               | None \<Rightarrow> ret ())])]
         else liftR (Err (InvalidPrePareTag (pp_val prepare)))])"

definition active_prepare_phase ::
    "'z node_ext_scheme \<Rightarrow> (call \<Rightarrow> unit ccomp) \<Rightarrow> SeqNumber \<Rightarrow> QC \<Rightarrow> u8 \<Rightarrow> unit ccomp" where
  "active_prepare_phase E call height qc val =
     unlessM (\<lambda>s. k_prepare_tag s height \<noteq> None)
     (readM (\<lambda>s. bindM (liftR (prepare_new E (k_signature_service s) (k_name s) (k_epoch s) height qc val)) (\<lambda>prepare. stmts
       [modifyM (\<lambda>s. s\<lparr>k_prepare_tag := (k_prepare_tag s)(height \<mapsto> prepare)\<rparr>),
        transmit (ParPrePare prepare) None PES,
        handle_par_prepare E call prepare])))"

section \<open>Fallback\<close>

definition make_fallback_vote :: "'z node_ext_scheme \<Rightarrow> Block \<Rightarrow> HVote option ccomp" where
  "make_fallback_vote E block = readM (\<lambda>s.
     if b_height block + 2 \<le> k_height s then ret None
     else bindM (liftR (hvote_new E (k_signature_service s) block (k_name s) PES)) (\<lambda>v. ret (Some v)))"

definition handle_fallback_vote :: "'z node_ext_scheme \<Rightarrow> (call \<Rightarrow> unit ccomp) \<Rightarrow> HVote \<Rightarrow> unit ccomp" where
  "handle_fallback_vote E call vote = stmts
     [ensureM (fallback_message_filter (hv_epoch vote) (hv_height vote)) (TimeOutMessage (hv_epoch vote) (hv_height vote)),
      exp_check (\<lambda>s. hvote_verify E (k_committee s) vote),
      bindM (in_aggregator (add_fallback_vote vote)) (\<lambda>r. case r of
        None \<Rightarrow> ret ()
      | Some qc \<Rightarrow> stmts
          [modifyM (\<lambda>s. s\<lparr>k_fallback_high_qc := (k_fallback_high_qc s)((qc_height qc, qc_round qc) \<mapsto> Some qc)\<rparr>),
           whenM (\<lambda>s. qc_proposer qc = k_name s) (readM (\<lambda>s.
             if qc_round qc < k_fallback_length s
             then bindM (generate_proposal E (qc_height qc) (qc_round qc + 1) (Some qc) PES) (\<lambda>block.
                    call (BroadcastFallbackProposeCall block))
             else whenM (\<lambda>s. qc_round qc = k_fallback_length s) (active_prepare_phase E call (qc_height qc) qc PES)))])]"

definition process_fallback_propose :: "'z node_ext_scheme \<Rightarrow> (call \<Rightarrow> unit ccomp) \<Rightarrow> Block \<Rightarrow> unit ccomp" where
  "process_fallback_propose E call block = stmts
     [ensureM (fallback_message_filter (b_epoch block) (b_height block)) (TimeOutMessage (b_epoch block) (b_height block)),
      store_block E block,
      bindM (make_fallback_vote E block) (\<lambda>r. case r of
        None \<Rightarrow> ret ()
      | Some vote \<Rightarrow> readM (\<lambda>s.
          if b_author block \<noteq> k_name s then transmit (FBVote vote) (Some (b_author block)) PES
          else handle_fallback_vote E call vote))]"

definition handle_fallback_propose :: "'z node_ext_scheme \<Rightarrow> (call \<Rightarrow> unit ccomp) \<Rightarrow> Block \<Rightarrow> unit ccomp" where
  "handle_fallback_propose E call block = stmts
     [ensureM (fallback_message_filter (b_epoch block) (b_height block)) (TimeOutMessage (b_epoch block) (b_height block)),
      exp_check (\<lambda>s. block_verify E (k_committee s) block),
      park_message (b_epoch block) (FBPropose block),
      bindM (in_mempool (driver_verify E block FALLBACK)) (\<lambda>present.
        unlessM (\<lambda>_. \<not> present) (process_fallback_propose E call block))]"

definition broadcast_fallback_propose :: "'z node_ext_scheme \<Rightarrow> (call \<Rightarrow> unit ccomp) \<Rightarrow> Block \<Rightarrow> unit ccomp" where
  "broadcast_fallback_propose E call block = stmts
     [modifyM (\<lambda>s. s\<lparr>k_smvba_is_invoke := or_insert (k_smvba_is_invoke s) (b_height block) False\<rparr>),
      unlessM (\<lambda>s. entry_or (k_smvba_is_invoke s) (b_height block) False) (stmts
        [transmit (FBPropose block) None PES,
         process_fallback_propose E call block])]"

definition invoke_fallback :: "'z node_ext_scheme \<Rightarrow> (call \<Rightarrow> unit ccomp) \<Rightarrow> SeqNumber \<Rightarrow> QC option \<Rightarrow> unit ccomp" where
  "invoke_fallback E call height qc =
     unlessM (\<lambda>s. k_fallback_is_invoke s height \<noteq> None) (stmts
       [modifyM (\<lambda>s. s\<lparr>k_fallback_is_invoke := (k_fallback_is_invoke s)(height \<mapsto> True)\<rparr>),
        bindM (generate_proposal E height 1 qc PES) (\<lambda>block. broadcast_fallback_propose E call block)])"

section \<open>Optimistic path\<close>

definition index_of_leader :: "PublicKey \<Rightarrow> SeqNumber \<Rightarrow> Core \<Rightarrow> nat option ConsensusResult" where
  "index_of_leader name height s = index_as_leader (k_leader_elector s) name height"

definition make_opt_vote :: "'z node_ext_scheme \<Rightarrow> Block \<Rightarrow> HVote option ccomp" where
  "make_opt_vote E block = readM (\<lambda>s.
     if \<not> (k_last_voted_height s < b_height block \<and> qc_height (b_qc block) + 1 = b_height block) then ret None
     else bindM (modifyM (increase_last_voted_round (b_height block))) (\<lambda>_.
          bindM (liftR (hvote_new E (k_signature_service s) block (k_name s) OPT)) (\<lambda>vote.
          bindM (modifyM (\<lambda>s. s\<lparr>k_signed_votes := k_signed_votes s @ [vote]\<rparr>)) (\<lambda>_. ret (Some vote)))))"

text \<open>The vote is counted; a certificate it completes is processed, and the leaders of the next height get going.\<close>

definition count_opt_vote :: "(call \<Rightarrow> unit ccomp) \<Rightarrow> nat option \<Rightarrow> HVote \<Rightarrow> unit ccomp" where
  "count_opt_vote call leader_idx vote = bindM (in_aggregator (add_hs_vote vote)) (\<lambda>r. case r of
     None \<Rightarrow> ret ()
   | Some qc \<Rightarrow> stmts
       [process_qc qc,
        bindM (liftR (unwrap leader_idx)) (\<lambda>leader_idx_val.
          if leader_idx_val = 0 then call OptProposeCall
          else modifyM (\<lambda>s. set_timer (Some (word_of_nat leader_idx_val * timeout_delay (k_parameters s))) s))])"

definition handle_opt_vote :: "'z node_ext_scheme \<Rightarrow> (call \<Rightarrow> unit ccomp) \<Rightarrow> HVote \<Rightarrow> unit ccomp" where
  "handle_opt_vote E call vote =
     unlessM (\<lambda>s. hv_height vote < k_height s \<or> hv_epoch vote < k_epoch s) (readM (\<lambda>s.
       bindM (liftR (index_of_leader (k_name s) (hv_height vote + 1) s)) (\<lambda>leader_idx. stmts
         [ensureM (\<lambda>_. leader_idx \<noteq> None)
            (WrongVoteRecipient (hvote_digest E vote) (hv_author vote) (hv_height vote)),
          liftR (hvote_verify E (k_committee s) vote),
          count_opt_vote call leader_idx vote])))"

text \<open>A new vote goes to the leaders of the next height, the node itself included.\<close>

definition send_opt_vote :: "'z node_ext_scheme \<Rightarrow> (call \<Rightarrow> unit ccomp) \<Rightarrow> HVote \<Rightarrow> unit ccomp" where
  "send_opt_vote E call vote = stmts
     [readM (\<lambda>s. bindM (liftR (get_leaders (k_leader_elector s) (k_height s + 1))) (\<lambda>leaders.
        forM leaders (\<lambda>leader. whenM (\<lambda>s. k_name s \<noteq> leader) (transmit (HSVote vote) (Some leader) OPT)))),
      readM (\<lambda>s. bindM (liftR (index_of_leader (k_name s) (k_height s + 1) s)) (\<lambda>idx.
        whenM (\<lambda>_. idx \<noteq> None) (handle_opt_vote E call vote)))]"

text \<open>Only a block of the current height gets a vote.\<close>

definition vote_opt_block :: "'z node_ext_scheme \<Rightarrow> (call \<Rightarrow> unit ccomp) \<Rightarrow> Block \<Rightarrow> unit ccomp" where
  "vote_opt_block E call block = unlessM (\<lambda>s. b_height block \<noteq> k_height s)
     (bindM (make_opt_vote E block) (\<lambda>v. case v of
        Some vote \<Rightarrow> send_opt_vote E call vote
      | None \<Rightarrow> ret ()))"

definition process_opt_block :: "'z node_ext_scheme \<Rightarrow> (call \<Rightarrow> unit ccomp) \<Rightarrow> Block \<Rightarrow> unit ccomp" where
  "process_opt_block E call block = stmts
     [readM (\<lambda>s. bindM (liftR (index_of_leader (k_name s) (b_height block) s)) (\<lambda>idx.
        whenM (\<lambda>_. idx \<noteq> None) (modifyM (set_timer None)))),
      bindM (get_ancestors E block) (\<lambda>r. case r of
        None \<Rightarrow> ret ()
      | Some (b0, b1) \<Rightarrow> stmts
          [store_block E block,
           readM (\<lambda>s. whenM (\<lambda>s. k_pes_path s \<and> 2 < b_height block) (terminate_smvba (k_height s - 2))),
           whenM (\<lambda>s. k_pes_path s \<and> 1 < b_height block)
             (active_prepare_phase E call (b_height block - 1) (b_qc block) OPT),
           whenM k_pes_path (invoke_fallback E call (b_height block) (Some (b_qc block))),
           ensureM (\<lambda>_. (b_height b0 + 1 = b_height b1 \<and> b_height b1 + 1 = b_height block) \<or> qc_eq (b_qc block) qc_genesis)
             (NonConsecutiveRounds (b_height b0) (b_height b1) (b_height block)),
           commit_if_new E b0,
           vote_opt_block E call block])]"

definition handle_opt_proposal :: "'z node_ext_scheme \<Rightarrow> (call \<Rightarrow> unit ccomp) \<Rightarrow> Block \<Rightarrow> unit ccomp" where
  "handle_opt_proposal E call block =
     unlessM (\<lambda>s. b_epoch block < k_epoch s) (stmts
       [park_message (b_epoch block) (HsPropose block),
        readM (\<lambda>s. bindM (liftR (index_of_leader (b_author block) (b_height block) s)) (\<lambda>idx.
          ensureM (\<lambda>_. idx \<noteq> None) (WrongBlockSender (block_digest E block) (b_author block) (b_height block)))),
        readM (\<lambda>s. liftR (block_verify E (k_committee s) block)),
        whenM (\<lambda>s. k_pes_path s \<and> 2 < b_height block) (terminate_smvba (b_height block - 2)),
        process_qc (b_qc block),
        bindM (in_mempool (driver_verify E block OPT)) (\<lambda>present.
          unlessM (\<lambda>_. \<not> present) (process_opt_block E call block))])"

definition opt_propose :: "'z node_ext_scheme \<Rightarrow> (call \<Rightarrow> unit ccomp) \<Rightarrow> unit ccomp" where
  "opt_propose E call = readM (\<lambda>s.
     bindM (liftR (rbind (index_of_leader (k_name s) (k_height s) s) unwrap)) (\<lambda>_.
     bindM (generate_proposal E (k_height s) 0 (Some (k_high_qc s)) OPT) (\<lambda>block. stmts
       [transmit (HsPropose block) None OPT,
        process_opt_block E call block])))"

section \<open>The recursion\<close>

fun exec :: "'z node_ext_scheme \<Rightarrow> nat \<Rightarrow> call \<Rightarrow> unit ccomp" where
  "exec E 0 c = liftR OutOfFuel"
| "exec E (Suc n) OptProposeCall = opt_propose E (exec E n)"
| "exec E (Suc n) (InvokeFallbackCall height qc) = invoke_fallback E (exec E n) height qc"
| "exec E (Suc n) (BroadcastFallbackProposeCall block) = broadcast_fallback_propose E (exec E n) block"
| "exec E (Suc n) (BroadcastPesProposeCall val pf) = broadcast_pes_propose E (exec E n) val pf"
| "exec E (Suc n) (InvokeDoneAndShareCall height rnd) = invoke_done_and_share E (exec E n) height rnd"

section \<open>The main loop\<close>

datatype event =
    CoreMessage ConsensusMessage
  | SmvbaMessage ConsensusMessage
  | TimerFired

fun handle_event :: "'z node_ext_scheme \<Rightarrow> nat \<Rightarrow> event \<Rightarrow> unit ccomp" where
  "handle_event E n (CoreMessage msg) = (case msg of
      HsPropose block \<Rightarrow> handle_opt_proposal E (exec E n) block
    | HSVote vote \<Rightarrow> handle_opt_vote E (exec E n) vote
    | HsLoopBack block \<Rightarrow> process_opt_block E (exec E n) block
    | SyncRequest digest sender \<Rightarrow> handle_sync_request E digest sender
    | SyncReply block \<Rightarrow> handle_opt_proposal E (exec E n) block
    | _ \<Rightarrow> ret ())"
| "handle_event E n (SmvbaMessage msg) = (case msg of
      FBPropose block \<Rightarrow> handle_fallback_propose E (exec E n) block
    | FBVote vote \<Rightarrow> handle_fallback_vote E (exec E n) vote
    | FBLoopBack block \<Rightarrow> process_fallback_propose E (exec E n) block
    | SPBPropose val pf \<Rightarrow> handle_spb_proposal E (exec E n) val pf
    | SPBVoteMsg vote \<Rightarrow> handle_spb_vote E (exec E n) vote
    | SPBFinsh val pf \<Rightarrow> handle_spb_finish E (exec E n) val pf
    | SPBDoneAndShare done \<Rightarrow> handle_smvba_done_with_share E (exec E n) done
    | SMVBAPreVote prevote \<Rightarrow> handle_smvba_prevote E (exec E n) prevote
    | SMVBAVote mvote \<Rightarrow> handle_smvba_mvote E (exec E n) mvote
    | SMVBAHalt halt \<Rightarrow> handle_smvba_halt E (exec E n) halt
    | ParPrePare prepare \<Rightarrow> handle_par_prepare E (exec E n) prepare
    | ParLoopBack block \<Rightarrow> process_par_out E (exec E n) block
    | _ \<Rightarrow> ret ())"
| "handle_event E n TimerFired = opt_propose E (exec E n)"

text \<open>What \<open>run\<close> does before its loop.\<close>

definition run_start :: "'z node_ext_scheme \<Rightarrow> nat \<Rightarrow> unit ccomp" where
  "run_start E n = stmts
     [whenM k_opt_path (readM (\<lambda>s. bindM (liftR (index_of_leader (k_name s) (k_height s) s)) (\<lambda>idx. case idx of
        None \<Rightarrow> ret ()
      | Some i \<Rightarrow>
          if i = 0 then ignore_err (opt_propose E (exec E n))
          else modifyM (\<lambda>s. set_timer (Some (word_of_nat i * timeout_delay (k_parameters s))) s)))),
      whenM (\<lambda>s. \<not> k_opt_path s \<or> (k_pes_path s \<and> \<not> is_optmistic s))
        (readM (\<lambda>s. expectM (invoke_fallback E (exec E n) (k_height s) (Some (k_high_qc s)))))]"

text \<open>How the loop goes on after a handler: the end of the epoch leaves it, a panic ends the task, every other result is logged.\<close>

datatype turn = Continue | EpochOver | Crashed | Diverged

fun turn_of :: "unit ConsensusResult \<Rightarrow> turn" where
  "turn_of (Ok _) = Continue"
| "turn_of (Err (EpochEnd e)) = EpochOver"
| "turn_of (Err _) = Continue"
| "turn_of Panic = Crashed"
| "turn_of OutOfFuel = Diverged"

definition core_turn :: "'z node_ext_scheme \<Rightarrow> nat \<Rightarrow> event \<Rightarrow> Core \<Rightarrow> Core \<times> turn" where
  "core_turn E n ev s = (case handle_event E n ev s of (s', r) \<Rightarrow> (s', turn_of r))"

text \<open>The loop of \<open>run_epoch\<close> that sends parked messages of the new epoch to the core's own channels.\<close>

fun replay :: "(SeqNumber \<times> ConsensusMessage) list \<Rightarrow> Core \<Rightarrow> Core" where
  "replay [] s = s\<lparr>k_unhandle_message := []\<rparr>"
| "replay ((e, msg) # rest) s =
     (if e = k_epoch s
      then (case msg of
          HsPropose _ \<Rightarrow> replay rest (s\<lparr>k_tx_core := k_tx_core s @ [msg]\<rparr>)
        | SPBPropose _ _ \<Rightarrow> replay rest (s\<lparr>k_tx_smvba := k_tx_smvba s @ [msg]\<rparr>)
        | FBPropose _ \<Rightarrow> replay rest (s\<lparr>k_tx_smvba := k_tx_smvba s @ [msg]\<rparr>)
        | _ \<Rightarrow> s\<lparr>k_unhandle_message := rest\<rparr>)
      else replay rest s)"

definition next_epoch :: "SeqNumber \<Rightarrow> Core \<Rightarrow> Core" where
  "next_epoch epoch s = (let s1 = epoch_init epoch s in replay (k_unhandle_message s1) s1)"

section \<open>Steps of a node within an epoch\<close>

text \<open>
  What can happen next, as long as the epoch lasts, besides an event: the loop starts, with some bound on the recursion; a
  turn of either synchronizer or of the mempool; time passes.
\<close>

inductive actor_step :: "'z node_ext_scheme \<Rightarrow> Core \<Rightarrow> Core \<Rightarrow> bool" for E where
  start: "actor_step E s (fst (run_start E n s))"
| mempool: "mempool_step E (k_mempool s) m \<Longrightarrow> actor_step E s (s\<lparr>k_mempool := m\<rparr>)"
| sync_recv: "cs_alive (k_synchronizer s) \<Longrightarrow> actor_step E s (csync_recv E s)"
| sync_deliver: "cs_alive (k_synchronizer s) \<Longrightarrow> i < length (cs_waiting (k_synchronizer s)) \<Longrightarrow>
    stored E (k_store s) (fst (cs_waiting (k_synchronizer s) ! i)) \<Longrightarrow> actor_step E s (csync_deliver E i s)"
| sync_fail: "cs_alive (k_synchronizer s) \<Longrightarrow> i < length (cs_waiting (k_synchronizer s)) \<Longrightarrow>
    store_read E (k_store s) (digest_to_vec (fst (cs_waiting (k_synchronizer s) ! i))) = Err e \<Longrightarrow>
    actor_step E s (csync_fail i s)"
| sync_timer: "cs_alive (k_synchronizer s) \<Longrightarrow> actor_step E s (csync_timer s)"
| tick: "actor_step E s (s\<lparr>k_clock := k_clock s + d\<rparr>)"

text \<open>An event is handled, whatever its message is and whoever sent it, or another actor has its turn.\<close>

inductive epoch_step :: "'z node_ext_scheme \<Rightarrow> Core \<Rightarrow> Core \<Rightarrow> bool" for E where
  event: "epoch_step E s (fst (handle_event E n ev s))"
| actor: "actor_step E s t \<Longrightarrow> epoch_step E s t"

text \<open>A node over its lifetime: steps of an epoch, and the change to the next one when a handler has ended it.\<close>

inductive node_step :: "'z node_ext_scheme \<Rightarrow> Core \<Rightarrow> Core \<Rightarrow> bool" for E where
  inside: "epoch_step E s t \<Longrightarrow> node_step E s t"
| epoch_over: "core_turn E n ev s = (t, EpochOver) \<Longrightarrow> node_step E s (next_epoch (k_epoch s + 1) t)"

inductive_cases epoch_stepE: "epoch_step E s t"
inductive_cases node_stepE: "node_step E s t"

end
