(* ===== verification/Core_Frame.thy ===== *)
theory Core_Frame
  imports Core_Handlers
begin

text \<open>
  What a handler of the core may do to the state, as an interface: the locale \<open>core_order\<close> takes a relation between
  states that admits nine kinds of change (its laws) and shows, once, that every handler, the
  whole recursion of \<open>exec\<close> included, stays within it, whatever the result and the fuel. \<open>Core_Props\<close> interprets
  it with the relations behind the safety properties of the core.
\<close>

section \<open>What is observed\<close>

text \<open>The part of the state a relation may speak about; everything else may change freely.\<close>

definition obs where
  "obs s = (k_name s, k_committee s, k_parameters s, k_signature_service s, k_pk_set s, k_leader_elector s,
     k_mempool s, k_network_filter s, k_commit_channel s, k_height s, k_epoch s, k_last_voted_height s,
     k_last_committed_height s, k_unhandle_message s, k_high_qc s, k_aggregator s, k_opt_path s, k_pes_path s,
     k_fallback_length s, k_signed_votes s)"

text \<open>
  Of the rest, what every change respects: an agreement or a fallback that was started, or an agreement that has halted,
  stays so, and what was sent to the other nodes for the agreement stays sent.
\<close>

definition flags_kept :: "('k \<rightharpoonup> bool) \<Rightarrow> ('k \<rightharpoonup> bool) \<Rightarrow> bool" where
  "flags_kept m n \<longleftrightarrow> (\<forall>k. m k = Some True \<longrightarrow> n k = Some True)"

definition quiet :: "Core \<Rightarrow> Core \<Rightarrow> bool" where
  "quiet s t \<longleftrightarrow> flags_kept (k_smvba_is_invoke s) (k_smvba_is_invoke t) \<and>
     dom (k_fallback_is_invoke s) \<subseteq> dom (k_fallback_is_invoke t) \<and> flags_kept (k_smvba_halt_falg s) (k_smvba_halt_falg t) \<and>
     (\<exists>xs. k_network_filter_smvba t = k_network_filter_smvba s @ xs)"

lemma flags_kept_refl [simp]: "flags_kept m m"
  by (simp add: flags_kept_def)

lemma flags_kept_set [simp]: "flags_kept m (m(k \<mapsto> True))"
  by (simp add: flags_kept_def)

lemma flags_kept_insert [simp]: "flags_kept m (or_insert m k False)"
  by (simp add: flags_kept_def or_insert_def)

inductive agg_step :: "'z node_ext_scheme \<Rightarrow> Aggregator \<Rightarrow> Aggregator \<Rightarrow> bool" for E where
  fallback: "agg_step E a (fst (add_fallback_vote v a))"
| spb: "agg_step E a (fst (add_spb_vote w a))"
| pre: "agg_step E a (fst (add_pre_vote w a))"
| coin: "agg_step E a (fst (add_smvba_random E pk_set share a))"
| clean_hs: "agg_step E a (cleanup_hs_vote h a)"
| clean_smvba: "agg_step E a (cleanup_spb_vote h (cleanup_mvba_random h a))"

fun parkable :: "SeqNumber \<Rightarrow> ConsensusMessage \<Rightarrow> bool" where
  "parkable e (HsPropose b) \<longleftrightarrow> b_epoch b = e"
| "parkable e (FBPropose b) \<longleftrightarrow> b_epoch b = e"
| "parkable e (SPBPropose v p) \<longleftrightarrow> b_epoch (sv_block v) = e"
| "parkable e _ \<longleftrightarrow> False"

definition opt_vote_for :: "Core \<Rightarrow> HVote \<Rightarrow> bool" where
  "opt_vote_for s v \<longleftrightarrow> hv_author v = k_name s \<and> hv_tag v = OPT \<and> hv_height v = k_height s"

text \<open>The walk over the ancestors leaves the committed height alone.\<close>

interpretation committed: step_order "\<lambda>s t. k_last_committed_height t = k_last_committed_height s"
  by unfold_locales auto

lemma in_mempool_committed:
  "keeps (\<lambda>s t. k_last_committed_height t = k_last_committed_height s) (in_mempool f)"
  by (simp add: keeps_def in_mempool_def split: prod.splits)

lemma get_parent_committed:
  "keeps (\<lambda>s t. k_last_committed_height t = k_last_committed_height s) (get_parent_block E b)"
  unfolding get_parent_block_def
  by (intro keep_rules) (auto intro!: keep_rules committed.keeps_modify simp: request_parent_def split: option.splits)

lemma commit_committed:
  "keeps (\<lambda>s t. k_last_committed_height t = k_last_committed_height s) (commit E b)"
proof -
  have "keeps (\<lambda>s t. k_last_committed_height t = k_last_committed_height s) (commit_loop E n b)" for n
    by (induction n arbitrary: b)
      (auto intro!: keep_rules committed.keeps_modify in_mempool_committed get_parent_committed
        simp: commit_block_def split: option.splits)
  then show ?thesis unfolding commit_def by (intro keep_rules)
qed

section \<open>The interface\<close>

locale core_frame = step_order R
  for R :: "Core \<Rightarrow> Core \<Rightarrow> bool" +
  fixes E :: "'z node_ext_scheme"
  assumes silent: "obs s = obs t \<Longrightarrow> quiet s t \<Longrightarrow> R s t"
    and mempool: "mempool_step E (k_mempool s) m \<Longrightarrow> R s (s\<lparr>k_mempool := m\<rparr>)"
    and send: "R s (s\<lparr>k_network_filter := k_network_filter s @ [x]\<rparr>)"
    and commits: "k_last_committed_height s < b_height b \<Longrightarrow>
      R s (s\<lparr>k_last_committed_height := b_height b, k_commit_channel := k_commit_channel s @ [b]\<rparr>)"
    and advance: "k_height s \<le> h \<Longrightarrow> R s (s\<lparr>k_height := h + 1\<rparr>)"
    and park: "k_epoch s < e \<Longrightarrow> parkable e msg \<Longrightarrow>
      R s (s\<lparr>k_unhandle_message := k_unhandle_message s @ [(e, msg)]\<rparr>)"
    and aggregate: "agg_step E (k_aggregator s) a \<Longrightarrow> R s (s\<lparr>k_aggregator := a\<rparr>)"
    and toss: "le_random_coins (k_leader_elector s) (rc_height coin, rc_round coin) = None \<Longrightarrow>
      R s (s\<lparr>k_leader_elector := add_random_coin coin (k_leader_elector s)\<rparr>)"
begin

lemma keeps_silent: "(\<And>s. obs (f s) = obs s \<and> quiet s (f s)) \<Longrightarrow> keeps R (modifyM f)"
  by (rule keeps_modify) (simp add: silent)

lemma keeps_update_smvba_state: "keeps R (modifyM (update_smvba_state h r))"
  by (rule keeps_silent) (simp add: obs_def quiet_def update_smvba_state_def)

lemma keeps_in_mempool:
  assumes "\<And>m. mempool_step E m (fst (f m))"
  shows "keeps R (in_mempool f)"
proof -
  have "R s (s\<lparr>k_mempool := fst (f (k_mempool s))\<rparr>)" for s
    by (rule mempool) (rule assms)
  then show ?thesis by (simp add: keeps_def in_mempool_def case_prod_beta)
qed

lemma keeps_store_block: "keeps R (store_block E b)"
  unfolding store_block_def by (rule keeps_in_mempool) (simp add: mempool_step.store_block)

lemma keeps_driver: "keeps R (in_mempool (driver_get E mx tag))" "keeps R (in_mempool (driver_verify E b tag))"
  "keeps R (in_mempool (driver_cleanup_par E b))"
  by (rule keeps_in_mempool; rule mempool_step.intros)+

lemma keeps_transmit: "keeps R (transmit msg to tag)"
proof -
  have "keeps R (modifyM (\<lambda>s. if tag = OPT then s\<lparr>k_network_filter := k_network_filter s @ [(msg, a)]\<rparr>
      else s\<lparr>k_network_filter_smvba := k_network_filter_smvba s @ [(msg, a)]\<rparr>))" for a
    by (rule keeps_modify) (auto intro!: send silent simp: obs_def quiet_def)
  then show ?thesis
    unfolding transmit_def by (intro keep_rules)
qed

lemma keeps_in_aggregator:
  assumes "\<And>a. agg_step E a (fst (f a))"
  shows "keeps R (in_aggregator f)"
proof -
  have "R s (s\<lparr>k_aggregator := fst (f (k_aggregator s))\<rparr>)" for s
    by (rule aggregate) (rule assms)
  then show ?thesis by (simp add: keeps_def in_aggregator_def case_prod_beta)
qed

lemma keeps_adds: "keeps R (in_aggregator (add_fallback_vote v))"
  "keeps R (in_aggregator (add_spb_vote w))" "keeps R (in_aggregator (add_pre_vote w))"
  "keeps R (in_aggregator (add_smvba_random E pk share))"
  by (rule keeps_in_aggregator; rule agg_step.intros)+

lemma keeps_terminate_smvba: "keeps R (terminate_smvba h)"
  unfolding terminate_smvba_def
proof (rule keeps_modify)
  fix s
  have "R s (s\<lparr>k_aggregator := cleanup_spb_vote h (cleanup_mvba_random h (k_aggregator s))\<rparr>)"
    by (rule aggregate) (rule agg_step.clean_smvba)
  moreover have "R (s\<lparr>k_aggregator := cleanup_spb_vote h (cleanup_mvba_random h (k_aggregator s))\<rparr>) (clean_smvba_state h s)"
    by (rule silent) (simp_all add: obs_def quiet_def clean_smvba_state_def)
  ultimately show "R s (clean_smvba_state h s)" by (rule R_trans)
qed

lemma advance_height_step: "R s (advance_height h s)"
proof (cases "h < k_height s")
  case True
  then show ?thesis by (simp add: advance_height_def R_refl)
next
  case False
  let ?s1 = "s\<lparr>k_aggregator := cleanup_hs_vote (k_height s) (k_aggregator s)\<rparr>"
  have "R s ?s1" by (rule aggregate) (rule agg_step.clean_hs)
  moreover have "R ?s1 (?s1\<lparr>k_height := h + 1\<rparr>)" using False by (intro advance) simp
  moreover have "R (?s1\<lparr>k_height := h + 1\<rparr>) (advance_height h s)"
    using False by (intro silent)
      (simp_all add: obs_def quiet_def advance_height_def Let_def update_smvba_state_def update_prepare_state_def)
  ultimately show ?thesis by (blast intro: R_trans)
qed

lemma keeps_set_timer: "keeps R (modifyM (\<lambda>s. set_timer (f s) s))" "keeps R (modifyM (set_timer d))"
  by (rule keeps_silent; simp add: obs_def quiet_def set_timer_def)+

lemma keeps_exp_check: "keeps R (exp_check f)"
  unfolding exp_check_def by (intro keep_rules)

lemma keeps_generate_proposal: "keeps R (generate_proposal E h r qc tag)"
  unfolding generate_proposal_def by (intro keep_rules keeps_driver)

lemma keeps_get_parent_block: "keeps R (get_parent_block E b)"
  unfolding get_parent_block_def
  by (intro keep_rules) (auto intro!: keep_rules keeps_silent simp: obs_def quiet_def request_parent_def split: option.splits)

lemma keeps_get_ancestors: "keeps R (get_ancestors E b)"
  unfolding get_ancestors_def by (auto intro!: keep_rules keeps_get_parent_block split: option.splits)

lemma keeps_commit_block: "keeps R (commit_block E b)"
  unfolding commit_block_def by (intro keep_rules) (auto intro!: keeps_silent keeps_driver simp: obs_def quiet_def)

lemma keeps_commit_loop: "keeps R (commit_loop E n b)"
  by (induction n arbitrary: b)
    (auto intro!: keep_rules keeps_commit_block keeps_get_parent_block split: option.splits)

lemma keeps_commit: "keeps R (commit E b)"
  unfolding commit_def by (intro keep_rules keeps_commit_loop)

lemma commit_and_send_guarded:
  assumes "k_last_committed_height s < b_height b"
  shows "R s (fst (commit_and_send E b s))"
proof (cases "commit E b s")
  case (Pair t r)
  have "R s t" using keeps_commit Pair by (rule keepsD)
  moreover have "k_last_committed_height t < b_height b"
    using keepsD [OF commit_committed Pair] assms by simp
  then have "R t (t\<lparr>k_last_committed_height := b_height b, k_commit_channel := k_commit_channel t @ [b]\<rparr>)"
    by (rule commits)
  ultimately show ?thesis
    using Pair by (cases r) (auto simp: commit_and_send_def bindM_def modifyM_def ret_def intro: R_trans)
qed

lemma keeps_commit_if_new: "keeps R (commit_if_new E b)"
  by (simp add: keeps_def commit_if_new_def whenM_def R_refl commit_and_send_guarded)

lemma keeps_output_block: "keeps R (output_block E b)"
  unfolding output_block_def
  by (intro keeps_when_first commit_and_send_guarded) (auto intro!: keep_rules)

lemma keeps_park:
  assumes "parkable e msg"
  shows "keeps R (park_message e msg)"
  unfolding park_message_def
proof (intro keeps_when_first)
  fix s :: Core
  assume "k_epoch s < e"
  with assms show "R s (fst (modifyM (\<lambda>s. s\<lparr>k_unhandle_message := k_unhandle_message s @ [(e, msg)]\<rparr>) s))"
    by (simp add: modifyM_def park)
qed (auto intro!: keep_rules)

lemma keeps_expect: "keeps R h \<Longrightarrow> keeps R (expectM h)"
  unfolding keeps_def expectM_def by (auto split: prod.splits result.splits) (metis fst_conv)+

lemma keeps_ignore_err: "keeps R h \<Longrightarrow> keeps R (ignore_err h)"
  unfolding keeps_def ignore_err_def by (auto split: prod.splits result.splits) (metis fst_conv)+

lemma keeps_toss_coin: "keeps R (toss_coin E share)"
proof -
  have "R s (fst (toss_coin E share s))" for s
  proof (cases "get_coin_leader (k_leader_elector s) (rs_height share) (rs_round share)")
    case None
    obtain a r where ar: "add_smvba_random E (k_pk_set s) share (k_aggregator s) = (a, r)" by force
    let ?s1 = "s\<lparr>k_aggregator := a\<rparr>"
    have "R s ?s1" using aggregate [OF agg_step.coin, of s "k_pk_set s" share] ar by simp
    moreover have "R ?s1 (?s1\<lparr>k_leader_elector := add_random_coin coin (k_leader_elector s)\<rparr>)" if "r = Ok (Some coin)" for coin
    proof -
      have "rc_height coin = rs_height share" "rc_round coin = rs_round share"
        using ar that by (auto simp: add_smvba_random_def coinmaker_append_def Let_def rbind_Ok
            split: prod.splits if_splits option.splits)
      then show ?thesis using toss [of ?s1 coin] None by (simp add: get_coin_leader_def)
    qed
    ultimately show ?thesis
      using None ar by (auto simp: toss_coin_def in_aggregator_def comp_defs split: result.splits option.splits intro: R_trans)
  next
    case (Some l)
    then show ?thesis by (simp add: toss_coin_def comp_defs R_refl)
  qed
  then show ?thesis by (simp add: keeps_def)
qed

text \<open>The handlers, in the order of their definitions.\<close>

lemmas keeps_prims = keep_rules keeps_store_block keeps_driver keeps_transmit keeps_adds keeps_terminate_smvba
  keeps_set_timer keeps_exp_check keeps_generate_proposal keeps_get_parent_block
  keeps_get_ancestors keeps_commit_if_new keeps_output_block keeps_park keeps_expect keeps_update_smvba_state

lemma keeps_process_par_out:
  "(\<And>c. keeps R (call c)) \<Longrightarrow> keeps R (process_par_out E call b)"
  unfolding process_par_out_def by (intro keeps_unless) (auto intro!: keeps_prims)

lemma keeps_handle_smvba_halt:
  "(\<And>c. keeps R (call c)) \<Longrightarrow> keeps R (handle_smvba_halt E call halt)"
  unfolding handle_smvba_halt_def
  by (intro keep_rules) (auto intro!: keeps_prims keeps_process_par_out keeps_silent simp: obs_def quiet_def)

lemma keeps_smvba_round_advance:
  "(\<And>c. keeps R (call c)) \<Longrightarrow> keeps R (smvba_round_advance E call h r)"
  unfolding smvba_round_advance_def
  by (intro keep_rules) (auto intro!: keeps_prims split: option.splits)

lemma keeps_announce_halt:
  "(\<And>c. keeps R (call c)) \<Longrightarrow> keeps R (announce_halt E call leader val pf)"
  unfolding announce_halt_def
  by (intro keep_rules) (auto intro!: keeps_prims keeps_handle_smvba_halt)

lemma keeps_handle_smvba_mvote:
  "(\<And>c. keeps R (call c)) \<Longrightarrow> keeps R (handle_smvba_mvote E call mvote)"
  unfolding handle_smvba_mvote_def Let_def
  by (intro keep_rules)
    (auto intro!: keeps_prims keeps_silent keeps_announce_halt keeps_smvba_round_advance simp: obs_def quiet_def
      split: MVoteTag.splits option.splits)

lemma keeps_make_spb_vote: "keeps R (make_spb_vote E val)"
  unfolding make_spb_vote_def by (auto intro!: keep_rules)

lemma keeps_prevote_answer: "keeps R (prevote_answer E prevote)"
  unfolding prevote_answer_def Let_def
  by (intro keep_rules)
    (auto intro!: keep_rules keeps_silent keeps_make_spb_vote simp: obs_def quiet_def split: PreVoteTag.splits option.splits)

lemma keeps_handle_smvba_prevote:
  "(\<And>c. keeps R (call c)) \<Longrightarrow> keeps R (handle_smvba_prevote E call prevote)"
  unfolding handle_smvba_prevote_def Let_def
  by (intro keep_rules)
    (auto intro!: keeps_prims keeps_silent keeps_prevote_answer keeps_handle_smvba_mvote simp: obs_def quiet_def split: option.splits)

lemma keeps_after_coin:
  "(\<And>c. keeps R (call c)) \<Longrightarrow> keeps R (after_coin E call h r coin)"
  unfolding after_coin_def Let_def new_prevote_def
  by (intro keep_rules)
    (auto intro!: keeps_prims keeps_silent keeps_announce_halt keeps_handle_smvba_prevote simp: obs_def quiet_def split: option.splits)

lemma keeps_handle_smvba_rs:
  "(\<And>c. keeps R (call c)) \<Longrightarrow> keeps R (handle_smvba_rs E call share)"
  unfolding handle_smvba_rs_def
  by (intro keep_rules) (auto intro!: keeps_prims keeps_toss_coin keeps_after_coin split: option.splits)

lemma keeps_handle_smvba_done:
  "(\<And>c. keeps R (call c)) \<Longrightarrow> keeps R (handle_smvba_done E call mdone)"
  unfolding handle_smvba_done_def Let_def
  by (intro keep_rules) (auto intro!: keeps_prims keeps_silent simp: obs_def quiet_def)

lemma keeps_handle_smvba_done_with_share:
  "(\<And>c. keeps R (call c)) \<Longrightarrow> keeps R (handle_smvba_done_with_share E call mdone)"
  unfolding handle_smvba_done_with_share_def
  by (intro keep_rules) (auto intro!: keeps_handle_smvba_done keeps_handle_smvba_rs)

lemma keeps_invoke_done_and_share:
  "(\<And>c. keeps R (call c)) \<Longrightarrow> keeps R (invoke_done_and_share E call h r)"
  unfolding invoke_done_and_share_def
  by (intro keep_rules) (auto intro!: keeps_prims keeps_handle_smvba_done_with_share)

lemma keeps_handle_spb_finish:
  "(\<And>c. keeps R (call c)) \<Longrightarrow> keeps R (handle_spb_finish E call val pf)"
  unfolding handle_spb_finish_def Let_def
  by (intro keep_rules) (auto intro!: keeps_prims keeps_silent keeps_invoke_done_and_share simp: obs_def quiet_def)

lemma keeps_handle_spb_vote:
  "(\<And>c. keeps R (call c)) \<Longrightarrow> keeps R (handle_spb_vote E call v)"
  unfolding handle_spb_vote_def
  by (intro keep_rules) (auto intro!: keeps_prims keeps_handle_spb_finish split: option.splits)

lemma keeps_process_spb_propose:
  "(\<And>c. keeps R (call c)) \<Longrightarrow> keeps R (process_spb_propose E call val pf)"
  unfolding process_spb_propose_def Let_def
  by (intro keep_rules)
    (auto intro!: keeps_prims keeps_silent keeps_make_spb_vote keeps_handle_spb_vote simp: obs_def quiet_def split: option.splits)

lemma keeps_broadcast_pes_propose:
  "(\<And>c. keeps R (call c)) \<Longrightarrow> keeps R (broadcast_pes_propose E call val pf)"
  unfolding broadcast_pes_propose_def
  by (intro keep_rules) (auto intro!: keeps_prims keeps_silent keeps_process_spb_propose simp: obs_def quiet_def)

lemma keeps_handle_spb_proposal:
  "(\<And>c. keeps R (call c)) \<Longrightarrow> keeps R (handle_spb_proposal E call val pf)"
  unfolding handle_spb_proposal_def
  by (intro keep_rules) (auto intro!: keeps_prims keeps_process_spb_propose)

lemma keeps_invoke_smvba:
  "(\<And>c. keeps R (call c)) \<Longrightarrow> keeps R (invoke_smvba E call h val sigs qc)"
  unfolding invoke_smvba_def Let_def
  by (intro keep_rules) (auto intro!: keeps_prims keeps_silent keeps_broadcast_pes_propose simp: obs_def quiet_def)

lemma keeps_fast_commit: "keeps R (fast_commit E prepare)"
  unfolding fast_commit_def by (intro keep_rules) (auto intro!: keeps_prims split: option.splits)

lemma keeps_handle_par_prepare:
  "(\<And>c. keeps R (call c)) \<Longrightarrow> keeps R (handle_par_prepare E call prepare)"
  unfolding handle_par_prepare_def Let_def
  by (intro keep_rules)
    (auto intro!: keeps_prims keeps_silent keeps_fast_commit keeps_invoke_smvba simp: obs_def quiet_def split: option.splits)

lemma keeps_active_prepare_phase:
  "(\<And>c. keeps R (call c)) \<Longrightarrow> keeps R (active_prepare_phase E call h qc val)"
  unfolding active_prepare_phase_def
  by (intro keep_rules) (auto intro!: keeps_prims keeps_silent keeps_handle_par_prepare simp: obs_def quiet_def)

lemma keeps_make_fallback_vote: "keeps R (make_fallback_vote E b)"
  unfolding make_fallback_vote_def by (auto intro!: keep_rules)

lemma keeps_handle_fallback_vote:
  "(\<And>c. keeps R (call c)) \<Longrightarrow> keeps R (handle_fallback_vote E call v)"
  unfolding handle_fallback_vote_def
  by (intro keep_rules)
    (auto intro!: keeps_prims keeps_silent keeps_active_prepare_phase simp: obs_def quiet_def split: option.splits)

lemma keeps_process_fallback_propose:
  "(\<And>c. keeps R (call c)) \<Longrightarrow> keeps R (process_fallback_propose E call b)"
  unfolding process_fallback_propose_def
  by (intro keep_rules)
    (auto intro!: keeps_prims keeps_make_fallback_vote keeps_handle_fallback_vote split: option.splits)

lemma keeps_handle_fallback_propose:
  "(\<And>c. keeps R (call c)) \<Longrightarrow> keeps R (handle_fallback_propose E call b)"
  unfolding handle_fallback_propose_def
  by (intro keep_rules) (auto intro!: keeps_prims keeps_process_fallback_propose)

lemma keeps_broadcast_fallback_propose:
  "(\<And>c. keeps R (call c)) \<Longrightarrow> keeps R (broadcast_fallback_propose E call b)"
  unfolding broadcast_fallback_propose_def
  by (intro keep_rules) (auto intro!: keeps_prims keeps_silent keeps_process_fallback_propose simp: obs_def quiet_def)

lemma keeps_invoke_fallback:
  "(\<And>c. keeps R (call c)) \<Longrightarrow> keeps R (invoke_fallback E call h qc)"
  unfolding invoke_fallback_def
  by (intro keep_rules) (auto intro!: keeps_prims keeps_silent keeps_broadcast_fallback_propose simp: obs_def quiet_def)

lemma keeps_handle_sync_request: "keeps R (handle_sync_request E d sender)"
  unfolding handle_sync_request_def by (intro keep_rules) (auto intro!: keeps_prims split: option.splits)

text \<open>The recursion and the messages of the agreement, given what the node proposes itself.\<close>

lemma keeps_exec_from:
  assumes "\<And>call. (\<And>c. keeps R (call c)) \<Longrightarrow> keeps R (opt_propose E call)"
  shows "keeps R (exec E n c)"
proof (induction n arbitrary: c)
  case 0
  then show ?case by (simp add: keeps_lift)
next
  case (Suc n)
  then show ?case
    by (cases c) (simp_all add: assms keeps_invoke_fallback keeps_broadcast_fallback_propose
        keeps_broadcast_pes_propose keeps_invoke_done_and_share)
qed

lemmas keeps_smvba_handlers = keeps_handle_fallback_propose keeps_handle_fallback_vote keeps_process_fallback_propose
  keeps_handle_spb_proposal keeps_handle_spb_vote keeps_handle_spb_finish keeps_handle_smvba_done_with_share
  keeps_handle_smvba_prevote keeps_handle_smvba_mvote keeps_handle_smvba_halt keeps_handle_par_prepare
  keeps_process_par_out

lemma keeps_smvba_event: "(\<And>c. keeps R (exec E n c)) \<Longrightarrow> keeps R (handle_event E n (SmvbaMessage msg))"
  by (cases msg) (simp_all add: keeps_smvba_handlers keeps_ret)

lemma keeps_run_start_from:
  assumes "\<And>c. keeps R (exec E n c)" and "keeps R (opt_propose E (exec E n))"
  shows "keeps R (run_start E n)"
  unfolding run_start_def using assms
  by (intro keep_rules) (auto intro!: keeps_prims keeps_ignore_err keeps_invoke_fallback split: option.splits)

text \<open>The turns of the synchronizer.\<close>

lemma keeps_csync_guard: "keeps R h \<Longrightarrow> R s (csync_guard h s)"
proof (cases "h s")
  case (Pair t r)
  assume "keeps R h"
  then have "R s t" using Pair by (rule keepsD)
  moreover have "R t (t\<lparr>k_synchronizer := (k_synchronizer t)\<lparr>cs_alive := False\<rparr>\<rparr>)"
    by (rule silent) (simp_all add: obs_def quiet_def)
  ultimately show ?thesis
    using Pair by (auto simp: csync_guard_def split: result.splits intro: R_trans)
qed

lemma csync_recv_step: "R s (csync_recv F s)"
proof -
  have sync: "R s (s\<lparr>k_synchronizer := y\<rparr>)" for y
    by (rule silent) (simp_all add: obs_def quiet_def)
  then have "R s (csync_guard (transmit msg to tag) (s\<lparr>k_synchronizer := y\<rparr>))" for y msg to tag
    using keeps_csync_guard [OF keeps_transmit] by (rule R_trans)
  then show ?thesis
    by (auto simp: csync_recv_def csync_wait_def Let_def sync R_refl split: list.splits)
qed

lemma csync_timer_step: "R s (csync_timer s)"
  unfolding csync_timer_def
  by (rule keeps_csync_guard) (auto intro!: keep_rules keeps_transmit)

lemmas mempool_change = mempool

text \<open>The other actors of a node.\<close>

lemma other_actors_keep:
  "mempool_step E (k_mempool s) m \<Longrightarrow> R s (s\<lparr>k_mempool := m\<rparr>)" "R s (csync_recv F s)" "R s (csync_deliver F i s)"
  "R s (csync_fail i s)" "R s (csync_timer s)" "R s (s\<lparr>k_clock := k_clock s + d\<rparr>)"
proof -
  show "mempool_step E (k_mempool s) m \<Longrightarrow> R s (s\<lparr>k_mempool := m\<rparr>)" by (rule mempool_change)
  show "R s (csync_recv F s)" by (rule csync_recv_step)
  show "R s (csync_deliver F i s)"
    by (rule silent) (simp_all add: obs_def quiet_def csync_deliver_def Let_def split: prod.splits)
  show "R s (csync_fail i s)" by (rule silent) (simp_all add: obs_def quiet_def csync_fail_def Let_def)
  show "R s (csync_timer s)" by (rule csync_timer_step)
  show "R s (s\<lparr>k_clock := k_clock s + d\<rparr>)" by (rule silent) (simp_all add: obs_def quiet_def)
qed

lemma actor_step_keeps:
  assumes "actor_step E s t" and "\<And>n. keeps R (run_start E n)"
  shows "R s t"
  using assms(1)
proof (induction rule: actor_step.induct)
  case (start s n)
  show ?case using assms(2) by (simp add: keeps_def)
qed (rule other_actors_keep, assumption?)+

end

text \<open>
  With the three changes of the optimistic path added, without any condition on what is voted for, the relation is
  kept by everything a node does within an epoch.
\<close>

locale core_order = core_frame R E
  for R :: "Core \<Rightarrow> Core \<Rightarrow> bool" and E :: "'z node_ext_scheme" +
  assumes touch_vote: "k_last_voted_height s < h \<Longrightarrow> R s (s\<lparr>k_last_voted_height := h\<rparr>)"
    and sign: "k_last_voted_height s < hv_height v \<Longrightarrow> opt_vote_for s v \<Longrightarrow>
      R s (s\<lparr>k_last_voted_height := hv_height v, k_signed_votes := k_signed_votes s @ [v]\<rparr>)"
    and high_qc: "qc_height (k_high_qc s) < qc_height qc \<Longrightarrow> R s (s\<lparr>k_high_qc := qc\<rparr>)"
    and count: "R s (s\<lparr>k_aggregator := fst (add_hs_vote v (k_aggregator s))\<rparr>)"
begin

lemma keeps_process_qc: "keeps R (process_qc qc)"
proof -
  have "R s (update_high_qc qc s)" for s
    by (simp add: update_high_qc_def high_qc R_refl)
  with advance_height_step show ?thesis
    unfolding process_qc_def by (intro keep_rules) (auto intro!: keeps_modify)
qed

lemma keeps_count: "keeps R (in_aggregator (add_hs_vote v))"
  using count by (simp add: keeps_def in_aggregator_def case_prod_beta)

lemma keeps_count_opt_vote:
  "(\<And>c. keeps R (call c)) \<Longrightarrow> keeps R (count_opt_vote call idx v)"
  unfolding count_opt_vote_def
  by (intro keep_rules) (auto intro!: keeps_prims keeps_count keeps_process_qc split: option.splits)

lemma keeps_handle_opt_vote:
  "(\<And>c. keeps R (call c)) \<Longrightarrow> keeps R (handle_opt_vote E call v)"
  unfolding handle_opt_vote_def
  by (intro keep_rules) (auto intro!: keeps_prims keeps_count_opt_vote)

lemma keeps_send_opt_vote:
  "(\<And>c. keeps R (call c)) \<Longrightarrow> keeps R (send_opt_vote E call v)"
  unfolding send_opt_vote_def
  by (intro keep_rules) (auto intro!: keeps_prims keeps_handle_opt_vote)

lemma make_opt_vote_guarded:
  assumes "\<not> b_height b \<noteq> k_height s"
  shows "R s (fst (make_opt_vote E b s))"
proof (cases "k_last_voted_height s < b_height b \<and> qc_height (b_qc b) + 1 = b_height b")
  case True
  have lv: "max (k_last_voted_height s) (b_height b) = b_height b" using True by simp
  have "R s (s\<lparr>k_last_voted_height := b_height b\<rparr>)" using True by (intro touch_vote) simp
  moreover have "R s (s\<lparr>k_last_voted_height := b_height b, k_signed_votes := k_signed_votes s @ [v]\<rparr>)"
    if "hvote_new E (k_signature_service s) b (k_name s) OPT = (Ok v :: HVote ConsensusResult)" for v
  proof -
    have "hv_height v = b_height b" "hv_author v = k_name s" "hv_tag v = OPT"
      using that by (auto simp: hvote_new_def Let_def rbind_Ok)
    with True assms sign [of s v] show ?thesis by (simp add: opt_vote_for_def)
  qed
  ultimately show ?thesis
    using True lv by (auto simp: make_opt_vote_def comp_defs increase_last_voted_round_def split: result.splits)
next
  case False
  then have "fst (make_opt_vote E b s) = s" by (auto simp: make_opt_vote_def readM_def ret_def)
  then show ?thesis by (simp add: R_refl)
qed

lemma keeps_vote_opt_block:
  "(\<And>c. keeps R (call c)) \<Longrightarrow> keeps R (vote_opt_block E call b)"
  unfolding vote_opt_block_def
  by (intro keeps_unless_first make_opt_vote_guarded) (auto intro!: keep_rules keeps_send_opt_vote split: option.splits)

lemma keeps_process_opt_block:
  "(\<And>c. keeps R (call c)) \<Longrightarrow> keeps R (process_opt_block E call b)"
  unfolding process_opt_block_def
  by (intro keep_rules)
    (auto intro!: keeps_prims keeps_active_prepare_phase keeps_invoke_fallback keeps_vote_opt_block split: option.splits)

lemma keeps_handle_opt_proposal:
  "(\<And>c. keeps R (call c)) \<Longrightarrow> keeps R (handle_opt_proposal E call b)"
  unfolding handle_opt_proposal_def
  by (intro keep_rules) (auto intro!: keeps_prims keeps_process_qc keeps_process_opt_block)

lemma keeps_opt_propose:
  "(\<And>c. keeps R (call c)) \<Longrightarrow> keeps R (opt_propose E call)"
  unfolding opt_propose_def
  by (intro keep_rules) (auto intro!: keeps_prims keeps_process_opt_block)

lemma keeps_exec: "keeps R (exec E n c)"
  by (rule keeps_exec_from) (rule keeps_opt_propose)

lemma keeps_event: "keeps R (handle_event E n ev)"
proof (cases ev)
  case (CoreMessage msg)
  then show ?thesis
    by (cases msg) (simp_all add: keeps_handle_opt_proposal keeps_handle_opt_vote keeps_process_opt_block
        keeps_handle_sync_request keeps_exec keeps_ret)
next
  case (SmvbaMessage msg)
  then show ?thesis using keeps_smvba_event [OF keeps_exec] by simp
next
  case TimerFired
  then show ?thesis by (simp add: keeps_opt_propose keeps_exec)
qed

lemma keeps_run_start: "keeps R (run_start E n)"
  by (intro keeps_run_start_from keeps_exec keeps_opt_propose)

lemma epoch_step_keeps: "epoch_step E s t \<Longrightarrow> R s t"
proof (induction rule: epoch_step.induct)
  case (event s n ev)
  show ?case using keeps_event by (simp add: keeps_def)
next
  case (actor s t)
  then show ?case using actor_step_keeps keeps_run_start by blast
qed

lemma epoch_run_keeps: "(epoch_step E)\<^sup>*\<^sup>* s t \<Longrightarrow> R s t"
  by (induction rule: rtranclp_induct) (auto intro: R_refl R_trans epoch_step_keeps)

end

end
