(* ===== verification/Core_Props.thy ===== *)
theory Core_Props
  imports Core_Frame Mempool_Props
begin

text \<open>
  The safety properties of one node: interpretations of \<open>core_order\<close>, each a relation between the state
  before and after any number of steps of an epoch. The messages are arbitrary, so the properties hold whatever the
  other nodes send.
\<close>

section \<open>Votes\<close>

text \<open>The votes signed meanwhile are of strictly growing heights, above the last voted height before.\<close>

definition votes_grow :: "Core \<Rightarrow> Core \<Rightarrow> bool" where
  "votes_grow s t \<longleftrightarrow> k_name t = k_name s \<and> k_last_voted_height s \<le> k_last_voted_height t \<and>
     (\<exists>vs. k_signed_votes t = k_signed_votes s @ vs \<and>
        sorted_wrt (\<lambda>v w. hv_height v < hv_height w) vs \<and>
        (\<forall>v \<in> set vs. k_last_voted_height s < hv_height v \<and> hv_height v \<le> k_last_voted_height t \<and>
           hv_author v = k_name s \<and> hv_tag v = OPT))"

lemma votes_grow_trans:
  assumes "votes_grow s t" and "votes_grow t u"
  shows "votes_grow s u"
proof -
  from assms(1) obtain vs where vs: "k_signed_votes t = k_signed_votes s @ vs" "sorted_wrt (\<lambda>v w. hv_height v < hv_height w) vs"
    "\<forall>v \<in> set vs. k_last_voted_height s < hv_height v \<and> hv_height v \<le> k_last_voted_height t \<and> hv_author v = k_name s \<and> hv_tag v = OPT"
    "k_name t = k_name s" "k_last_voted_height s \<le> k_last_voted_height t" by (auto simp: votes_grow_def)
  from assms(2) obtain ws where ws: "k_signed_votes u = k_signed_votes t @ ws" "sorted_wrt (\<lambda>v w. hv_height v < hv_height w) ws"
    "\<forall>v \<in> set ws. k_last_voted_height t < hv_height v \<and> hv_height v \<le> k_last_voted_height u \<and> hv_author v = k_name t \<and> hv_tag v = OPT"
    "k_name u = k_name t" "k_last_voted_height t \<le> k_last_voted_height u" by (auto simp: votes_grow_def)
  have "sorted_wrt (\<lambda>v w. hv_height v < hv_height w) (vs @ ws)"
    using vs(2,3) ws(2,3) by (auto simp: sorted_wrt_append intro: le_less_trans)
  moreover have "\<forall>v \<in> set (vs @ ws). k_last_voted_height s < hv_height v \<and> hv_height v \<le> k_last_voted_height u \<and>
      hv_author v = k_name s \<and> hv_tag v = OPT"
    using vs ws by (auto intro: order.trans le_less_trans)
  ultimately show ?thesis
    using vs ws unfolding votes_grow_def by (intro conjI exI [of _ "vs @ ws"]) auto
qed

lemma votes_grow_same:
  "k_name t = k_name s \<Longrightarrow> k_last_voted_height t = k_last_voted_height s \<Longrightarrow> k_signed_votes t = k_signed_votes s \<Longrightarrow> votes_grow s t"
  by (simp add: votes_grow_def)

interpretation votes: core_order votes_grow E for E
proof unfold_locales
  fix s :: Core and v
  assume "k_last_voted_height s < hv_height v" and "opt_vote_for s v"
  then show "votes_grow s (s\<lparr>k_last_voted_height := hv_height v, k_signed_votes := k_signed_votes s @ [v]\<rparr>)"
    by (auto simp: votes_grow_def opt_vote_for_def)
next
  fix s :: Core and h
  assume "k_last_voted_height s < h"
  then show "votes_grow s (s\<lparr>k_last_voted_height := h\<rparr>)"
    by (simp add: votes_grow_def)
qed (auto simp: obs_def intro: votes_grow_same elim: votes_grow_trans)

section \<open>Commits\<close>

definition commits_grow :: "Core \<Rightarrow> Core \<Rightarrow> bool" where
  "commits_grow s t \<longleftrightarrow> (\<exists>bs. k_commit_channel t = k_commit_channel s @ bs \<and>
     sorted_wrt (\<lambda>a b. b_height a < b_height b) bs \<and> (\<forall>b \<in> set bs. k_last_committed_height s < b_height b) \<and>
     k_last_committed_height t = (if bs = [] then k_last_committed_height s else b_height (last bs)))"

lemma sorted_last_height:
  "sorted_wrt (\<lambda>a b. b_height a < b_height b) bs \<Longrightarrow> b \<in> set bs \<Longrightarrow> b_height b \<le> b_height (last bs)"
proof (induction bs)
  case (Cons a bs)
  then show ?case by (cases "bs = []") (auto intro: less_imp_le)
qed simp

lemma commits_grow_trans:
  assumes "commits_grow s t" and "commits_grow t u"
  shows "commits_grow s u"
proof -
  from assms(1) obtain bs where bs: "k_commit_channel t = k_commit_channel s @ bs" "sorted_wrt (\<lambda>a b. b_height a < b_height b) bs"
    "\<forall>b \<in> set bs. k_last_committed_height s < b_height b"
    "k_last_committed_height t = (if bs = [] then k_last_committed_height s else b_height (last bs))"
    by (auto simp: commits_grow_def)
  from assms(2) obtain cs where cs: "k_commit_channel u = k_commit_channel t @ cs" "sorted_wrt (\<lambda>a b. b_height a < b_height b) cs"
    "\<forall>b \<in> set cs. k_last_committed_height t < b_height b"
    "k_last_committed_height u = (if cs = [] then k_last_committed_height t else b_height (last cs))"
    by (auto simp: commits_grow_def)
  have le: "k_last_committed_height s \<le> k_last_committed_height t"
    using bs(3,4) by (cases "bs = []") (auto simp: less_imp_le)
  have below: "b_height b \<le> k_last_committed_height t" if "b \<in> set bs" for b
    using sorted_last_height [OF bs(2) that] bs(4) that by (auto split: if_splits)
  have "sorted_wrt (\<lambda>a b. b_height a < b_height b) (bs @ cs)"
    using bs(2) cs(2,3) below by (auto simp: sorted_wrt_append intro: le_less_trans)
  moreover have "\<forall>b \<in> set (bs @ cs). k_last_committed_height s < b_height b"
    using bs(3) cs(3) le by (auto intro: le_less_trans)
  moreover have "k_last_committed_height u = (if bs @ cs = [] then k_last_committed_height s else b_height (last (bs @ cs)))"
    using bs(4) cs(4) by auto
  ultimately show ?thesis
    using bs(1) cs(1) unfolding commits_grow_def by (intro exI [of _ "bs @ cs"]) simp
qed

lemma commits_grow_same:
  "k_commit_channel t = k_commit_channel s \<Longrightarrow> k_last_committed_height t = k_last_committed_height s \<Longrightarrow> commits_grow s t"
  by (simp add: commits_grow_def)

interpretation commits: core_order commits_grow E for E
proof unfold_locales
  fix s :: Core and b :: Block
  assume "k_last_committed_height s < b_height b"
  then show "commits_grow s (s\<lparr>k_last_committed_height := b_height b, k_commit_channel := k_commit_channel s @ [b]\<rparr>)"
    by (auto simp: commits_grow_def)
qed (auto simp: obs_def intro: commits_grow_same elim: commits_grow_trans)

section \<open>What an epoch leaves alone\<close>

definition same_setup :: "Core \<Rightarrow> Core \<Rightarrow> bool" where
  "same_setup s t \<longleftrightarrow> k_name t = k_name s \<and> k_committee t = k_committee s \<and> k_parameters t = k_parameters s \<and>
     k_signature_service t = k_signature_service s \<and> k_pk_set t = k_pk_set s \<and> k_epoch t = k_epoch s \<and>
     k_fallback_length t = k_fallback_length s \<and> k_opt_path t = k_opt_path s \<and> k_pes_path t = k_pes_path s"

interpretation fixed: core_order same_setup E for E
  by unfold_locales (auto simp: obs_def same_setup_def)

section \<open>The highest certificate\<close>

definition high_qc_grows :: "Core \<Rightarrow> Core \<Rightarrow> bool" where
  "high_qc_grows s t \<longleftrightarrow> qc_height (k_high_qc s) < qc_height (k_high_qc t) \<or> k_high_qc t = k_high_qc s"

interpretation high_qc: core_order high_qc_grows E for E
  by unfold_locales (auto simp: obs_def high_qc_grows_def)

lemma high_qc_never_lowered:
  "(epoch_step E)\<^sup>*\<^sup>* s t \<Longrightarrow> qc_height (k_high_qc s) < qc_height (k_high_qc t) \<or> k_high_qc t = k_high_qc s"
  using high_qc.epoch_run_keeps by (simp add: high_qc_grows_def)

section \<open>Coins\<close>

text \<open>A coin, once known, stays what it is, and the order of the members does not change.\<close>

definition coins_grow :: "Core \<Rightarrow> Core \<Rightarrow> bool" where
  "coins_grow s t \<longleftrightarrow> le_names (k_leader_elector t) = le_names (k_leader_elector s) \<and>
     le_name_to_idx (k_leader_elector t) = le_name_to_idx (k_leader_elector s) \<and>
     le_window (k_leader_elector t) = le_window (k_leader_elector s) \<and>
     le_random_coins (k_leader_elector s) \<subseteq>\<^sub>m le_random_coins (k_leader_elector t)"

interpretation coins: core_order coins_grow E for E
proof unfold_locales
  fix s :: Core and coin :: RandomCoin
  assume "le_random_coins (k_leader_elector s) (rc_height coin, rc_round coin) = None"
  then show "coins_grow s (s\<lparr>k_leader_elector := add_random_coin coin (k_leader_elector s)\<rparr>)"
    by (auto simp: coins_grow_def add_random_coin_def map_le_def)
qed (auto simp: obs_def coins_grow_def intro: map_le_trans)

section \<open>Parked messages\<close>

definition parked_grow :: "Core \<Rightarrow> Core \<Rightarrow> bool" where
  "parked_grow s t \<longleftrightarrow> k_epoch t = k_epoch s \<and>
     (\<exists>ps. k_unhandle_message t = k_unhandle_message s @ ps \<and> (\<forall>(e, msg) \<in> set ps. k_epoch s < e \<and> parkable e msg))"

interpretation parked: core_order parked_grow E for E
  by unfold_locales (fastforce simp: obs_def parked_grow_def)+

section \<open>The mempool\<close>

text \<open>The core acts on the mempool through its interface only, so the invariant of the mempool lasts.\<close>

lemma mempool_reaches_trans: "mempool_reaches E b c \<Longrightarrow> mempool_reaches E a b \<Longrightarrow> mempool_reaches E a c"
  by (induction rule: mempool_reaches.induct) (auto intro: mempool_reaches.more)

interpretation pool: core_order "\<lambda>s t. mempool_reaches E (k_mempool s) (k_mempool t)" E for E
  by unfold_locales
    (auto simp: obs_def intro: mempool_reaches.start mempool_reaches_trans mempool_reaches.more [OF mempool_reaches.start])

section \<open>Aggregation\<close>

text \<open>Every maker has been fed from its start, with one entry per voter, so what is emitted has a quorum.\<close>

definition qc_maker_ok :: "Committee \<Rightarrow> QCMaker \<Rightarrow> bool" where
  "qc_maker_ok c m \<longleftrightarrow> (\<exists>n. qm.counted c m n) \<and> maker_from UNIV m"

definition proof_maker_ok :: "Committee \<Rightarrow> ProofMaker \<Rightarrow> bool" where
  "proof_maker_ok c m \<longleftrightarrow> (\<exists>n. pm.counted c m n)"

definition makers_ok :: "Aggregator \<Rightarrow> bool" where
  "makers_ok a \<longleftrightarrow>
     (\<forall>k. qc_maker_ok (ag_committee a) (entry_or (ag_hs a) k qcmaker_new)) \<and>
     (\<forall>k. qc_maker_ok (ag_committee a) (entry_or (ag_fallback a) k qcmaker_new)) \<and>
     (\<forall>k. proof_maker_ok (ag_committee a) (entry_or (ag_spb a) k proofmaker_new)) \<and>
     (\<forall>k. proof_maker_ok (ag_committee a) (entry_or (ag_pre a) k proofmaker_new))"

lemma entry_or_update: "entry_or (m(k \<mapsto> v)) k' d = (if k' = k then v else entry_or m k' d)"
  by (simp add: entry_or_def)

lemma entry_or_retain: "entry_or (retain P m) k d = (if P k then entry_or m k d else d)"
  by (simp add: entry_or_def retain_def)

lemma qc_maker_ok_append:
  assumes "bft_committee c" and "qc_maker_ok c m"
  shows "qc_maker_ok c (fst (qcmaker_append c v m))"
proof -
  obtain n where "qm.counted c m n" and m: "maker_from UNIV m" using assms(2) by (auto simp: qc_maker_ok_def)
  obtain m' r where app: "qcmaker_append c v m = (m', r)" by force
  with qcmaker_append_from [OF m UNIV_I app] qm.counted_append [OF assms(1) \<open>qm.counted c m n\<close>, of v]
  show ?thesis by (simp add: qc_maker_ok_def)
qed

lemma proof_maker_ok_append:
  assumes "bft_committee c" and "proof_maker_ok c m"
  shows "proof_maker_ok c (fst (proofmaker_append c v m))"
  using assms pm.counted_append [OF assms(1)] by (auto simp: proof_maker_ok_def)

lemma makers_fresh: "bft_committee c \<Longrightarrow> qc_maker_ok c qcmaker_new" "bft_committee c \<Longrightarrow> proof_maker_ok c proofmaker_new"
  using qm.counted_fresh [of c] pm.counted_fresh [of c]
  by (auto simp: qc_maker_ok_def proof_maker_ok_def bft_committee_def)

lemma agg_step_committee: "agg_step E a a' \<Longrightarrow> ag_committee a' = ag_committee a"
  by (induction rule: agg_step.induct) simp_all

lemma add_hs_makers:
  assumes "bft_committee (ag_committee a)" and "makers_ok a"
  shows "makers_ok (fst (add_hs_vote v a)) \<and> ag_committee (fst (add_hs_vote v a)) = ag_committee a"
  using assms
  by (auto simp: makers_ok_def add_hs_vote_def Let_def entry_or_update qc_maker_ok_append [where v = v] case_prod_beta)

lemma agg_step_makers:
  assumes "agg_step E a a'" and "bft_committee (ag_committee a)" and "makers_ok a"
  shows "makers_ok a'"
  using assms
proof (induction rule: agg_step.induct)
  case (fallback a v)
  then show ?case
    by (auto simp: makers_ok_def add_fallback_vote_def Let_def entry_or_update qc_maker_ok_append [where v = v] case_prod_beta)
next
  case (spb a w)
  then show ?case
    by (auto simp: makers_ok_def add_spb_vote_def Let_def entry_or_update proof_maker_ok_append [where v = w] case_prod_beta)
next
  case (pre a w)
  then show ?case
    by (auto simp: makers_ok_def add_pre_vote_def Let_def entry_or_update proof_maker_ok_append [where v = w] case_prod_beta)
next
  case (coin a pk_set share)
  then show ?case by (auto simp: makers_ok_def add_smvba_random_def Let_def case_prod_beta)
next
  case (clean_hs a h)
  then show ?case by (auto simp: makers_ok_def cleanup_hs_vote_def entry_or_retain makers_fresh)
next
  case (clean_smvba a h)
  then show ?case
    by (auto simp: makers_ok_def cleanup_spb_vote_def cleanup_mvba_random_def entry_or_retain makers_fresh)
qed

definition makers_stay_ok :: "Core \<Rightarrow> Core \<Rightarrow> bool" where
  "makers_stay_ok s t \<longleftrightarrow> ag_committee (k_aggregator t) = ag_committee (k_aggregator s) \<and>
     (bft_committee (ag_committee (k_aggregator s)) \<and> makers_ok (k_aggregator s) \<longrightarrow> makers_ok (k_aggregator t))"

interpretation makers: core_order makers_stay_ok E for E
  by unfold_locales (auto simp: obs_def makers_stay_ok_def agg_step_committee add_hs_makers dest: agg_step_makers)

lemma makers_ok_new: "bft_committee c \<Longrightarrow> makers_ok (aggregator_new c)"
  by (simp add: makers_ok_def aggregator_new_def entry_or_def makers_fresh)

lemma emitted_qc:
  assumes "bft_committee (ag_committee a)" and "makers_ok a" and "add_hs_vote v a = (a', Ok (Some qc))"
  shows "has_quorum (ag_committee a) (voters qc) \<and> distinct (map fst (qc_votes qc)) \<and>
    qc_height qc = hv_height v \<and> qc_hash qc = hv_hash v"
proof -
  let ?m = "entry_or (ag_hs a) (hv_height v, hv_hash v) qcmaker_new"
  obtain m' where app: "qcmaker_append (ag_committee a) v ?m = (m', Ok (Some qc))"
    using assms(3) by (auto simp: add_hs_vote_def Let_def split: prod.splits)
  from assms(2) have "qc_maker_ok (ag_committee a) ?m" by (simp add: makers_ok_def)
  then obtain n where n: "qm.counted (ag_committee a) ?m n" and from_m: "maker_from UNIV ?m"
    unfolding qc_maker_ok_def by blast
  from qcmaker_append_from [OF from_m UNIV_I app] have m': "maker_from UNIV m'" and qc: "qc = qc_of_vote v (qm_votes m')" by auto
  from qm.emission_has_quorum(3) [OF assms(1) n app] m' have "has_quorum (ag_committee a) (voters qc)"
    by (simp add: qc voters_def maker_from_def)
  with m' show ?thesis by (simp add: qc qc_of_vote_def maker_from_def votes_from_def)
qed

end
