(* ===== verification/Commit_Props.thy ===== *)
theory Commit_Props
  imports Core_Props
begin

text \<open>
  The walk of \<open>commit\<close> over the ancestors of a block: what it logs, as a function of the store, and that its
  fuel is enough whenever the parent links in the store have no cycle.
\<close>

section \<open>The walk as a function\<close>

definition parent_in :: "'z node_ext_scheme \<Rightarrow> Store \<Rightarrow> Block \<Rightarrow> Block option ConsensusResult" where
  "parent_in E st b = (if qc_eq (b_qc b) qc_genesis then Ok (Some block_genesis) else read_block E st (block_parent b))"

text \<open>A path of parents in the store, newest block first.\<close>

fun parents_linked :: "'z node_ext_scheme \<Rightarrow> Store \<Rightarrow> Block list \<Rightarrow> bool" where
  "parents_linked E st (b # p # bs) \<longleftrightarrow> parent_in E st b = Ok (Some p) \<and> parents_linked E st (p # bs)"
| "parents_linked E st bs \<longleftrightarrow> True"

text \<open>
  The path from a block as far as it goes: all its blocks are above the committed height, and it ends where the
  parent of the last one is not above it (\<open>complete\<close>) or is not in the store.
\<close>

definition path_down :: "'z node_ext_scheme \<Rightarrow> Store \<Rightarrow> SeqNumber \<Rightarrow> Block \<Rightarrow> Block list \<Rightarrow> bool \<Rightarrow> bool" where
  "path_down E st committed_height b bs complete \<longleftrightarrow> bs \<noteq> [] \<and> hd bs = b \<and> parents_linked E st bs \<and>
     (\<forall>x \<in> set bs. committed_height < b_height x) \<and>
     (if complete then \<exists>p. parent_in E st (last bs) = Ok (Some p) \<and> b_height p \<le> committed_height
      else parent_in E st (last bs) = Ok None)"

lemma cleanup_store: "mp_store (fst (driver_cleanup_par E b m)) = mp_store m"
proof -
  have fold: "mp_store (fold (\<lambda>x m. pes_remove E x (opt_remove E x m)) ds m) = mp_store m" for ds m
    by (induction ds arbitrary: m) simp_all
  then have "mp_store (fst (mempool_cleanup E ds h m)) = mp_store m" for ds h
    by (simp add: mempool_cleanup_def msync_cleanup_def msync_send_def comp_defs)
  then show ?thesis
    by (simp add: driver_cleanup_par_def mempool_turn_def split: prod.splits result.splits) (metis fst_conv)
qed

text \<open>One turn of the loop: what it leaves of the state, and its result.\<close>

lemma commit_block_effect:
  assumes "commit_block E b s = (t, r)"
  shows "k_store t = k_store s \<and> k_last_committed_height t = k_last_committed_height s \<and> r \<noteq> OutOfFuel \<and>
    k_synchronizer t = k_synchronizer s \<and>
    (r = Ok () \<longrightarrow> k_commit_log t = k_commit_log s @ filter (\<lambda>b. b_payload b \<noteq> []) [b])"
proof (cases "b_payload b = []")
  case True
  with assms show ?thesis by (auto simp: commit_block_def comp_defs)
next
  case False
  obtain m r' where c: "driver_cleanup_par E b (k_mempool s) = (m, r')" by force
  then have "mp_store m = k_store s" "r' \<noteq> OutOfFuel" "\<forall>e. r' \<noteq> Err e"
    using cleanup_store [of E b "k_mempool s"] by (auto simp: driver_cleanup_par_def split: if_splits)
  with False assms c show ?thesis
    by (auto simp: commit_block_def comp_defs in_mempool_def split: result.splits)
qed

lemma get_parent_effect:
  assumes "get_parent_block E b s = (t, r)"
  shows "k_store t = k_store s \<and> k_last_committed_height t = k_last_committed_height s \<and> k_commit_log t = k_commit_log s \<and>
    (r = parent_in E (k_store s) b \<or> r = Panic \<and> parent_in E (k_store s) b = Ok None) \<and>
    cs_inner_channel (k_synchronizer t) = cs_inner_channel (k_synchronizer s) @ (if r = Ok None then [b] else [])"
  using assms
  by (auto simp: get_parent_block_def parent_in_def comp_defs request_parent_def split: if_splits result.splits option.splits)

lemma commit_loop_step:
  assumes "k_last_committed_height s < b_height b"
  obtains s1 r1 s2 r2 where "commit_block E b s = (s1, r1)" and "get_parent_block E b s1 = (s2, r2)"
    and "commit_loop E (Suc n) b s = (case r1 of
        Ok _ \<Rightarrow> (case r2 of
            Ok (Some p) \<Rightarrow> commit_loop E n p s2
          | Ok None \<Rightarrow> (s2, Ok ())
          | Err e \<Rightarrow> (s2, Err e) | Panic \<Rightarrow> (s2, Panic) | OutOfFuel \<Rightarrow> (s2, OutOfFuel))
      | Err e \<Rightarrow> (s1, Err e) | Panic \<Rightarrow> (s1, Panic) | OutOfFuel \<Rightarrow> (s1, OutOfFuel))"
proof -
  obtain s1 r1 where 1: "commit_block E b s = (s1, r1)" by force
  obtain s2 r2 where 2: "get_parent_block E b s1 = (s2, r2)" by force
  have fin: "(case x of (s', Ok u) \<Rightarrow> (s', Ok ()) | (s', Err e) \<Rightarrow> (s', Err e) | (s', Panic) \<Rightarrow> (s', Panic)
      | (s', OutOfFuel) \<Rightarrow> (s', OutOfFuel)) = x" for x :: "Core \<times> unit ConsensusResult"
    by (auto split: prod.splits result.splits)
  show ?thesis
    by (rule that [OF 1 2]) (use assms 1 2 fin in \<open>auto simp: whenM_def bindM_def ret_def split: result.splits option.splits\<close>)
qed

lemma path_down_Cons:
  assumes "path_down E st h p bs complete" and "parent_in E st b = Ok (Some p)" and "h < b_height b"
  shows "path_down E st h b (b # bs) complete"
proof -
  obtain ps where "bs = p # ps" using assms(1) by (cases bs) (auto simp: path_down_def)
  with assms show ?thesis by (cases complete) (auto simp: path_down_def)
qed

lemma commit_loop_path:
  assumes "commit_loop E n b s = (t, Ok ())" and "k_last_committed_height s < b_height b"
  shows "\<exists>bs complete. path_down E (k_store s) (k_last_committed_height s) b bs complete \<and>
    k_commit_log t = k_commit_log s @ filter (\<lambda>b. b_payload b \<noteq> []) bs \<and>
    cs_inner_channel (k_synchronizer t) = cs_inner_channel (k_synchronizer s) @ (if complete then [] else [last bs])"
  using assms
proof (induction n arbitrary: b s)
  case 0
  then show ?case by (simp add: liftR_def)
next
  case (Suc n)
  obtain s1 r1 s2 r2 where 1: "commit_block E b s = (s1, r1)" and 2: "get_parent_block E b s1 = (s2, r2)"
    and loop: "commit_loop E (Suc n) b s = (case r1 of
        Ok _ \<Rightarrow> (case r2 of Ok (Some p) \<Rightarrow> commit_loop E n p s2 | Ok None \<Rightarrow> (s2, Ok ())
          | Err e \<Rightarrow> (s2, Err e) | Panic \<Rightarrow> (s2, Panic) | OutOfFuel \<Rightarrow> (s2, OutOfFuel))
      | Err e \<Rightarrow> (s1, Err e) | Panic \<Rightarrow> (s1, Panic) | OutOfFuel \<Rightarrow> (s1, OutOfFuel))"
    using commit_loop_step [OF Suc.prems(2)] .
  from loop Suc.prems(1) have r1: "r1 = Ok ()" by (auto split: result.splits)
  note e1 = commit_block_effect [OF 1] and e2 = get_parent_effect [OF 2]
  from loop Suc.prems(1) r1 obtain p where r2: "r2 = Ok p" by (auto split: result.splits)
  with e1 e2 have p: "parent_in E (k_store s) b = Ok p" by auto
  show ?case
  proof (cases p)
    case None
    with loop Suc.prems r1 r2 have "t = s2" by simp
    moreover have "path_down E (k_store s) (k_last_committed_height s) b [b] False"
      using p None Suc.prems(2) by (simp add: path_down_def)
    ultimately show ?thesis using e1 e2 r1 r2 None by (intro exI [of _ "[b]"] exI [of _ False]) simp
  next
    case (Some q)
    with loop Suc.prems(1) r1 r2 have rest: "commit_loop E n q s2 = (t, Ok ())" by simp
    show ?thesis
    proof (cases "k_last_committed_height s2 < b_height q")
      case True
      from Suc.IH [OF rest True] obtain bs complete where
        path: "path_down E (k_store s) (k_last_committed_height s) q bs complete"
        and log: "k_commit_log t = k_commit_log s2 @ filter (\<lambda>b. b_payload b \<noteq> []) bs"
        and chan: "cs_inner_channel (k_synchronizer t) = cs_inner_channel (k_synchronizer s2) @ (if complete then [] else [last bs])"
        using e1 e2 by auto
      have "path_down E (k_store s) (k_last_committed_height s) b (b # bs) complete"
        using path_down_Cons [OF path] p Some Suc.prems(2) by simp
      moreover have "bs \<noteq> []" using path by (simp add: path_down_def)
      ultimately show ?thesis using log chan e1 e2 r1 r2 Some by (intro exI [of _ "b # bs"] exI [of _ complete]) simp
    next
      case False
      with rest have "t = s2" by (cases n) (auto simp: whenM_def liftR_def)
      moreover have "path_down E (k_store s) (k_last_committed_height s) b [b] True"
        using p Some Suc.prems(2) False e1 e2 by (simp add: path_down_def not_less)
      ultimately show ?thesis using e1 e2 r1 r2 Some by (intro exI [of _ "[b]"] exI [of _ True]) simp
    qed
  qed
qed

section \<open>The walk ends\<close>

text \<open>
  A rank that decreases from a stored block's own digest to its parent's: SHA-512 has no
  known cycles, and a block contains the digest of its parent.
\<close>

definition acyclic_store :: "'z node_ext_scheme \<Rightarrow> Store \<Rightarrow> (Digest \<Rightarrow> nat) \<Rightarrow> bool" where
  "acyclic_store E st rank \<longleftrightarrow> (\<forall>d b. read_block E st d = Ok (Some b) \<longrightarrow> rank (block_parent b) < rank d)"

definition stored_blocks :: "'z node_ext_scheme \<Rightarrow> Store \<Rightarrow> Digest set" where
  "stored_blocks E st = {d. \<exists>b. read_block E st d = Ok (Some b)}"

lemma stored_blocks_bound:
  assumes "rocksdb_ok E"
  shows "finite (stored_blocks E st) \<and> card (stored_blocks E st) \<le> length (st_db st)"
proof -
  have "map_of (st_db st) (digest_to_vec d) \<noteq> None" if "d \<in> stored_blocks E st" for d
    using that assms by (auto simp: stored_blocks_def read_block_def store_read_def rocksdb_ok_def split: option.splits)
  then have sub: "digest_to_vec ` stored_blocks E st \<subseteq> fst ` set (st_db st)"
    by (force dest: map_of_SomeD)
  have inj: "inj_on digest_to_vec (stored_blocks E st)"
    by (auto simp: inj_on_def digest_to_vec_def Digest.expand)
  have "finite (digest_to_vec ` stored_blocks E st)" using sub by (rule finite_subset) simp
  then have fin: "finite (stored_blocks E st)" using inj by (simp add: finite_image_iff)
  have "card (stored_blocks E st) = card (digest_to_vec ` stored_blocks E st)"
    using inj by (simp add: card_image)
  also have "\<dots> \<le> card (fst ` set (st_db st))" using sub by (intro card_mono) auto
  also have "\<dots> \<le> length (st_db st)"
    by (metis card_length length_map list.set_map)
  finally show ?thesis using fin by simp
qed

lemma read_block_no_OutOfFuel:
  assumes "rocksdb_ok E"
  shows "read_block E st d \<noteq> OutOfFuel"
proof (cases "map_of (st_db st) (digest_to_vec d)")
  case None
  with assms show ?thesis by (simp add: read_block_def store_read_def rocksdb_ok_def)
next
  case (Some bytes)
  with assms show ?thesis
    by (cases "de_block E bytes") (simp_all add: read_block_def store_read_def rocksdb_ok_def)
qed

definition below :: "'z node_ext_scheme \<Rightarrow> Store \<Rightarrow> (Digest \<Rightarrow> nat) \<Rightarrow> nat \<Rightarrow> Digest set" where
  "below E st rank r = {d \<in> stored_blocks E st. rank d \<le> r}"

lemma commit_loop_ends:
  assumes "rocksdb_ok E" and "acyclic_store E (k_store s) rank"
    and "card (below E (k_store s) rank (rank (block_parent b))) + 2 \<le> n"
  shows "snd (commit_loop E n b s) \<noteq> OutOfFuel"
  using assms(2,3)
proof (induction n arbitrary: b s)
  case 0
  then show ?case by simp
next
  case (Suc n)
  show ?case
  proof (cases "k_last_committed_height s < b_height b")
    case True
    obtain s1 r1 s2 r2 where 1: "commit_block E b s = (s1, r1)" and 2: "get_parent_block E b s1 = (s2, r2)"
      and loop: "commit_loop E (Suc n) b s = (case r1 of
        Ok _ \<Rightarrow> (case r2 of Ok (Some p) \<Rightarrow> commit_loop E n p s2 | Ok None \<Rightarrow> (s2, Ok ())
          | Err e \<Rightarrow> (s2, Err e) | Panic \<Rightarrow> (s2, Panic) | OutOfFuel \<Rightarrow> (s2, OutOfFuel))
      | Err e \<Rightarrow> (s1, Err e) | Panic \<Rightarrow> (s1, Panic) | OutOfFuel \<Rightarrow> (s1, OutOfFuel))"
      using commit_loop_step [OF True] .
    note e1 = commit_block_effect [OF 1] and e2 = get_parent_effect [OF 2]
    have st: "k_store s2 = k_store s" using e1 e2 by simp
    have "parent_in E (k_store s) b \<noteq> OutOfFuel"
      using read_block_no_OutOfFuel [OF assms(1)] by (simp add: parent_in_def)
    with e1 e2 have r2: "r2 \<noteq> OutOfFuel" by auto
    have "snd (commit_loop E n p s2) \<noteq> OutOfFuel" if "r2 = Ok (Some p)" for p
    proof (cases "qc_eq (b_qc b) qc_genesis")
      case True
      with e1 e2 that have "p = block_genesis" by (auto simp: parent_in_def)
      then show ?thesis
        using Suc.prems(2) by (cases n) (auto simp: whenM_def block_genesis_def block_default_def)
    next
      case False
      with e1 e2 that have p: "read_block E (k_store s) (block_parent b) = Ok (Some p)" by (auto simp: parent_in_def)
      let ?r = "rank (block_parent b)" and ?r' = "rank (block_parent p)"
      have in_out: "block_parent b \<in> below E (k_store s) rank ?r" "block_parent b \<notin> below E (k_store s) rank ?r'"
        and "?r' < ?r"
        using p Suc.prems(1) by (auto simp: below_def stored_blocks_def acyclic_store_def not_le)
      then have "below E (k_store s) rank ?r' \<subseteq> below E (k_store s) rank ?r" by (auto simp: below_def)
      with in_out have "below E (k_store s) rank ?r' \<subset> below E (k_store s) rank ?r" by blast
      moreover have "finite (below E (k_store s) rank ?r)"
        using stored_blocks_bound [OF assms(1)] by (simp add: below_def)
      ultimately have "card (below E (k_store s) rank ?r') < card (below E (k_store s) rank ?r)"
        by (intro psubset_card_mono)
      with Suc.prems show ?thesis by (intro Suc.IH) (simp_all add: st)
    qed
    with loop e1 r2 show ?thesis by (auto split: result.splits option.splits)
  next
    case False
    then show ?thesis by (simp add: whenM_def)
  qed
qed

lemma commit_ends:
  assumes "rocksdb_ok E" and "acyclic_store E (k_store s) rank"
  shows "snd (commit E b s) \<noteq> OutOfFuel"
proof -
  have "below E (k_store s) rank r \<subseteq> stored_blocks E (k_store s)" for r by (auto simp: below_def)
  then have "card (below E (k_store s) rank r) \<le> length (st_db (k_store s))" for r
    using stored_blocks_bound [OF assms(1), of "k_store s"] by (meson card_mono order.trans)
  then have "snd (commit_loop E (length (st_db (k_store s)) + 2) b s) \<noteq> OutOfFuel"
    by (intro commit_loop_ends [OF assms]) simp
  then show ?thesis by (simp add: commit_def readM_def)
qed

end
