(* ===== verification/Core_Behaviour.thy ===== *)
theory Core_Behaviour
  imports Commit_Props
begin

text \<open>
  What single handlers of the core do: which messages they refuse without a trace, when a vote is
  signed, how an epoch ends and what the next one starts with.
\<close>

section \<open>Refused messages\<close>

text \<open>The epoch and the height an agreement message is filtered by, and the error of a stale one.\<close>

fun smvba_key :: "ConsensusMessage \<Rightarrow> (SeqNumber \<times> SeqNumber \<times> ConsensusError) option" where
  "smvba_key (FBPropose b) = Some (b_epoch b, b_height b, TimeOutMessage (b_epoch b) (b_height b))"
| "smvba_key (FBVote v) = Some (hv_epoch v, hv_height v, TimeOutMessage (hv_epoch v) (hv_height v))"
| "smvba_key (FBLoopBack b) = Some (b_epoch b, b_height b, TimeOutMessage (b_epoch b) (b_height b))"
| "smvba_key (SPBPropose v p) = Some (b_epoch (sv_block v), pf_height p, TimeOutMessage (pf_height p) (pf_round p))"
| "smvba_key (SPBVoteMsg v) = Some (sp_epoch v, sp_height v, TimeOutMessage (sp_height v) (sp_round v))"
| "smvba_key (SPBFinsh v p) = Some (b_epoch (sv_block v), pf_height p, TimeOutMessage (pf_height p) (pf_round p))"
| "smvba_key (SPBDoneAndShare d) = Some (md_epoch d, md_height d, TimeOutMessage (md_height d) (md_round d))"
| "smvba_key (SMVBAPreVote v) = Some (pv_epoch v, pv_height v, TimeOutMessage (pv_height v) (pv_round v))"
| "smvba_key (SMVBAVote v) = Some (mv_epoch v, mv_height v, TimeOutMessage (mv_height v) (mv_round v))"
| "smvba_key (SMVBAHalt h) = Some (mh_epoch h, mh_height h, TimeOutMessage (mh_height h) (mh_round h))"
| "smvba_key _ = None"

lemma bind_ensure_fails: "\<not> c s \<Longrightarrow> bindM (ensureM c e) f s = (s, Err e)"
  by (simp add: bindM_def ensureM_def ensure_def)

lemmas bindM_apply = bindM_def [THEN fun_cong]

lemma bind_Err: "m s = (t, Err e) \<Longrightarrow> bindM m f s = (t, Err e)"
  by (simp add: bindM_def)

lemma stale_refused:
  assumes "smvba_key msg = Some (e, h, err)" and "e < k_epoch s \<or> h + 2 \<le> k_height s"
  shows "handle_event E n (SmvbaMessage msg) s = (s, Err err)"
proof -
  have fb: "\<not> fallback_message_filter e h s" and sm: "\<not> smvba_msg_filter e h r p s" for r p
    using assms(2) by (auto simp: fallback_message_filter_def smvba_msg_filter_def)
  show ?thesis
    using assms(1) fb sm
    by (cases msg)
      (auto simp: handle_fallback_propose_def handle_fallback_vote_def process_fallback_propose_def
        handle_spb_proposal_def handle_spb_vote_def handle_spb_finish_def handle_smvba_done_with_share_def
        handle_smvba_done_def handle_smvba_prevote_def handle_smvba_mvote_def handle_smvba_halt_def Let_def
        bind_ensure_fails bind_Err)
qed

text \<open>A proposal of the current epoch from a node that is no leader, or that does not verify.\<close>

lemma park_same_epoch: "e \<le> k_epoch s \<Longrightarrow> park_message e msg s = (s, Ok ())"
  by (simp add: park_message_def whenM_def leD)

lemma opt_proposal_refused:
  assumes "b_epoch b = k_epoch s" and "index_of_leader (b_author b) (b_height b) s = Ok idx"
    and "idx = None \<or> block_verify E (k_committee s) b \<noteq> Ok ()"
  shows "\<exists>r. handle_opt_proposal E call b s = (s, r) \<and> r \<noteq> Ok ()"
  using assms
  by (auto simp: handle_opt_proposal_def unlessM_def bindM_def park_same_epoch readM_def liftR_def ensureM_def ensure_def
      split: result.splits)

text \<open>A proposal of a later epoch ends the current one, before anything about it has been checked.\<close>

lemma later_epoch_ends:
  assumes "k_epoch s < b_epoch b"
  shows "core_turn E n (CoreMessage (HsPropose b)) s =
    (s\<lparr>k_unhandle_message := k_unhandle_message s @ [(b_epoch b, HsPropose b)]\<rparr>, EpochOver)"
proof -
  have "\<not> b_epoch b < k_epoch s" using assms by simp
  with assms show ?thesis
    by (simp add: core_turn_def handle_opt_proposal_def park_message_def comp_defs)
qed

section \<open>Signing a vote\<close>

lemma genesis_parent:
  assumes "qc_eq (b_qc b) qc_genesis"
  shows "get_ancestors E b s = (s, Ok (Some (block_genesis, block_genesis)))"
proof -
  have "qc_eq (b_qc block_genesis) qc_genesis" by (simp add: qc_eq_def block_genesis_def block_default_def)
  with assms show ?thesis
    by (simp add: get_ancestors_def get_parent_block_def comp_defs)
qed

lemma make_opt_vote_signs:
  assumes "k_last_voted_height s < b_height b" and "qc_height (b_qc b) + 1 = b_height b"
    and "hvote_new E (k_signature_service s) b (k_name s) OPT = (Ok v :: HVote ConsensusResult)"
  shows "make_opt_vote E b s =
    (s\<lparr>k_last_voted_height := b_height b, k_signed_votes := k_signed_votes s @ [v]\<rparr>, Ok (Some v))"
proof -
  have "max (k_last_voted_height s) (b_height b) = b_height b" using assms(1) by simp
  with assms show ?thesis
    by (simp add: make_opt_vote_def comp_defs increase_last_voted_round_def)
qed

lemma votes_survive: "votes_grow s t \<Longrightarrow> v \<in> set (k_signed_votes s) \<Longrightarrow> v \<in> set (k_signed_votes t)"
  by (auto simp: votes_grow_def)

lemma vote_opt_block_sends:
  assumes "b_height b = k_height s" and "k_last_voted_height s < b_height b" and "qc_height (b_qc b) + 1 = b_height b"
    and "hvote_new E (k_signature_service s) b (k_name s) OPT = (Ok v :: HVote ConsensusResult)"
  shows "vote_opt_block E call b s =
    send_opt_vote E call v (s\<lparr>k_last_voted_height := b_height b, k_signed_votes := k_signed_votes s @ [v]\<rparr>)"
  using assms(1) by (simp add: vote_opt_block_def unlessM_def bindM_def make_opt_vote_signs [OF assms(2-4)])

text \<open>
  A block that comes as a loopback message is voted for without any check of its author or signature; loopback messages
  are also accepted from the network.
\<close>

lemma loopback_sends:
  assumes "qc_eq (b_qc b) qc_genesis" and "b_height b = 1" and "k_height s = 1" and "k_last_voted_height s = 0"
    and "\<not> k_pes_path s" and "index_of_leader (k_name s) 1 s = Ok idx"
    and "hvote_new E (k_signature_service s) b (k_name s) OPT = (Ok v :: HVote ConsensusResult)"
  obtains u where "k_signed_votes u = k_signed_votes s @ [v]"
    and "fst (handle_event E n (CoreMessage (HsLoopBack b)) s) = fst (send_opt_vote E (exec E n) v u)"
proof -
  define s1 where "s1 = (if idx = None then s else set_timer None s)"
  define s2 where "s2 = fst (store_block E b s1)"
  have h: "qc_height (b_qc b) = 0" using assms(1) by (simp add: qc_eq_def qc_genesis_def)
  have s2: "k_height s2 = 1" "k_last_voted_height s2 = 0" "k_name s2 = k_name s"
    "k_signature_service s2 = k_signature_service s" "\<not> k_pes_path s2" and store: "store_block E b s1 = (s2, Ok ())"
    using assms(3-5) by (simp_all add: s1_def s2_def store_block_def in_mempool_def set_timer_def)
  have timer: "readM (\<lambda>s. bindM (liftR (index_of_leader (k_name s) (b_height b) s)) (\<lambda>idx.
      whenM (\<lambda>_. idx \<noteq> None) (modifyM (set_timer None)))) s = (s1, Ok ())"
    using assms(2,6) by (simp add: comp_defs s1_def)
  have skip: "readM (\<lambda>s. whenM (\<lambda>s. k_pes_path s \<and> 2 < b_height b) (terminate_smvba (k_height s - 2))) s2 = (s2, Ok ())"
    "whenM (\<lambda>s. k_pes_path s \<and> 1 < b_height b) (active_prepare_phase E (exec E n) (b_height b - 1) (b_qc b) OPT) s2 = (s2, Ok ())"
    "whenM k_pes_path (invoke_fallback E (exec E n) (b_height b) (Some (b_qc b))) s2 = (s2, Ok ())"
    "commit_if_new E block_genesis s2 = (s2, Ok ())"
    "ensureM (\<lambda>_. c \<or> qc_eq (b_qc b) qc_genesis) e s2 = (s2, Ok ())" for c and e :: ConsensusError
    using s2(5) assms(1)
    by (simp_all add: readM_def whenM_def commit_if_new_def block_genesis_def block_default_def ensureM_def ensure_def)
  obtain t r where t: "vote_opt_block E (exec E n) b s2 = (t, r)" by force
  let ?u = "s2\<lparr>k_last_voted_height := b_height b, k_signed_votes := k_signed_votes s2 @ [v]\<rparr>"
  have "fst (process_opt_block E (exec E n) b s) = t"
    unfolding process_opt_block_def stmts.simps bindM_apply timer genesis_parent [OF assms(1)] prod.case result.case
      option.case store skip t
    by (cases r) (simp_all add: ret_def)
  then have "fst (handle_event E n (CoreMessage (HsLoopBack b)) s) = fst (send_opt_vote E (exec E n) v ?u)"
    using vote_opt_block_sends [of b s2 E v "exec E n"] arg_cong [OF t, of fst] assms(2,7) h s2 by simp
  moreover have "k_signed_votes ?u = k_signed_votes s @ [v]"
    by (simp add: s1_def s2_def store_block_def in_mempool_def set_timer_def)
  ultimately show ?thesis using that by blast
qed

lemma loopback_signs:
  assumes "qc_eq (b_qc b) qc_genesis" and "b_height b = 1" and "k_height s = 1" and "k_last_voted_height s = 0"
    and "\<not> k_pes_path s" and "index_of_leader (k_name s) 1 s = Ok idx"
    and "hvote_new E (k_signature_service s) b (k_name s) OPT = (Ok v :: HVote ConsensusResult)"
  shows "v \<in> set (k_signed_votes (fst (handle_event E n (CoreMessage (HsLoopBack b)) s)))"
proof -
  obtain u where u: "k_signed_votes u = k_signed_votes s @ [v]"
    "fst (handle_event E n (CoreMessage (HsLoopBack b)) s) = fst (send_opt_vote E (exec E n) v u)"
    using loopback_sends [OF assms] .
  have "keeps votes_grow (send_opt_vote E (exec E n) v)" by (intro votes.keeps_send_opt_vote votes.keeps_exec)
  then have "votes_grow u (fst (send_opt_vote E (exec E n) v u))" by (simp add: keeps_def)
  then show ?thesis unfolding u(2) by (rule votes_survive) (simp add: u(1))
qed

section \<open>The end of an epoch\<close>

lemma commit_and_send_Ok:
  assumes "commit E b s = (t, Ok ())"
  shows "commit_and_send E b s =
    (t\<lparr>k_last_committed_height := b_height b, k_commit_channel := k_commit_channel t @ [b]\<rparr>, Ok ())"
  by (simp add: commit_and_send_def bindM_apply assms modifyM_def ret_def)

lemma commit_keeps_setup: "commit E b s = (t, r) \<Longrightarrow> same_setup s t \<and> commits_grow s t"
  using keepsD [OF fixed.keeps_commit] keepsD [OF commits.keeps_commit] by blast

text \<open>The agreed block of the pessimistic path is stored, committed with its ancestors and announced, and the epoch ends.\<close>

lemma par_out_ends_epoch:
  assumes "b_tag b = PES" and "k_epoch s \<le> b_epoch b" and "k_height s < b_height b + 2"
    and "k_last_committed_height s < b_height b"
    and "store_block E b s = (s1, Ok ())" and "commit E b s1 = (t, Ok ())"
  shows "process_par_out E call b s =
    (t\<lparr>k_last_committed_height := b_height b, k_commit_channel := k_commit_channel t @ [b]\<rparr>, Err (EpochEnd (k_epoch s)))"
proof -
  have cond: "\<not> (b_epoch b < k_epoch s \<or> b_height b + 2 \<le> k_height s)" using assms(2,3) by auto
  have s1: "k_epoch s1 = k_epoch s" "k_last_committed_height s1 = k_last_committed_height s"
    using assms(5) by (auto simp: store_block_def in_mempool_def)
  have "k_epoch t = k_epoch s" using commit_keeps_setup [OF assms(6)] s1 by (simp add: same_setup_def)
  then have out: "output_block E b s1 =
      (t\<lparr>k_last_committed_height := b_height b, k_commit_channel := k_commit_channel t @ [b]\<rparr>, Err (EpochEnd (k_epoch s)))"
    using assms(1,4) s1 by (simp add: output_block_def whenM_def bindM_apply commit_and_send_Ok [OF assms(6)] readM_def liftR_def)
  have "b_tag b \<noteq> OPT" using assms(1) by (simp add: tag_defs)
  with cond show ?thesis
    by (simp add: process_par_out_def unlessM_def bindM_apply assms(5) out)
qed

section \<open>The start of an epoch\<close>

definition is_hs_propose :: "ConsensusMessage \<Rightarrow> bool" where
  "is_hs_propose msg = (case msg of HsPropose _ \<Rightarrow> True | _ \<Rightarrow> False)"

lemma replay_effect:
  assumes "\<forall>(e, msg) \<in> set ps. parkable e msg"
  shows "replay ps s = s\<lparr>k_unhandle_message := [],
    k_tx_core := k_tx_core s @ map snd (filter (\<lambda>(e, msg). e = k_epoch s \<and> is_hs_propose msg) ps),
    k_tx_smvba := k_tx_smvba s @ map snd (filter (\<lambda>(e, msg). e = k_epoch s \<and> \<not> is_hs_propose msg) ps)\<rparr>"
  using assms
proof (induction ps arbitrary: s)
  case Nil
  then show ?case by simp
next
  case (Cons p ps)
  obtain e msg where p: "p = (e, msg)" by force
  with Cons.prems have "parkable e msg" and IH: "\<forall>(e, msg) \<in> set ps. parkable e msg" by auto
  with Cons.IH [OF IH] p show ?case
    by (cases msg) (simp_all add: is_hs_propose_def)
qed

text \<open>The state of the first height and round, and nothing else: what a core has right after it was made.\<close>

definition epoch_fresh :: "SeqNumber \<Rightarrow> Core \<Rightarrow> bool" where
  "epoch_fresh e s \<longleftrightarrow> k_epoch s = e \<and> k_height s = 1 \<and> k_last_voted_height s = 0 \<and> k_last_committed_height s = 0 \<and>
     k_high_qc s = qc_genesis \<and> k_aggregator s = aggregator_new (k_committee s) \<and> k_timer s = timer_new \<and>
     k_fallback_is_invoke s = Map.empty \<and> k_smvba_is_invoke s = Map.empty \<and> k_smvba_halt_falg s = Map.empty \<and>
     k_smvba_y_flag s = [(1, 1) \<mapsto> False] \<and> k_smvba_n_flag s = [(1, 1) \<mapsto> False] \<and> k_smvba_d_flag s = [(1, 1) \<mapsto> False] \<and>
     k_smvba_dones s = [(1, 1) \<mapsto> {||}] \<and> k_smvba_votes s = [(1, 1) \<mapsto> {||}] \<and> k_smvba_no_prevotes s = [(1, 1) \<mapsto> {||}] \<and>
     k_spb_current_phase s = [(1, 1) \<mapsto> INIT_PHASE] \<and> k_spb_abandon_flag s = Map.empty \<and> k_smvba_current_round s = [1 \<mapsto> 1] \<and>
     k_spb_proposes s = Map.empty \<and> k_spb_finishs s = Map.empty \<and> k_spb_locks s = Map.empty \<and> k_prepare_tag s = Map.empty \<and>
     k_par_prepare_opts s = [1 \<mapsto> []] \<and> k_par_prepare_pess s = [1 \<mapsto> []] \<and> k_fallback_high_qc s = Map.empty \<and>
     le_random_coins (k_leader_elector s) = Map.empty"

lemma epoch_init_fresh: "epoch_fresh e (epoch_init e s)"
  by (simp add: epoch_fresh_def epoch_init_def update_prepare_state_def update_smvba_state_def leader_elector_new_def Let_def)

lemma core_new_fresh:
  "le_random_coins le = Map.empty \<Longrightarrow> epoch_fresh 0 (core_new name c p svc pk le mempool sync opt_path pes_path)"
  by (simp add: epoch_fresh_def core_new_def update_prepare_state_def update_smvba_state_def)

text \<open>The next epoch starts with a new core, apart from what the node keeps across epochs.\<close>

lemma epoch_init_new:
  assumes "k_fallback_length s = fallback_length (k_parameters s)"
  shows "epoch_init e s = (core_new (k_name s) (k_committee s) (k_parameters s) (k_signature_service s) (k_pk_set s)
      (leader_elector_new (k_committee s) (leader_window (k_parameters s))) (k_mempool s) (k_synchronizer s) (k_opt_path s) (k_pes_path s))
    \<lparr>k_epoch := e, k_tx_core := k_tx_core s, k_tx_smvba := k_tx_smvba s, k_unhandle_message := k_unhandle_message s,
     k_network_filter := k_network_filter s, k_network_filter_smvba := k_network_filter_smvba s,
     k_commit_channel := k_commit_channel s, k_clock := k_clock s, k_signed_votes := k_signed_votes s, k_commit_log := k_commit_log s\<rparr>"
  using assms by (cases s) (simp add: epoch_init_def core_new_def update_prepare_state_def update_smvba_state_def)

lemma next_epoch_new:
  assumes "\<forall>(e, msg) \<in> set (k_unhandle_message s). parkable e msg" and "k_fallback_length s = fallback_length (k_parameters s)"
  shows "next_epoch e s = (core_new (k_name s) (k_committee s) (k_parameters s) (k_signature_service s) (k_pk_set s)
      (leader_elector_new (k_committee s) (leader_window (k_parameters s))) (k_mempool s) (k_synchronizer s) (k_opt_path s) (k_pes_path s))
    \<lparr>k_epoch := e,
     k_tx_core := k_tx_core s @ map snd (filter (\<lambda>(e', msg). e' = e \<and> is_hs_propose msg) (k_unhandle_message s)),
     k_tx_smvba := k_tx_smvba s @ map snd (filter (\<lambda>(e', msg). e' = e \<and> \<not> is_hs_propose msg) (k_unhandle_message s)),
     k_network_filter := k_network_filter s, k_network_filter_smvba := k_network_filter_smvba s,
     k_commit_channel := k_commit_channel s, k_clock := k_clock s, k_signed_votes := k_signed_votes s, k_commit_log := k_commit_log s\<rparr>"
proof -
  have e: "k_epoch (epoch_init e s) = e" "k_unhandle_message (epoch_init e s) = k_unhandle_message s"
    "k_tx_core (epoch_init e s) = k_tx_core s" "k_tx_smvba (epoch_init e s) = k_tx_smvba s"
    by (simp_all add: epoch_init_def update_prepare_state_def update_smvba_state_def)
  show ?thesis
    unfolding next_epoch_def Let_def e(2) replay_effect [OF assms(1)] e
    by (simp add: epoch_init_new [OF assms(2)]) (simp add: core_new_def update_prepare_state_def update_smvba_state_def)
qed

lemma next_epoch_unparked: "\<forall>(e, msg) \<in> set (k_unhandle_message s). parkable e msg \<Longrightarrow> k_unhandle_message (next_epoch e s) = []"
  unfolding next_epoch_def Let_def
  by (subst replay_effect) (simp_all add: epoch_init_def update_prepare_state_def update_smvba_state_def)

text \<open>Over the whole life of a node only proposals of epochs still to come are parked.\<close>

definition parked_ok :: "Core \<Rightarrow> bool" where
  "parked_ok s \<longleftrightarrow> (\<forall>(e, msg) \<in> set (k_unhandle_message s). k_epoch s < e \<and> parkable e msg)"

lemma parked_ok_parkable: "parked_ok s \<Longrightarrow> \<forall>(e, msg) \<in> set (k_unhandle_message s). parkable e msg"
  by (auto simp: parked_ok_def)

lemma parked_ok_grow: "parked_grow s t \<Longrightarrow> parked_ok s \<Longrightarrow> parked_ok t"
  by (auto simp: parked_grow_def parked_ok_def)

lemma parked_inv:
  assumes "(node_step E)\<^sup>*\<^sup>* s t" and "parked_ok s"
  shows "parked_ok t"
  using assms(1)
proof (induction rule: rtranclp_induct)
  case base
  then show ?case by (rule assms(2))
next
  case (step t u)
  from step.hyps(2) show ?case
  proof (cases rule: node_step.cases)
    case inside
    then show ?thesis using step.IH parked.epoch_step_keeps parked_ok_grow by blast
  next
    case (epoch_over n ev t')
    have "parked_grow t t'"
      using parked.keeps_event [of E n ev] epoch_over(2) by (auto simp: keeps_def core_turn_def split: prod.splits) (metis fst_conv)
    with step.IH have "parked_ok t'" using parked_ok_grow by blast
    from next_epoch_unparked [OF parked_ok_parkable [OF this]] epoch_over(1) show ?thesis by (simp add: parked_ok_def)
  qed
qed

end
