(* ===== verification/Fuel_Props.thy ===== *)
theory Fuel_Props
  imports Core_Handlers
begin

text \<open>
  The bound of \<open>exec\<close> on the depth of the recursion is no part of the behaviour: a call that returns
  under some bound returns the same, with the same state, under every larger one.
\<close>

named_theorems fuel_rules \<open>monotonicity of the combinators in the calls they make\<close>

definition fuel_le :: "('s, 'e, 'a) comp \<Rightarrow> ('s, 'e, 'a) comp \<Rightarrow> bool" where
  "fuel_le m m' \<longleftrightarrow> (\<forall>s. snd (m s) \<noteq> OutOfFuel \<longrightarrow> m' s = m s)"

lemma fuel_le_refl [fuel_rules]: "fuel_le m m"
  by (simp add: fuel_le_def)

lemma fuel_le_bind [fuel_rules]:
  assumes "fuel_le m m'" and "\<And>x. fuel_le (f x) (f' x)"
  shows "fuel_le (bindM m f) (bindM m' f')"
proof -
  have "bindM m' f' s = bindM m f s" if "snd (bindM m f s) \<noteq> OutOfFuel" for s
  proof (cases "m s")
    case (Pair t r)
    with that have "snd (m s) \<noteq> OutOfFuel" by (cases r) (simp_all add: bindM_def)
    with assms(1) have "m' s = m s" by (simp add: fuel_le_def)
    with Pair that assms(2) show ?thesis by (cases r) (simp_all add: bindM_def fuel_le_def)
  qed
  then show ?thesis by (simp add: fuel_le_def)
qed

lemma fuel_le_when [fuel_rules]: "fuel_le m m' \<Longrightarrow> fuel_le (whenM c m) (whenM c m')"
  by (simp add: fuel_le_def whenM_def)

lemma fuel_le_unless [fuel_rules]: "fuel_le m m' \<Longrightarrow> fuel_le (unlessM c m) (unlessM c m')"
  by (simp add: fuel_le_def unlessM_def)

lemma fuel_le_read [fuel_rules]: "(\<And>s. fuel_le (k s) (k' s)) \<Longrightarrow> fuel_le (readM k) (readM k')"
  by (simp add: fuel_le_def readM_def)

lemma fuel_le_expect [fuel_rules]: "fuel_le m m' \<Longrightarrow> fuel_le (expectM m) (expectM m')"
  unfolding fuel_le_def expectM_def by (auto split: prod.splits result.splits)

lemma fuel_le_ignore [fuel_rules]: "fuel_le m m' \<Longrightarrow> fuel_le (ignore_err m) (ignore_err m')"
  unfolding fuel_le_def ignore_err_def by (auto split: prod.splits result.splits)

definition calls_le :: "(call \<Rightarrow> unit ccomp) \<Rightarrow> (call \<Rightarrow> unit ccomp) \<Rightarrow> bool" where
  "calls_le call call' \<longleftrightarrow> (\<forall>c. fuel_le (call c) (call' c))"

lemma calls_leD: "calls_le call call' \<Longrightarrow> fuel_le (call c) (call' c)"
  by (simp add: calls_le_def)

section \<open>Handlers\<close>

lemma fuel_process_par_out: "calls_le call call' \<Longrightarrow> fuel_le (process_par_out E call b) (process_par_out E call' b)"
  unfolding process_par_out_def by (auto intro!: fuel_rules calls_leD [of call call'])

lemma fuel_handle_smvba_halt: "calls_le call call' \<Longrightarrow> fuel_le (handle_smvba_halt E call h) (handle_smvba_halt E call' h)"
  unfolding handle_smvba_halt_def by (auto intro!: fuel_rules fuel_process_par_out)

lemma fuel_smvba_round_advance:
  "calls_le call call' \<Longrightarrow> fuel_le (smvba_round_advance E call h r) (smvba_round_advance E call' h r)"
  unfolding smvba_round_advance_def by (auto intro!: fuel_rules calls_leD [of call call'] split: option.splits)

lemma fuel_announce_halt: "calls_le call call' \<Longrightarrow> fuel_le (announce_halt E call l v p) (announce_halt E call' l v p)"
  unfolding announce_halt_def by (auto intro!: fuel_rules fuel_handle_smvba_halt)

lemma fuel_handle_smvba_mvote: "calls_le call call' \<Longrightarrow> fuel_le (handle_smvba_mvote E call v) (handle_smvba_mvote E call' v)"
  unfolding handle_smvba_mvote_def Let_def
  by (auto intro!: fuel_rules fuel_announce_halt fuel_smvba_round_advance split: option.splits MVoteTag.splits)

lemma fuel_handle_smvba_prevote:
  "calls_le call call' \<Longrightarrow> fuel_le (handle_smvba_prevote E call v) (handle_smvba_prevote E call' v)"
  unfolding handle_smvba_prevote_def Let_def
  by (auto intro!: fuel_rules fuel_handle_smvba_mvote split: option.splits)

lemma fuel_after_coin: "calls_le call call' \<Longrightarrow> fuel_le (after_coin E call h r c) (after_coin E call' h r c)"
  unfolding after_coin_def Let_def
  by (auto intro!: fuel_rules fuel_announce_halt fuel_handle_smvba_prevote split: option.splits)

lemma fuel_handle_smvba_rs: "calls_le call call' \<Longrightarrow> fuel_le (handle_smvba_rs E call sh) (handle_smvba_rs E call' sh)"
  unfolding handle_smvba_rs_def by (auto intro!: fuel_rules fuel_after_coin split: option.splits)

lemma fuel_handle_smvba_done: "calls_le call call' \<Longrightarrow> fuel_le (handle_smvba_done E call d) (handle_smvba_done E call' d)"
  unfolding handle_smvba_done_def Let_def by (auto intro!: fuel_rules calls_leD [of call call'])

lemma fuel_handle_smvba_done_with_share:
  "calls_le call call' \<Longrightarrow> fuel_le (handle_smvba_done_with_share E call d) (handle_smvba_done_with_share E call' d)"
  unfolding handle_smvba_done_with_share_def by (auto intro!: fuel_rules fuel_handle_smvba_done fuel_handle_smvba_rs)

lemma fuel_invoke_done_and_share:
  "calls_le call call' \<Longrightarrow> fuel_le (invoke_done_and_share E call h r) (invoke_done_and_share E call' h r)"
  unfolding invoke_done_and_share_def by (auto intro!: fuel_rules fuel_handle_smvba_done_with_share)

lemma fuel_handle_spb_finish: "calls_le call call' \<Longrightarrow> fuel_le (handle_spb_finish E call v p) (handle_spb_finish E call' v p)"
  unfolding handle_spb_finish_def Let_def by (auto intro!: fuel_rules fuel_invoke_done_and_share)

lemma fuel_handle_spb_vote: "calls_le call call' \<Longrightarrow> fuel_le (handle_spb_vote E call v) (handle_spb_vote E call' v)"
  unfolding handle_spb_vote_def by (auto intro!: fuel_rules calls_leD [of call call'] fuel_handle_spb_finish split: option.splits)

lemma fuel_process_spb_propose:
  "calls_le call call' \<Longrightarrow> fuel_le (process_spb_propose E call v p) (process_spb_propose E call' v p)"
  unfolding process_spb_propose_def Let_def by (auto intro!: fuel_rules fuel_handle_spb_vote split: option.splits)

lemma fuel_broadcast_pes_propose:
  "calls_le call call' \<Longrightarrow> fuel_le (broadcast_pes_propose E call v p) (broadcast_pes_propose E call' v p)"
  unfolding broadcast_pes_propose_def by (auto intro!: fuel_rules fuel_process_spb_propose)

lemma fuel_handle_spb_proposal:
  "calls_le call call' \<Longrightarrow> fuel_le (handle_spb_proposal E call v p) (handle_spb_proposal E call' v p)"
  unfolding handle_spb_proposal_def by (auto intro!: fuel_rules fuel_process_spb_propose)

lemma fuel_invoke_smvba:
  "calls_le call call' \<Longrightarrow> fuel_le (invoke_smvba E call h v sigs qc) (invoke_smvba E call' h v sigs qc)"
  unfolding invoke_smvba_def Let_def by (auto intro!: fuel_rules fuel_broadcast_pes_propose)

lemma fuel_handle_par_prepare: "calls_le call call' \<Longrightarrow> fuel_le (handle_par_prepare E call p) (handle_par_prepare E call' p)"
  unfolding handle_par_prepare_def Let_def by (auto intro!: fuel_rules fuel_invoke_smvba split: option.splits)

lemma fuel_active_prepare_phase:
  "calls_le call call' \<Longrightarrow> fuel_le (active_prepare_phase E call h qc v) (active_prepare_phase E call' h qc v)"
  unfolding active_prepare_phase_def by (auto intro!: fuel_rules fuel_handle_par_prepare)

lemma fuel_handle_fallback_vote:
  "calls_le call call' \<Longrightarrow> fuel_le (handle_fallback_vote E call v) (handle_fallback_vote E call' v)"
  unfolding handle_fallback_vote_def by (auto intro!: fuel_rules calls_leD [of call call'] fuel_active_prepare_phase split: option.splits)

lemma fuel_process_fallback_propose:
  "calls_le call call' \<Longrightarrow> fuel_le (process_fallback_propose E call b) (process_fallback_propose E call' b)"
  unfolding process_fallback_propose_def by (auto intro!: fuel_rules fuel_handle_fallback_vote split: option.splits)

lemma fuel_handle_fallback_propose:
  "calls_le call call' \<Longrightarrow> fuel_le (handle_fallback_propose E call b) (handle_fallback_propose E call' b)"
  unfolding handle_fallback_propose_def by (auto intro!: fuel_rules fuel_process_fallback_propose)

lemma fuel_broadcast_fallback_propose:
  "calls_le call call' \<Longrightarrow> fuel_le (broadcast_fallback_propose E call b) (broadcast_fallback_propose E call' b)"
  unfolding broadcast_fallback_propose_def by (auto intro!: fuel_rules fuel_process_fallback_propose)

lemma fuel_invoke_fallback: "calls_le call call' \<Longrightarrow> fuel_le (invoke_fallback E call h qc) (invoke_fallback E call' h qc)"
  unfolding invoke_fallback_def by (auto intro!: fuel_rules fuel_broadcast_fallback_propose)

lemma fuel_handle_opt_vote: "calls_le call call' \<Longrightarrow> fuel_le (handle_opt_vote E call v) (handle_opt_vote E call' v)"
  unfolding handle_opt_vote_def count_opt_vote_def by (auto intro!: fuel_rules calls_leD [of call call'] split: option.splits)

lemma fuel_send_opt_vote: "calls_le call call' \<Longrightarrow> fuel_le (send_opt_vote E call v) (send_opt_vote E call' v)"
  unfolding send_opt_vote_def by (auto intro!: fuel_rules fuel_handle_opt_vote)

lemma fuel_process_opt_block: "calls_le call call' \<Longrightarrow> fuel_le (process_opt_block E call b) (process_opt_block E call' b)"
  unfolding process_opt_block_def vote_opt_block_def
  by (auto intro!: fuel_rules fuel_active_prepare_phase fuel_invoke_fallback fuel_send_opt_vote split: option.splits)

lemma fuel_handle_opt_proposal:
  "calls_le call call' \<Longrightarrow> fuel_le (handle_opt_proposal E call b) (handle_opt_proposal E call' b)"
  unfolding handle_opt_proposal_def by (auto intro!: fuel_rules fuel_process_opt_block)

lemma fuel_opt_propose: "calls_le call call' \<Longrightarrow> fuel_le (opt_propose E call) (opt_propose E call')"
  unfolding opt_propose_def by (auto intro!: fuel_rules fuel_process_opt_block)

section \<open>The recursion and the events\<close>

lemma fuel_exec: "n \<le> k \<Longrightarrow> calls_le (exec E n) (exec E k)"
proof (induction n arbitrary: k)
  case 0
  show ?case by (simp add: calls_le_def fuel_le_def liftR_def)
next
  case (Suc n)
  then obtain k' where k: "k = Suc k'" and le: "calls_le (exec E n) (exec E k')" by (cases k) auto
  have "fuel_le (exec E (Suc n) c) (exec E (Suc k') c)" for c
    using le by (cases c) (simp_all add: fuel_opt_propose fuel_invoke_fallback fuel_broadcast_fallback_propose
        fuel_broadcast_pes_propose fuel_invoke_done_and_share)
  then show ?case by (simp add: calls_le_def k)
qed

lemmas fuel_handlers = fuel_handle_opt_proposal fuel_handle_opt_vote fuel_process_opt_block fuel_handle_fallback_propose
  fuel_handle_fallback_vote fuel_process_fallback_propose fuel_handle_spb_proposal fuel_handle_spb_vote
  fuel_handle_spb_finish fuel_handle_smvba_done_with_share fuel_handle_smvba_prevote fuel_handle_smvba_mvote
  fuel_handle_smvba_halt fuel_handle_par_prepare fuel_process_par_out fuel_opt_propose

lemma fuel_event:
  assumes "n \<le> k"
  shows "fuel_le (handle_event E n ev) (handle_event E k ev)"
proof (cases ev)
  case (CoreMessage msg)
  then show ?thesis by (cases msg) (simp_all add: fuel_handlers fuel_exec [OF assms] fuel_le_refl)
next
  case (SmvbaMessage msg)
  then show ?thesis by (cases msg) (simp_all add: fuel_handlers fuel_exec [OF assms] fuel_le_refl)
next
  case TimerFired
  then show ?thesis by (simp add: fuel_handlers fuel_exec [OF assms])
qed

end
