(* ===== verification/Run_Props.thy ===== *)
theory Run_Props
  imports Core_Behaviour Commit_Props
begin

text \<open>
  What holds of a node over its whole life, across epochs: the relations that single steps keep, carried along the
  runs of \<open>node_step\<close>, in which the end of an epoch initialises the core anew.
\<close>

lemma replay_frame:
  "k_mempool (replay ps s) = k_mempool s \<and> k_committee (replay ps s) = k_committee s \<and>
   k_aggregator (replay ps s) = k_aggregator s \<and> k_name (replay ps s) = k_name s \<and>
   k_signed_votes (replay ps s) = k_signed_votes s \<and> k_commit_channel (replay ps s) = k_commit_channel s"
  by (induction ps s rule: replay.induct) (auto split: ConsensusMessage.splits)

lemma next_epoch_frame:
  "k_mempool (next_epoch e s) = k_mempool s" "k_committee (next_epoch e s) = k_committee s"
  "k_name (next_epoch e s) = k_name s" "k_aggregator (next_epoch e s) = aggregator_new (k_committee s)"
  by (simp_all add: next_epoch_def Let_def replay_frame epoch_init_def update_prepare_state_def update_smvba_state_def)

lemma core_turn_event: "core_turn E n ev s = (t, r) \<Longrightarrow> t = fst (handle_event E n ev s)"
  by (auto simp: core_turn_def split: prod.splits)

lemma node_step_pool: "node_step E s t \<Longrightarrow> mempool_reaches E (k_mempool s) (k_mempool t)"
proof (induction rule: node_step.induct)
  case (inside s t)
  then show ?case by (rule pool.epoch_step_keeps)
next
  case (epoch_over n ev s t)
  then have "mempool_reaches E (k_mempool s) (k_mempool t)"
    using pool.epoch_step_keeps [OF epoch_step.event] core_turn_event by blast
  then show ?case by (simp add: next_epoch_frame)
qed

lemma node_run_pool: "(node_step E)\<^sup>*\<^sup>* s t \<Longrightarrow> mempool_reaches E (k_mempool s) (k_mempool t)"
  by (induction rule: rtranclp_induct) (auto intro: pool.R_refl pool.R_trans node_step_pool)

text \<open>What a node was started with stays for its whole life: who it is, whom it runs with, its parameters and its keys.\<close>

definition setup_of where
  "setup_of s = (k_name s, k_committee s, k_parameters s, k_signature_service s, k_pk_set s, k_opt_path s, k_pes_path s,
     k_fallback_length s)"

lemma same_setup_of: "same_setup s t \<Longrightarrow> setup_of t = setup_of s"
  by (simp add: same_setup_def setup_of_def)

lemma next_epoch_setup: "setup_of (next_epoch e s) = setup_of s"
proof -
  have "setup_of (replay ps u) = setup_of u" for ps u
    by (induction ps u rule: replay.induct) (auto simp: setup_of_def split: ConsensusMessage.splits)
  then show ?thesis
    by (simp add: next_epoch_def Let_def) (simp add: setup_of_def epoch_init_def update_prepare_state_def update_smvba_state_def)
qed

lemma node_step_setup: "node_step E s t \<Longrightarrow> setup_of t = setup_of s"
proof (induction rule: node_step.induct)
  case (inside s t)
  then show ?case by (rule same_setup_of [OF fixed.epoch_step_keeps])
next
  case (epoch_over n ev s t)
  then have "same_setup s t" using fixed.epoch_step_keeps [OF epoch_step.event] core_turn_event by blast
  then show ?case by (simp add: next_epoch_setup same_setup_of)
qed

lemma node_run_setup: "(node_step E)\<^sup>*\<^sup>* s t \<Longrightarrow> setup_of t = setup_of s"
  by (induction rule: rtranclp_induct) (simp_all add: node_step_setup)

text \<open>The makers of the aggregator stay consistent with the committee.\<close>

definition aggregator_ok :: "Committee \<Rightarrow> Core \<Rightarrow> bool" where
  "aggregator_ok c s \<longleftrightarrow> k_committee s = c \<and> ag_committee (k_aggregator s) = c \<and> makers_ok (k_aggregator s)"

lemma epoch_step_aggregator:
  assumes "epoch_step E s t" and "bft_committee c" and "aggregator_ok c s"
  shows "aggregator_ok c t"
  using makers.epoch_step_keeps [OF assms(1)] fixed.epoch_step_keeps [OF assms(1)] assms(2,3)
  by (simp add: aggregator_ok_def makers_stay_ok_def same_setup_def)

lemma aggregator_ok_new: "bft_committee c \<Longrightarrow> k_committee s = c \<Longrightarrow> k_aggregator s = aggregator_new c \<Longrightarrow> aggregator_ok c s"
  by (simp add: aggregator_ok_def makers_ok_new) (simp add: aggregator_new_def)

lemma node_step_aggregator:
  assumes "node_step E s t" and "bft_committee c" and "aggregator_ok c s"
  shows "aggregator_ok c t"
  using assms
proof (induction rule: node_step.induct)
  case (inside s t)
  then show ?case using epoch_step_aggregator by blast
next
  case (epoch_over n ev s t)
  then have "aggregator_ok c t"
    using epoch_step_aggregator [OF epoch_step.event] core_turn_event by blast
  then have "k_committee t = c" by (simp add: aggregator_ok_def)
  with epoch_over.prems(1) show ?case by (intro aggregator_ok_new) (simp_all add: next_epoch_frame)
qed

lemma node_run_aggregator:
  assumes "(node_step E)\<^sup>*\<^sup>* s t" and "bft_committee c" and "aggregator_ok c s"
  shows "aggregator_ok c t"
  using assms by (induction rule: rtranclp_induct) (auto intro: node_step_aggregator)

lemma core_new_simps:
  "k_committee (core_new name c p svc pk le mempool sync op pp) = c"
  "k_aggregator (core_new name c p svc pk le mempool sync op pp) = aggregator_new c"
  "k_mempool (core_new name c p svc pk le mempool sync op pp) = mempool"
  "k_unhandle_message (core_new name c p svc pk le mempool sync op pp) = []"
  by (simp_all add: core_new_def update_prepare_state_def update_smvba_state_def)

lemma booted_aggregator:
  assumes "(node_step E)\<^sup>*\<^sup>* (core_new name c p svc pk le mempool sync op pp) s" and "bft_committee c"
  shows "aggregator_ok c s"
  using assms by (rule node_run_aggregator) (simp add: aggregator_ok_new core_new_simps assms(2))

end
