(* ===== verification/Agreement_Props.thy ===== *)
theory Agreement_Props
  imports Run_Props
begin

text \<open>
  The agreement of a height over an epoch: it is started once, its fallback is started once, and it halts once; and what a node
  broadcasts when it starts an agreement. The flags that are up and the messages that were sent stay so in everything a
  node does, which is an interpretation of \<open>core_order\<close>.
\<close>

lemma flags_kept_trans: "flags_kept l m \<Longrightarrow> flags_kept m n \<Longrightarrow> flags_kept l n"
  by (simp add: flags_kept_def)

interpretation started: core_order quiet E for E
  by unfold_locales (auto simp: quiet_def add_random_coin_def intro: flags_kept_trans)

section \<open>Once per epoch\<close>

lemma or_insert_present [simp]: "m k = Some v \<Longrightarrow> or_insert m k d = m"
  by (auto simp: or_insert_def)

lemma invoke_smvba_again: "k_smvba_is_invoke s h = Some True \<Longrightarrow> invoke_smvba E call h val sigs qc s = (s, Ok ())"
  by (simp add: invoke_smvba_def comp_defs)

lemma invoke_fallback_again: "k_fallback_is_invoke s h \<noteq> None \<Longrightarrow> invoke_fallback E call h qc s = (s, Ok ())"
  by (auto simp: invoke_fallback_def unlessM_def)

lemma halt_again: "k_smvba_halt_falg s (mh_height halt) = Some True \<Longrightarrow> fst (handle_smvba_halt E call halt s) = s"
  by (auto simp: handle_smvba_halt_def exp_check_def comp_defs ensure_def split: result.splits)

lemma bind_ret_unit: "bindM m (\<lambda>_. ret ()) = (m :: unit ccomp)"
  by (rule ext) (auto simp: bindM_def ret_def split: prod.splits result.splits)

text \<open>The value with which an agreement on an optimistic prepare is started, and its empty proof.\<close>

definition opt_start_value :: "Core \<Rightarrow> SeqNumber \<Rightarrow> (PublicKey \<times> Signature) list \<Rightarrow> SPBValue" where
  "opt_start_value s h sigs = spbvalue_new (block_default\<lparr>b_author := k_name s, b_epoch := k_epoch s, b_height := h\<rparr>)
     (entry_or (k_smvba_current_round s) h 1) INIT_PHASE OPT sigs"

definition start_proof :: "Core \<Rightarrow> SeqNumber \<Rightarrow> SPBProof" where
  "start_proof s h = \<lparr>pf_phase = INIT_PHASE, pf_round = entry_or (k_smvba_current_round s) h 1, pf_height = h, pf_shares = []\<rparr>"

lemma not_started: "k_smvba_is_invoke s h \<noteq> Some True \<Longrightarrow> \<not> entry_or (k_smvba_is_invoke s) h False"
  by (cases "k_smvba_is_invoke s h") auto

lemma started_rest:
  "keeps quiet (bindM (if val = OPT
      then readM (\<lambda>s. ret (block_default\<lparr>b_author := k_name s, b_epoch := k_epoch s, b_height := h\<rparr>))
      else readM (\<lambda>s. generate_proposal E h (k_fallback_length s + 1) qc PES)) (\<lambda>block. stmts
    [modifyM (\<lambda>s. s\<lparr>k_smvba_current_round := or_insert (k_smvba_current_round s) h 1\<rparr>),
     readM (\<lambda>s. let rnd = entry_or (k_smvba_current_round s) h 1 in
       broadcast_pes_propose E (exec E n) (spbvalue_new block rnd INIT_PHASE val sigs)
         \<lparr>pf_phase = INIT_PHASE, pf_round = rnd, pf_height = h, pf_shares = []\<rparr>)]))"
  unfolding Let_def
  by (intro keep_rules) (auto intro!: started.keeps_prims started.keeps_silent started.keeps_broadcast_pes_propose started.keeps_exec
      simp: obs_def quiet_def)

lemma invoke_smvba_starts: "k_smvba_is_invoke (fst (invoke_smvba E (exec E n) h val sigs qc s)) h = Some True"
proof (cases "k_smvba_is_invoke s h = Some True")
  case False
  let ?s = "s\<lparr>k_smvba_is_invoke := (k_smvba_is_invoke s)(h \<mapsto> True)\<rparr>"
  define rest where "rest = bindM (if val = OPT
      then readM (\<lambda>s. ret (block_default\<lparr>b_author := k_name s, b_epoch := k_epoch s, b_height := h\<rparr>))
      else readM (\<lambda>s. generate_proposal E h (k_fallback_length s + 1) qc PES)) (\<lambda>block. stmts
    [modifyM (\<lambda>s. s\<lparr>k_smvba_current_round := or_insert (k_smvba_current_round s) h 1\<rparr>),
     readM (\<lambda>s. let rnd = entry_or (k_smvba_current_round s) h 1 in
       broadcast_pes_propose E (exec E n) (spbvalue_new block rnd INIT_PHASE val sigs)
         \<lparr>pf_phase = INIT_PHASE, pf_round = rnd, pf_height = h, pf_shares = []\<rparr>)])"
  have "keeps quiet rest" unfolding rest_def by (rule started_rest)
  then have "quiet ?s (fst (rest ?s))" by (simp add: keeps_def)
  then have "k_smvba_is_invoke (fst (rest ?s)) h = Some True" by (simp add: quiet_def flags_kept_def)
  moreover have "fst (invoke_smvba E (exec E n) h val sigs qc s) = fst (rest ?s)"
    using not_started [OF False] unfolding invoke_smvba_def rest_def [symmetric]
    by (cases "rest ?s") (simp add: bindM_def modifyM_def unlessM_def or_insert_def ret_def split: result.splits)
  ultimately show ?thesis by simp
qed (simp add: invoke_smvba_again)

lemma invoke_fallback_starts: "k_fallback_is_invoke (fst (invoke_fallback E (exec E n) h qc s)) h \<noteq> None"
proof (cases "k_fallback_is_invoke s h = None")
  case True
  let ?s = "s\<lparr>k_fallback_is_invoke := (k_fallback_is_invoke s)(h \<mapsto> True)\<rparr>"
  define rest where "rest = bindM (generate_proposal E h 1 qc PES) (\<lambda>block. broadcast_fallback_propose E (exec E n) block)"
  have "keeps quiet rest"
    unfolding rest_def by (intro keep_rules) (auto intro!: started.keeps_prims started.keeps_broadcast_fallback_propose started.keeps_exec)
  then have "quiet ?s (fst (rest ?s))" by (simp add: keeps_def)
  then have "k_fallback_is_invoke (fst (rest ?s)) h \<noteq> None" by (auto simp: quiet_def)
  moreover have "fst (invoke_fallback E (exec E n) h qc s) = fst (rest ?s)"
    using True unfolding invoke_fallback_def rest_def [symmetric]
    by (cases "rest ?s") (simp add: bindM_def modifyM_def unlessM_def ret_def split: result.splits)
  ultimately show ?thesis by simp
qed (simp add: invoke_fallback_again)

text \<open>A halt message that is acted on: timely, verified where that is asked for, and for the elected leader's value.\<close>

definition halt_accepted :: "'z node_ext_scheme \<Rightarrow> Core \<Rightarrow> MHalt \<Rightarrow> bool" where
  "halt_accepted E s halt \<longleftrightarrow> smvba_msg_filter (mh_epoch halt) (mh_height halt) (mh_round halt) FIN_PHASE s \<and>
     (exp_checks (k_parameters s) = 1 \<longrightarrow> mhalt_verify E (k_committee s) (k_pk_set s) (k_fallback_length s) halt = Ok ()) \<and>
     get_coin_leader (k_leader_elector s) (mh_height halt) (mh_round halt) = Some (b_author (sv_block (mh_value halt)))"

lemma halt_marks:
  assumes "halt_accepted E s halt"
  shows "k_smvba_halt_falg (fst (handle_smvba_halt E (exec E n) halt s)) (mh_height halt) = Some True"
proof (cases "k_smvba_halt_falg s (mh_height halt) = Some True")
  case False
  let ?h = "mh_height halt" and ?b = "sv_block (mh_value halt)"
  let ?s = "s\<lparr>k_smvba_halt_falg := (k_smvba_halt_falg s)(?h \<mapsto> True)\<rparr>"
  define rest where "rest = bindM (in_mempool (driver_verify E ?b PES)) (\<lambda>present. unlessM (\<lambda>_. \<not> present) (process_par_out E (exec E n) ?b))"
  have "keeps quiet rest"
    unfolding rest_def by (intro keep_rules) (auto intro!: started.keeps_prims started.keeps_process_par_out started.keeps_exec)
  then have "quiet ?s (fst (rest ?s))" by (simp add: keeps_def)
  then have "k_smvba_halt_falg (fst (rest ?s)) ?h = Some True" by (simp add: quiet_def flags_kept_def)
  moreover have "\<not> entry_or (k_smvba_halt_falg s) ?h False" using False by (cases "k_smvba_halt_falg s ?h") auto
  then have "fst (handle_smvba_halt E (exec E n) halt s) = fst (rest ?s)"
    using assms unfolding handle_smvba_halt_def rest_def [symmetric] halt_accepted_def
    by (cases "rest ?s") (auto simp: exp_check_def comp_defs ensure_def or_insert_def split: result.splits)
  ultimately show ?thesis by simp
qed (simp add: halt_again)

text \<open>What may come later in the same epoch: steps of the node, and further calls while the same message is handled.\<close>

inductive later :: "'z node_ext_scheme \<Rightarrow> Core \<Rightarrow> Core \<Rightarrow> bool" for E where
  now: "later E s s"
| step: "later E s t \<Longrightarrow> epoch_step E t u \<Longrightarrow> later E s u"
| call: "later E s t \<Longrightarrow> later E s (fst (exec E n c t))"

lemma later_quiet: "later E s t \<Longrightarrow> quiet s t"
proof (induction rule: later.induct)
  case (step s t u)
  then show ?case using started.epoch_step_keeps started.R_trans by blast
next
  case (call s t n c)
  have "quiet t (fst (exec E n c t))" using started.keeps_exec [of E n c] by (simp add: keeps_def)
  with call.IH show ?case by (rule started.R_trans)
qed (rule started.R_refl)

lemma flags_stay:
  assumes "later E s t"
  shows "k_smvba_is_invoke s h = Some True \<Longrightarrow> k_smvba_is_invoke t h = Some True"
    and "k_fallback_is_invoke s h \<noteq> None \<Longrightarrow> k_fallback_is_invoke t h \<noteq> None"
    and "k_smvba_halt_falg s h = Some True \<Longrightarrow> k_smvba_halt_falg t h = Some True"
  using later_quiet [OF assms] by (auto simp: quiet_def flags_kept_def)

section \<open>What an agreement on an optimistic prepare starts with\<close>

text \<open>The broadcast of the value is the first thing that is sent.\<close>

lemma opt_start_sends:
  assumes "k_smvba_is_invoke s h \<noteq> Some True"
  shows "\<exists>rest. k_network_filter_smvba (fst (invoke_smvba E (exec E n) h OPT sigs qc s)) = k_network_filter_smvba s @
    (SPBPropose (opt_start_value s h sigs) (start_proof s h), smvba_broadcast_addresses (k_committee s) (k_name s)) # rest"
proof -
  let ?v = "opt_start_value s h sigs" and ?pf = "start_proof s h"
  let ?s1 = "s\<lparr>k_smvba_is_invoke := (k_smvba_is_invoke s)(h \<mapsto> True),
    k_smvba_current_round := or_insert (k_smvba_current_round s) h 1\<rparr>"
  let ?s2 = "?s1\<lparr>k_spb_proposes := (k_spb_proposes s)((h, sv_round ?v) \<mapsto> ?v),
    k_network_filter_smvba := k_network_filter_smvba s @ [(SPBPropose ?v ?pf, smvba_broadcast_addresses (k_committee s) (k_name s))]\<rparr>"
  have rnd: "entry_or (or_insert (k_smvba_current_round s) h 1) h 1 = entry_or (k_smvba_current_round s) h 1"
    by (cases "k_smvba_current_round s h") (auto simp: or_insert_def)
  have "fst (invoke_smvba E (exec E n) h OPT sigs qc s) = fst (broadcast_pes_propose E (exec E n) ?v ?pf ?s1)"
    using not_started [OF assms] unfolding invoke_smvba_def stmts.simps bind_ret_unit
    by (simp add: bindM_apply modifyM_def unlessM_def readM_def ret_def or_insert_def rnd Let_def
        opt_start_value_def start_proof_def)
  also have "\<dots> = fst (process_spb_propose E (exec E n) ?v ?pf ?s2)"
    unfolding broadcast_pes_propose_def stmts.simps bind_ret_unit
    by (simp add: bindM_apply whenM_def modifyM_def transmit_def transmit_addresses_def readM_def liftR_def
        start_proof_def opt_start_value_def spbvalue_new_def tag_defs phase_defs)
  finally have "fst (invoke_smvba E (exec E n) h OPT sigs qc s) = fst (process_spb_propose E (exec E n) ?v ?pf ?s2)" .
  moreover have "keeps quiet (process_spb_propose E (exec E n) ?v ?pf)"
    by (intro started.keeps_process_spb_propose started.keeps_exec)
  then have "quiet ?s2 (fst (process_spb_propose E (exec E n) ?v ?pf ?s2))" by (simp add: keeps_def)
  ultimately show ?thesis by (auto simp: quiet_def)
qed

text \<open>A peer that checks refuses it and stays as it is.\<close>

lemma opt_start_refused:
  assumes "wf_committee (k_committee p)" and "k_fallback_length p \<noteq> 0" and "exp_checks (k_parameters p) = 1"
  shows "\<exists>e. handle_event E m (SmvbaMessage (SPBPropose (opt_start_value s h []) (start_proof s h))) p = (p, Err e)"
proof -
  obtain e where "spbvalue_verify E (k_committee p) (start_proof s h) (k_fallback_length p) (opt_start_value s h []) = Err e"
    using opt_value_rejected [OF assms(1,2)] unfolding opt_start_value_def by blast
  then show ?thesis
    using assms(3) by (auto simp: handle_spb_proposal_def bindM_apply ensureM_def ensure_def exp_check_def whenM_def readM_def liftR_def)
qed

end
