(* ===== verification/Mempool_Live.thy ===== *)
theory Mempool_Live
  imports Mempool_Props
begin

text \<open>
  The life of a block that has to wait for payloads: once the mempool's synchronizer has received the \<open>Sync\<close> message,
  the block stays registered, whatever else the node does, until it is handed back or a clean-up of its height cancels it; and
  when the payloads are there, handing it back is possible.
\<close>

section \<open>What the other steps leave alone\<close>

definition waiters :: "Mempool \<Rightarrow> MWaiter list \<times> (Digest \<times> SeqNumber \<times> nat) list \<times> nat \<times> ConsensusMessage list \<times> ConsensusMessage list" where
  "waiters m = (ms_waiting (mp_synchronizer m), ms_pending (mp_synchronizer m), ms_next_id (mp_synchronizer m),
     mp_consensus_channel m, mp_consensus_channel_smvba m)"

definition same_waiters :: "Mempool \<Rightarrow> Mempool \<Rightarrow> bool" where
  "same_waiters m m' \<longleftrightarrow> waiters m' = waiters m"

interpretation idle: step_order same_waiters
  by unfold_locales (auto simp: same_waiters_def)

lemmas keeps_idle = keep_rules idle.keeps_modify

lemma fold_same: "(\<And>x m. waiters (f x m) = waiters m) \<Longrightarrow> waiters (fold f xs m) = waiters m"
  by (induction xs arbitrary: m) auto

lemma queue_ops_waiters [simp]:
  "waiters (opt_insert E d m) = waiters m" "waiters (pes_insert E d m) = waiters m"
  "waiters (opt_remove E d m) = waiters m" "waiters (pes_remove E d m) = waiters m"
  by (simp_all add: waiters_def opt_insert_def pes_insert_def opt_remove_def pes_remove_def)

lemma frame_waiters [simp]:
  "waiters (m\<lparr>mp_store := st\<rparr>) = waiters m" "waiters (m\<lparr>mp_network_channel := nc\<rparr>) = waiters m"
  "waiters (m\<lparr>mp_alive := al\<rparr>) = waiters m" "waiters (m\<lparr>mp_payload_maker := pm\<rparr>) = waiters m"
  "waiters (set_msync (\<lambda>s. s\<lparr>ms_alive := x\<rparr>) m) = waiters m" "waiters (set_msync (\<lambda>s. s\<lparr>ms_requests := f s\<rparr>) m) = waiters m"
  "waiters (set_msync (\<lambda>s. s\<lparr>ms_inner_channel := ch\<rparr>) m) = waiters m"
  by (simp_all add: waiters_def set_msync_def)

lemma transmit_idle: "keeps same_waiters (mempool_transmit msg to)"
  unfolding mempool_transmit_def by (intro keeps_idle) (simp add: same_waiters_def)

lemma msync_send_idle: "keeps same_waiters (msync_send msg)"
  by (simp add: keeps_def msync_send_def same_waiters_def waiters_def)

lemma own_payload_idle: "keeps same_waiters (process_own_payload E d p)"
  unfolding process_own_payload_def store_payload_def
  by (intro keeps_idle) (auto intro!: keeps_idle transmit_idle simp: same_waiters_def)

lemma dispatch_idle: "keeps same_waiters (mempool_dispatch E msg)"
proof (cases msg)
  case (OwnPayload p)
  then show ?thesis
    by (simp add: handle_own_payload_def del: stmts.simps, intro keeps_idle) (auto intro!: keeps_idle own_payload_idle simp: same_waiters_def)
next
  case (PayloadMsg p)
  then show ?thesis
    by (simp add: handle_others_payload_def store_payload_def del: stmts.simps, intro keeps_idle)
      (auto intro!: keeps_idle simp: same_waiters_def)
next
  case (PayloadRequest ds sender)
  then show ?thesis
    by (simp add: handle_payload_request_def, intro keeps_idle) (auto intro!: keeps_idle transmit_idle split: option.splits)
qed

lemma turn_idle: "keeps same_waiters h \<Longrightarrow> waiters (fst (mempool_turn h m)) = waiters m"
  by (auto simp: mempool_turn_def keeps_def same_waiters_def split: prod.splits result.splits) (metis fst_conv)+

lemma guard_idle: "keeps same_waiters h \<Longrightarrow> waiters (msync_guard h m) = waiters m"
  by (auto simp: msync_guard_def keeps_def same_waiters_def split: prod.splits result.splits) (metis fst_conv)+

lemma get_payload_idle: "keeps same_waiters (get_payload E mx tag)"
proof -
  have "keeps same_waiters (ask_payload_maker E)"
    by (simp add: keeps_def ask_payload_maker_def case_prod_beta same_waiters_def)
  then show ?thesis
    unfolding get_payload_def Let_def
    by (intro keeps_idle) (auto intro!: keeps_idle own_payload_idle fold_same simp: same_waiters_def split: option.splits)
qed

lemma driver_idle:
  "waiters (fst (driver_get E mx tag m)) = waiters m" "waiters (fst (driver_verify E b tag m)) = waiters m"
  "waiters (fst (driver_cleanup_par E b m)) = waiters m"
proof -
  show "waiters (fst (driver_get E mx tag m)) = waiters m"
    using turn_idle [OF get_payload_idle] by (simp add: driver_get_def case_prod_beta)
  have "keeps same_waiters (msync_verify_payload E b tag)"
    unfolding msync_verify_payload_def by (intro keeps_idle) (auto intro!: keeps_idle msync_send_idle)
  from turn_idle [OF this] show "waiters (fst (driver_verify E b tag m)) = waiters m"
    by (simp add: driver_verify_def case_prod_beta)
  have "keeps same_waiters (mempool_cleanup E ds r)" for ds r
    unfolding mempool_cleanup_def msync_cleanup_def
    by (intro keeps_idle) (auto intro!: keeps_idle msync_send_idle fold_same simp: same_waiters_def)
  from turn_idle [OF this] show "waiters (fst (driver_cleanup_par E b m)) = waiters m"
    by (simp add: driver_cleanup_par_def)
qed

section \<open>A registered block\<close>

text \<open>The numbers of the cancel channels: each belongs to one waiter, and a pending entry has the height of its waiter's block.\<close>

definition ids_ok :: "Mempool \<Rightarrow> bool" where
  "ids_ok m \<longleftrightarrow> (case waiters m of (ws, pending, next_id, _, _) \<Rightarrow>
     (\<forall>(d, r, cid) \<in> set pending. cid < next_id \<and> (\<forall>w \<in> set ws. wt_id w = cid \<longrightarrow> r = b_height (wt_block w))) \<and>
     (\<forall>w \<in> set ws. wt_id w < next_id))"

text \<open>The block waits, not cancelled, for these digests.\<close>

definition waiting_for :: "Mempool \<Rightarrow> Digest fset \<Rightarrow> Block \<Rightarrow> u8 \<Rightarrow> bool" where
  "waiting_for m missing b tag \<longleftrightarrow> (\<exists>cid. waiter cid missing b tag \<in> set (ms_waiting (mp_synchronizer m)))"

definition loopback_msg :: "u8 \<Rightarrow> Block \<Rightarrow> ConsensusMessage" where
  "loopback_msg tag b = (if tag = OPT then HsLoopBack b else if tag = PES then ParLoopBack b else FBLoopBack b)"

definition channel_of :: "u8 \<Rightarrow> Mempool \<Rightarrow> ConsensusMessage list" where
  "channel_of tag m = (if tag = OPT then mp_consensus_channel m else mp_consensus_channel_smvba m)"

text \<open>No clean-up of the height or above is on its way to the synchronizer.\<close>

definition no_clean :: "SeqNumber \<Rightarrow> Mempool \<Rightarrow> bool" where
  "no_clean h m \<longleftrightarrow> (\<forall>rnd. Clean rnd \<in> set (ms_inner_channel (mp_synchronizer m)) \<longrightarrow> rnd < h)"

lemma handle_sync_waiters:
  "waiters (msync_guard (msync_handle_sync E now missing b tag) m) =
    (if map_of (ms_pending (mp_synchronizer m)) (block_digest E b) = None
     then waiters (set_msync (register_waiter E missing b tag) m) else waiters m)"
proof (cases "map_of (ms_pending (mp_synchronizer m)) (block_digest E b) = None")
  case True
  have "keeps same_waiters (stmts [msync_request E now missing b])"
    unfolding msync_request_def Let_def by (intro keeps_idle) (auto intro!: keeps_idle transmit_idle simp: same_waiters_def)
  then have "waiters (fst (stmts [msync_request E now missing b] m')) = waiters m'" for m'
    by (simp add: keeps_def same_waiters_def del: stmts.simps)
  moreover have "fst (msync_handle_sync E now missing b tag m) =
      fst (stmts [msync_request E now missing b] (set_msync (register_waiter E missing b tag) m))"
    using True by (simp add: msync_handle_sync_def unlessM_def bindM_def modifyM_def)
  moreover have "waiters (msync_guard h m) = waiters (fst (h m))" for h
    by (auto simp: msync_guard_def split: prod.splits result.splits)
  ultimately show ?thesis using True by simp
qed (auto simp: msync_guard_def msync_handle_sync_def unlessM_def)

lemma remains: "w \<in> set xs \<Longrightarrow> i < length xs \<Longrightarrow> xs ! i \<noteq> w \<Longrightarrow> w \<in> set (take i xs @ drop (Suc i) xs)"
  by (metis id_take_nth_drop in_set_conv_decomp set_ConsD set_append Un_iff list.set_intros(2) list.set_cases)

lemma dropped: "set (take i xs @ drop (Suc i) xs) \<subseteq> set xs"
  by (auto dest: in_set_takeD in_set_dropD)

lemma ids_ok_sub:
  assumes "ids_ok m" and "set (ms_waiting (mp_synchronizer m')) \<subseteq> set (ms_waiting (mp_synchronizer m))"
    and "set (ms_pending (mp_synchronizer m')) \<subseteq> set (ms_pending (mp_synchronizer m))"
    and "ms_next_id (mp_synchronizer m') = ms_next_id (mp_synchronizer m)"
  shows "ids_ok m'"
  using assms by (fastforce simp: ids_ok_def waiters_def)

lemma update_sub: "set (AList.update k v al) \<subseteq> insert (k, v) (set al)"
  by (induction al) auto

lemma ids_ok_register:
  assumes "ids_ok m"
  shows "ids_ok (set_msync (register_waiter E missing b tag) m)"
proof -
  let ?n = "ms_next_id (mp_synchronizer m)"
  have "x = (block_digest E b, b_height b, ?n) \<or> x \<in> set (ms_pending (mp_synchronizer m))"
    if "x \<in> set (AList.update (block_digest E b) (b_height b, ?n) (ms_pending (mp_synchronizer m)))" for x
    using that update_sub by fastforce
  with assms show ?thesis
    by (fastforce simp: ids_ok_def waiters_def set_msync_def register_waiter_def waiter_def)
qed

lemma ids_ok_clean: "ids_ok m \<Longrightarrow> ids_ok (set_msync (msync_handle_clean rnd) m)"
  by (fastforce simp: ids_ok_def waiters_def set_msync_def msync_handle_clean_def split: if_splits)

lemma delete_sub: "set (AList.delete k al) \<subseteq> set al"
  by (induction al) auto

section \<open>One step\<close>

text \<open>What a step does to the block: it stays registered, or this step has handed it back.\<close>

definition stays_or_returns :: "Digest fset \<Rightarrow> Block \<Rightarrow> u8 \<Rightarrow> Mempool \<Rightarrow> Mempool \<Rightarrow> bool" where
  "stays_or_returns missing b tag m m' \<longleftrightarrow> ids_ok m' \<and> (\<exists>xs. channel_of tag m' = channel_of tag m @ xs \<and>
     (waiting_for m' missing b tag \<or> loopback_msg tag b \<in> set xs))"

lemma same_stays:
  "waiters m' = waiters m \<Longrightarrow> ids_ok m \<Longrightarrow> waiting_for m missing b tag \<Longrightarrow> stays_or_returns missing b tag m m'"
  by (auto simp: stays_or_returns_def ids_ok_def waiting_for_def channel_of_def waiters_def)

lemma stays_cong:
  assumes "waiters m' = waiters m''" and "stays_or_returns missing b tag m m''"
  shows "stays_or_returns missing b tag m m'"
proof -
  have "ms_waiting (mp_synchronizer m') = ms_waiting (mp_synchronizer m'')" "channel_of tag m' = channel_of tag m''"
    using assms(1) by (simp_all add: waiters_def channel_of_def)
  with assms show ?thesis by (simp add: stays_or_returns_def ids_ok_def waiting_for_def)
qed

lemma recv_stays:
  assumes "ids_ok m" and "waiting_for m missing b tag" and "no_clean (b_height b) m"
  shows "stays_or_returns missing b tag m (msync_recv E now m)"
proof (cases "ms_inner_channel (mp_synchronizer m)")
  case Nil
  with assms show ?thesis by (simp add: msync_recv_def same_stays)
next
  case (Cons msg msgs)
  let ?m = "set_msync (\<lambda>s. s\<lparr>ms_inner_channel := msgs\<rparr>) m"
  have m: "waiters ?m = waiters m" by simp
  then have ids: "ids_ok ?m" using assms(1) by (simp add: ids_ok_def)
  show ?thesis
  proof (cases msg)
    case (Sync missing' b' tag')
    let ?r = "set_msync (register_waiter E missing' b' tag') ?m"
    let ?m' = "msync_guard (msync_handle_sync E now missing' b' tag') ?m"
    have "stays_or_returns missing b tag m ?r"
      using assms(2) ids_ok_register [OF ids]
      by (auto simp: stays_or_returns_def waiting_for_def channel_of_def set_msync_def register_waiter_def)
    moreover have "stays_or_returns missing b tag m ?m" using same_stays [OF m assms(1,2)] .
    moreover have "waiters ?m' = waiters ?r \<or> waiters ?m' = waiters ?m" by (simp add: handle_sync_waiters)
    ultimately have "stays_or_returns missing b tag m ?m'" using stays_cong by metis
    then show ?thesis by (simp add: msync_recv_def Cons Sync)
  next
    case (Clean rnd)
    let ?c = "set_msync (msync_handle_clean rnd) ?m"
    from assms(2) obtain cid where w: "waiter cid missing b tag \<in> set (ms_waiting (mp_synchronizer m))" by (auto simp: waiting_for_def)
    have "rnd < b_height b" using assms(3) Cons Clean by (simp add: no_clean_def)
    moreover have "r = b_height b" if "(d, r, cid) \<in> set (ms_pending (mp_synchronizer m))" for d r
      using that w assms(1) by (fastforce simp: ids_ok_def waiters_def waiter_def)
    ultimately have none: "\<not> (\<exists>(d, r, c) \<in> set (ms_pending (mp_synchronizer m)). r \<le> rnd \<and> c = cid)" by force
    let ?f = "\<lambda>w. if \<exists>(d, r, c) \<in> set (ms_pending (mp_synchronizer m)). r \<le> rnd \<and> c = wt_id w then w\<lparr>wt_cancelled := True\<rparr> else w"
    have "wt_id (waiter cid missing b tag) = cid" by (simp add: waiter_def)
    with none have "?f (waiter cid missing b tag) = waiter cid missing b tag" by simp
    with imageI [OF w, of ?f] have "waiter cid missing b tag \<in> set (map ?f (ms_waiting (mp_synchronizer m)))" by simp
    then have "waiter cid missing b tag \<in> set (ms_waiting (mp_synchronizer ?c))"
      by (simp add: set_msync_def msync_handle_clean_def)
    with ids_ok_clean [OF ids] have "stays_or_returns missing b tag m ?c"
      by (auto simp: stays_or_returns_def waiting_for_def channel_of_def set_msync_def)
    then show ?thesis by (simp add: msync_recv_def Cons Clean)
  qed
qed

lemma drop_waiting:
  assumes "waiting_for m missing b tag" and "i < length (ms_waiting (mp_synchronizer m))"
    and "\<And>cid. ms_waiting (mp_synchronizer m) ! i \<noteq> waiter cid missing b tag"
  shows "waiting_for (set_msync (drop_waiter i) m) missing b tag"
proof -
  from assms(1) obtain cid where "waiter cid missing b tag \<in> set (ms_waiting (mp_synchronizer m))" by (auto simp: waiting_for_def)
  from remains [OF this assms(2,3)] show ?thesis
    unfolding waiting_for_def by (intro exI [of _ cid]) (simp add: set_msync_def drop_waiter_def)
qed

lemma drop_stays:
  assumes "ids_ok m" and "waiting_for m missing b tag" and "i < length (ms_waiting (mp_synchronizer m))"
    and "\<And>cid. ms_waiting (mp_synchronizer m) ! i \<noteq> waiter cid missing b tag"
  shows "stays_or_returns missing b tag m (set_msync (drop_waiter i) m)"
proof -
  have "ids_ok (set_msync (drop_waiter i) m)"
    using dropped [of i "ms_waiting (mp_synchronizer m)"]
    by (intro ids_ok_sub [OF assms(1)]) (simp_all add: set_msync_def drop_waiter_def)
  with drop_waiting [OF assms(2-4)] show ?thesis by (simp add: stays_or_returns_def channel_of_def set_msync_def)
qed

lemma deliver_returns:
  assumes "ids_ok m" and "waiting_for m missing b tag" and "i < length (ms_waiting (mp_synchronizer m))"
  shows "stays_or_returns missing b tag m (msync_deliver E i m)"
proof -
  let ?w = "ms_waiting (mp_synchronizer m) ! i"
  have ids: "ids_ok (msync_deliver E i m)"
    using dropped [of i "ms_waiting (mp_synchronizer m)"] delete_sub
    by (intro ids_ok_sub [OF assms(1)]) (simp_all add: msync_deliver_def Let_def loopback_def set_msync_def drop_waiter_def)
  have chan: "\<exists>xs. channel_of tag (msync_deliver E i m) = channel_of tag m @ xs"
    by (simp add: msync_deliver_def Let_def loopback_def set_msync_def channel_of_def)
  show ?thesis
  proof (cases "\<exists>cid. ?w = waiter cid missing b tag")
    case True
    then show ?thesis
      using ids by (auto simp: stays_or_returns_def msync_deliver_def Let_def loopback_def set_msync_def channel_of_def loopback_msg_def waiter_def)
  next
    case False
    then have "waiting_for (set_msync (drop_waiter i) m) missing b tag" using drop_waiting [OF assms(2,3)] by blast
    moreover have "ms_waiting (mp_synchronizer (msync_deliver E i m)) = ms_waiting (mp_synchronizer (set_msync (drop_waiter i) m))"
      by (simp add: msync_deliver_def Let_def loopback_def set_msync_def drop_waiter_def)
    ultimately have "waiting_for (msync_deliver E i m) missing b tag"
      by (simp add: waiting_for_def)
    with ids chan show ?thesis by (auto simp: stays_or_returns_def)
  qed
qed

lemma step_stays:
  assumes "mempool_step E m m'" and "rocksdb_ok E" and "ids_ok m" and "waiting_for m missing b tag" and "no_clean (b_height b) m"
  shows "stays_or_returns missing b tag m m'"
  using assms
proof (induction rule: mempool_step.induct)
  case (recv m msg)
  then show ?case by (simp add: same_stays turn_idle dispatch_idle)
next
  case (own m msg msgs)
  then show ?case by (simp add: same_stays turn_idle dispatch_idle)
next
  case (sync_recv m now)
  then show ?case by (simp add: recv_stays)
next
  case (sync_deliver m i)
  then show ?case by (simp add: deliver_returns)
next
  case (sync_cancel m i)
  then show ?case by (intro drop_stays) (auto simp: waiter_def)
next
  case (sync_fail m i)
  then have False by (auto simp: waiter_failed_def store_read_def rocksdb_ok_def)
  then show ?case ..
next
  case (sync_timer m now)
  then show ?case by (simp add: same_stays msync_timer_def Let_def guard_idle transmit_idle)
qed (simp_all add: same_stays driver_idle)

text \<open>The channels to the core only grow.\<close>

lemma channel_cong: "waiters m' = waiters m \<Longrightarrow> \<exists>xs. channel_of tag m' = channel_of tag m @ xs"
  by (simp add: waiters_def channel_of_def)

lemma channel_grows: "mempool_step E m m' \<Longrightarrow> \<exists>xs. channel_of tag m' = channel_of tag m @ xs"
proof (induction rule: mempool_step.induct)
  case (sync_recv m now)
  have sync: "channel_of tag (msync_guard (msync_handle_sync E now missing b t) m') = channel_of tag m'" for missing b t m'
  proof -
    have "waiters (msync_guard (msync_handle_sync E now missing b t) m') \<in> {waiters m', waiters (set_msync (register_waiter E missing b t) m')}"
      by (simp add: handle_sync_waiters)
    moreover have "channel_of tag (set_msync (register_waiter E missing b t) m') = channel_of tag m'"
      by (simp add: channel_of_def set_msync_def)
    ultimately show ?thesis by (auto simp: waiters_def channel_of_def)
  qed
  show ?case
    by (cases "ms_inner_channel (mp_synchronizer m)")
      (auto simp: msync_recv_def sync Let_def split: SynchronizerMessage.splits, auto simp: channel_of_def set_msync_def)
next
  case (sync_deliver m i)
  show ?case by (simp add: msync_deliver_def Let_def loopback_def set_msync_def channel_of_def)
next
  case (sync_timer m now)
  show ?case by (rule channel_cong) (simp add: msync_timer_def Let_def guard_idle transmit_idle)
next
  case (sync_cancel m i)
  show ?case by (simp add: channel_of_def set_msync_def)
next
  case (sync_fail m i)
  show ?case by (simp add: channel_of_def set_msync_def)
qed (rule channel_cong, simp add: turn_idle dispatch_idle driver_idle)+

section \<open>Runs\<close>

text \<open>The numbering is sound from the start of the mempool on.\<close>

lemma ids_ok_new: "ids_ok (mempool_core_new E name c p st maker)"
  by (simp add: ids_ok_def waiters_def mempool_core_new_def msync_new_def)

lemma ids_ok_cong: "waiters m' = waiters m \<Longrightarrow> ids_ok m \<Longrightarrow> ids_ok m'"
  by (simp add: ids_ok_def)

lemma recv_ids:
  assumes "ids_ok m"
  shows "ids_ok (msync_recv E now m)"
proof (cases "ms_inner_channel (mp_synchronizer m)")
  case (Cons msg msgs)
  let ?m = "set_msync (\<lambda>s. s\<lparr>ms_inner_channel := msgs\<rparr>) m"
  have ids: "ids_ok ?m" using assms by (rule ids_ok_cong [rotated]) simp
  have "ids_ok (msync_guard (msync_handle_sync E now missing b tag) ?m)" for missing b tag
    using ids ids_ok_register [OF ids] handle_sync_waiters ids_ok_cong by metis
  with ids show ?thesis
    by (cases msg) (simp_all add: msync_recv_def Cons ids_ok_clean)
qed (simp add: assms msync_recv_def)

lemma ids_step: "mempool_step E m m' \<Longrightarrow> ids_ok m \<Longrightarrow> ids_ok m'"
proof (induction rule: mempool_step.induct)
  case (recv m msg)
  then show ?case by (rule ids_ok_cong [rotated]) (simp add: turn_idle dispatch_idle)
next
  case (own m msg msgs)
  from own.prems show ?case by (rule ids_ok_cong [rotated]) (simp add: turn_idle dispatch_idle)
next
  case (sync_recv m now)
  then show ?case by (simp add: recv_ids)
next
  case (sync_deliver m i)
  from sync_deliver.prems show ?case
    using dropped [of i "ms_waiting (mp_synchronizer m)"] delete_sub
    by (elim ids_ok_sub) (simp_all add: msync_deliver_def Let_def loopback_def set_msync_def drop_waiter_def)
next
  case (sync_cancel m i)
  from sync_cancel.prems show ?case
    using dropped [of i "ms_waiting (mp_synchronizer m)"] by (elim ids_ok_sub) (simp_all add: set_msync_def drop_waiter_def)
next
  case (sync_fail m i)
  from sync_fail.prems show ?case
    using dropped [of i "ms_waiting (mp_synchronizer m)"] by (elim ids_ok_sub) (simp_all add: set_msync_def drop_waiter_def)
next
  case (sync_timer m now)
  from sync_timer.prems show ?case
    by (rule ids_ok_cong [rotated]) (simp add: msync_timer_def Let_def guard_idle transmit_idle)
qed (erule ids_ok_cong [rotated], simp add: driver_idle)+

lemma ids_reaches: "mempool_reaches E m m' \<Longrightarrow> ids_ok m \<Longrightarrow> ids_ok m'"
  by (induction rule: mempool_reaches.induct) (auto intro: ids_step)

text \<open>Steps of the mempool during which no clean-up of height \<open>h\<close> or above is on its way.\<close>

inductive undisturbed :: "'z node_ext_scheme \<Rightarrow> SeqNumber \<Rightarrow> Mempool \<Rightarrow> Mempool \<Rightarrow> bool" for E h where
  start: "undisturbed E h m m"
| more: "undisturbed E h m m' \<Longrightarrow> no_clean h m' \<Longrightarrow> mempool_step E m' m'' \<Longrightarrow> undisturbed E h m m''"

lemma undisturbed_stays:
  assumes "undisturbed E (b_height b) m m'" and "rocksdb_ok E" and "ids_ok m" and "waiting_for m missing b tag"
  shows "ids_ok m' \<and> (\<exists>xs. channel_of tag m' = channel_of tag m @ xs \<and>
    (waiting_for m' missing b tag \<or> loopback_msg tag b \<in> set xs))"
  using assms
proof (induction rule: undisturbed.induct)
  case (start m)
  then show ?case by simp
next
  case (more m m' m'')
  then obtain xs where ids: "ids_ok m'" and xs: "channel_of tag m' = channel_of tag m @ xs"
    and waits: "waiting_for m' missing b tag \<or> loopback_msg tag b \<in> set xs" by blast
  from channel_grows [OF more.hyps(3)] obtain ys where ys: "channel_of tag m'' = channel_of tag m' @ ys" by blast
  have "waiting_for m'' missing b tag \<or> loopback_msg tag b \<in> set (xs @ ys)"
  proof (cases "waiting_for m' missing b tag")
    case True
    from step_stays [OF more.hyps(3) more.prems(1) ids True more.hyps(2)] ys show ?thesis by (auto simp: stays_or_returns_def)
  qed (use waits in simp)
  with xs ys ids_step [OF more.hyps(3) ids] show ?case by auto
qed

text \<open>The \<open>Sync\<close> message at the head of the channel registers its block, unless that is pending already.\<close>

lemma sync_registers:
  assumes "ms_inner_channel (mp_synchronizer m) = Sync missing b tag # msgs"
    and "map_of (ms_pending (mp_synchronizer m)) (block_digest E b) = None"
  shows "waiting_for (msync_recv E now m) missing b tag"
proof -
  let ?m = "set_msync (\<lambda>s. s\<lparr>ms_inner_channel := msgs\<rparr>) m"
  have "waiters (msync_recv E now m) = waiters (set_msync (register_waiter E missing b tag) ?m)"
    using assms by (simp add: msync_recv_def handle_sync_waiters) (simp add: set_msync_def)
  then have "ms_waiting (mp_synchronizer (msync_recv E now m)) =
      ms_waiting (mp_synchronizer (set_msync (register_waiter E missing b tag) ?m))"
    unfolding waiters_def by simp
  then show ?thesis by (auto simp: waiting_for_def set_msync_def register_waiter_def)
qed

text \<open>When the payloads are there and the synchronizer runs, handing the block back is the next possible step.\<close>

lemma ready_delivers:
  assumes "waiting_for m missing b tag" and "fBall missing (stored E (mp_store m))" and "ms_alive (mp_synchronizer m)"
  shows "\<exists>i. mempool_step E m (msync_deliver E i m) \<and>
    channel_of tag (msync_deliver E i m) = channel_of tag m @ [loopback_msg tag b]"
proof -
  from assms(1) obtain cid i where w: "i < length (ms_waiting (mp_synchronizer m))"
    "ms_waiting (mp_synchronizer m) ! i = waiter cid missing b tag"
    by (auto simp: waiting_for_def in_set_conv_nth)
  with assms(2,3) have "mempool_step E m (msync_deliver E i m)"
    by (intro mempool_step.sync_deliver) (auto simp: waiter_ready_def waiter_def)
  with w show ?thesis
    by (intro exI [of _ i]) (auto simp: msync_deliver_def Let_def waiter_def loopback_def set_msync_def channel_of_def loopback_msg_def)
qed

end
