(* ===== verification/Coin_Props.thy ===== *)
theory Coin_Props
  imports Aggregator
begin

text \<open>
  The random coin over any sequence of shares (\<open>RandomCoinMaker\<close> in \<open>consensus/src/aggregator.rs\<close>): which shares a coin is made of, how
  many coins there are of a height and round, and that their leaders are members.
\<close>

definition share_key :: "RandomnessShare \<Rightarrow> SeqNumber \<times> SeqNumber" where
  "share_key s = (rs_height s, rs_round s)"

definition coin_key :: "RandomCoin \<Rightarrow> SeqNumber \<times> SeqNumber" where
  "coin_key coin = (rc_height coin, rc_round coin)"

section \<open>One maker\<close>

text \<open>
  What a maker has collected: shares it was given, one per author, with their stake as its weight. Unlike the makers of
  certificates it never resets its weight.
\<close>

definition coin_counted :: "Committee \<Rightarrow> RandomnessShare set \<Rightarrow> CoinMaker \<Rightarrow> bool" where
  "coin_counted c S m \<longleftrightarrow> distinct (map rs_author (cm_shares m)) \<and> set (cm_shares m) \<subseteq> S \<and>
     fset (cm_used m) = rs_author ` set (cm_shares m) \<and>
     unat (cm_weight m) = (\<Sum>k \<in> fset (cm_used m). unat (stake c k))"

lemma coin_counted_new [simp]: "coin_counted c S coinmaker_new"
  by (simp add: coin_counted_def coinmaker_new_def)

lemma coin_counted_mono: "coin_counted c S m \<Longrightarrow> S \<subseteq> T \<Longrightarrow> coin_counted c T m"
  by (auto simp: coin_counted_def)

text \<open>The coin that the shares of a maker give.\<close>

definition made_of :: "Committee \<Rightarrow> RandomnessShare set \<Rightarrow> RandomCoin \<Rightarrow> bool" where
  "made_of c S coin \<longleftrightarrow> set (rc_shares coin) \<subseteq> S \<and> distinct (map rs_author (rc_shares coin)) \<and>
     (\<Sum>k \<in> rs_author ` set (rc_shares coin). unat (stake c k)) = unat (random_coin_threshold c) \<and>
     rc_leader coin \<in> set (committee_names c)"

lemma coinmaker_step:
  assumes "wf_committee c" and "coin_counted c S m" and "share \<in> S" and "coinmaker_append E pk c share m = (m', r)"
  shows "coin_counted c S m' \<and> (\<forall>coin. r = Ok (Some coin) \<longrightarrow> made_of c S coin \<and> coin_key coin = share_key share \<and>
    rc_epoch coin = rs_epoch share)"
proof (cases "rs_author share |\<in>| cm_used m")
  case True
  with assms(2,4) show ?thesis by (auto simp: coinmaker_append_def)
next
  case False
  let ?a = "rs_author share" and ?U = "fset (cm_used m)"
  have m': "cm_used m' = finsert ?a (cm_used m)" "cm_shares m' = cm_shares m @ [share]" "cm_weight m' = cm_weight m + stake c ?a"
    and r: "\<And>coin. r = Ok (Some coin) \<Longrightarrow> cm_weight m' = random_coin_threshold c \<and> rc_shares coin = cm_shares m' \<and>
      coin_key coin = share_key share \<and> rc_epoch coin = rs_epoch share \<and> rc_leader coin \<in> set (committee_names c)"
    using assms(4) False
    by (auto simp: coinmaker_append_def Let_def rbind_Ok coin_key_def share_key_def coin_leader_member
        split: if_splits option.splits)
  have "unat (cm_weight m') = (\<Sum>k \<in> insert ?a ?U. unat (stake c k))"
    unfolding m'(3) using False assms(2) by (intro unat_weight_add [OF assms(1)]) (auto simp: coin_counted_def)
  with m' assms(2,3) False have inv: "coin_counted c S m'" by (auto simp: coin_counted_def)
  then show ?thesis using r by (auto simp: coin_counted_def made_of_def)
qed

text \<open>
  \<open>threshold_crypto\<close> combines any shares of the right number with different indices. The indices come from the committee.
\<close>

definition combine_ok :: "'z crypto_ext_scheme \<Rightarrow> PublicKeySet \<Rightarrow> nat \<Rightarrow> bool" where
  "combine_ok E pk n \<longleftrightarrow> (\<forall>sigs. distinct (map fst sigs) \<and> length sigs = n \<longrightarrow>
     (\<exists>sig. tss_combine E pk sigs = Some sig \<and> 8 \<le> length sig))"

definition distinct_ids :: "Committee \<Rightarrow> bool" where
  "distinct_ids c \<longleftrightarrow> distinct (map (a_id \<circ> snd) (authorities c))"

definition unit_stakes :: "Committee \<Rightarrow> bool" where
  "unit_stakes c \<longleftrightarrow> (\<forall>k \<in> set (committee_names c). stake c k = 1)"

lemma member_id:
  assumes "k \<in> set (committee_names c)"
  shows "\<exists>i. committee_id c k = Ok i"
proof -
  from assms obtain a where "map_of (authorities c) k = Some a"
    by (auto simp: committee_names_def) (metis map_of_eq_None_iff option.exhaust image_eqI fst_conv)
  then have "committee_id c k = Ok (a_id a)" by (simp add: committee_id_def)
  then show ?thesis ..
qed

lemma distinct_ids_inj:
  assumes "distinct_ids c" and "committee_id c k = Ok i" and "committee_id c k' = Ok i"
  shows "k = k'"
proof -
  obtain a a' where "map_of (authorities c) k = Some a" "map_of (authorities c) k' = Some a'" "a_id a = i" "a_id a' = i"
    using assms(2,3) by (cases "map_of (authorities c) k"; cases "map_of (authorities c) k'") (auto simp: committee_id_def)
  then have "(k, a) \<in> set (authorities c)" "(k', a') \<in> set (authorities c)" "(a_id \<circ> snd) (k, a) = (a_id \<circ> snd) (k', a')"
    by (auto dest: map_of_SomeD)
  with assms(1) have "(k, a) = (k', a')" unfolding distinct_ids_def distinct_map by (metis inj_onD)
  then show ?thesis by simp
qed

lemma collect_all:
  assumes "distinct_ids c" and "\<forall>s \<in> set shares. rs_author s \<in> set (committee_names c)" and "distinct (map rs_author shares)"
    and "distinct (map fst sigs)" and "\<forall>s \<in> set shares. \<forall>i \<in> set (map fst sigs). committee_id c (rs_author s) \<noteq> Ok i"
  shows "\<exists>sigs'. collect_shares c shares sigs = Ok sigs' \<and> distinct (map fst sigs') \<and> length sigs' = length sigs + length shares"
  using assms(2-5)
proof (induction shares arbitrary: sigs)
  case Nil
  then show ?case by simp
next
  case (Cons s shares)
  obtain i where id: "committee_id c (rs_author s) = Ok i" using member_id [of "rs_author s" c] Cons.prems(1) by auto
  let ?sigs = "AList.update i (rs_signature_share s) sigs"
  have new: "i \<notin> set (map fst sigs)" using Cons.prems(4) id by auto
  then have keys: "map fst ?sigs = map fst sigs @ [i]" by (simp add: update_keys)
  have "committee_id c (rs_author s') \<noteq> Ok i" if "s' \<in> set shares" for s'
    using distinct_ids_inj [OF assms(1) id] that Cons.prems(2) by force
  then have "\<forall>s' \<in> set shares. \<forall>j \<in> set (map fst ?sigs). committee_id c (rs_author s') \<noteq> Ok j"
    unfolding keys using Cons.prems(4) by auto
  moreover have "distinct (map fst ?sigs)" unfolding keys using new Cons.prems(3) by simp
  ultimately obtain sigs' where "collect_shares c shares ?sigs = Ok sigs'" "distinct (map fst sigs')"
      "length sigs' = length ?sigs + length shares"
    using Cons.IH [of ?sigs] Cons.prems(1,2) by auto
  moreover have "length ?sigs = length sigs + 1" using arg_cong [OF keys, of length] by simp
  ultimately show ?case using id by auto
qed

lemma coin_leader_Ok: "0 < committee_size c \<Longrightarrow> 8 \<le> length sig \<Longrightarrow> \<exists>k. coin_leader c sig = Ok k"
  by (simp add: coin_leader_def slice_to_def Let_def)

text \<open>With one unit of stake each, the share that brings a maker to the threshold gives a coin, and no other does.\<close>

lemma unit_weight:
  assumes "unit_stakes c" and "coin_counted c S m" and "\<forall>s \<in> S. rs_author s \<in> set (committee_names c)"
  shows "unat (cm_weight m) = length (cm_shares m)" and "fcard (cm_used m) = length (cm_shares m)"
proof -
  have "card (rs_author ` set (cm_shares m)) = length (cm_shares m)"
    using assms(2) distinct_card [of "map rs_author (cm_shares m)"] by (simp add: coin_counted_def)
  moreover have unit: "unat (stake c k) = 1" if "k \<in> rs_author ` set (cm_shares m)" for k
  proof -
    have "k \<in> set (committee_names c)" using that assms(2,3) by (auto simp: coin_counted_def)
    with assms(1) show ?thesis by (simp add: unit_stakes_def)
  qed
  have "(\<Sum>k \<in> rs_author ` set (cm_shares m). unat (stake c k)) = card (rs_author ` set (cm_shares m))"
    using unit by simp
  ultimately show "unat (cm_weight m) = length (cm_shares m)" "fcard (cm_used m) = length (cm_shares m)"
    using assms(2) by (simp_all add: coin_counted_def fcard.rep_eq)
qed

lemma unit_step:
  assumes "wf_committee c" and "unit_stakes c" and "distinct_ids c" and "combine_ok E pk (unat (random_coin_threshold c))"
    and "coin_counted c S m" and "\<forall>s \<in> S. rs_author s \<in> set (committee_names c)" and "share \<in> S" and "rs_author share |\<notin>| cm_used m"
    and "coinmaker_append E pk c share m = (m', r)"
  shows "cm_used m' = finsert (rs_author share) (cm_used m) \<and>
    (if fcard (cm_used m') = unat (random_coin_threshold c) then \<exists>coin. r = Ok (Some coin) else r = Ok None)"
proof -
  have inv: "coin_counted c S m'" using coinmaker_step [OF assms(1,5,7,9)] by simp
  note w = unit_weight [OF assms(2) inv assms(6)]
  have m': "cm_used m' = finsert (rs_author share) (cm_used m)"
    and r: "r = (if cm_weight m' = random_coin_threshold c
      then rbind (collect_shares c (cm_shares m') []) (\<lambda>sigs. case tss_combine E pk (sort_key fst sigs) of
          None \<Rightarrow> Ok None
        | Some sig \<Rightarrow> rbind (coin_leader c sig) (\<lambda>leader. Ok (Some \<lparr>rc_height = rs_height share, rc_epoch = rs_epoch share,
            rc_round = rs_round share, rc_leader = leader, rc_shares = cm_shares m'\<rparr>)))
      else Ok None)"
    using assms(8,9) by (auto simp: coinmaker_append_def Let_def)
  have iff: "cm_weight m' = random_coin_threshold c \<longleftrightarrow> fcard (cm_used m') = unat (random_coin_threshold c)"
    using w by (simp add: word_unat_eq_iff)
  have "\<exists>coin. r = Ok (Some coin)" if t: "cm_weight m' = random_coin_threshold c"
  proof -
    obtain sigs where sigs: "collect_shares c (cm_shares m') [] = Ok sigs" "distinct (map fst sigs)" "length sigs = length (cm_shares m')"
      using collect_all [OF assms(3), of "cm_shares m'" "[]"] inv assms(6) by (auto simp: coin_counted_def)
    then have "distinct (map fst (sort_key fst sigs))" "length (sort_key fst sigs) = unat (random_coin_threshold c)"
      using w t by (simp_all add: distinct_map)
    then obtain sig where sig: "tss_combine E pk (sort_key fst sigs) = Some sig" "8 \<le> length sig"
      using assms(4) unfolding combine_ok_def by blast
    have "authorities c \<noteq> []" using assms(1) by (auto simp: wf_committee_def total_stake_def)
    then have "0 < committee_size c" by (simp add: committee_size_def)
    from coin_leader_Ok [OF this sig(2)] show ?thesis using r t sigs(1) sig(1) by auto
  qed
  then show ?thesis using m' r iff by auto
qed

lemma feed_coins:
  assumes "wf_committee c" and "coin_counted c S m" and "set shares \<subseteq> S"
    and "coin \<in> set (snd (feed (coinmaker_append E pk c) shares m))"
  shows "made_of c S coin"
  using assms(2-4)
proof (induction shares arbitrary: m)
  case Nil
  then show ?case by simp
next
  case (Cons s shares)
  obtain m' r where app: "coinmaker_append E pk c s m = (m', r)" by fastforce
  from coinmaker_step [OF assms(1) Cons.prems(1) _ app] Cons.prems(2)
  have step: "coin_counted c S m'" "\<And>x. r = Ok (Some x) \<Longrightarrow> made_of c S x" by auto
  from Cons.prems(3) app have "r = Ok (Some coin) \<or> coin \<in> set (snd (feed (coinmaker_append E pk c) shares m'))"
    by (auto split: result.splits option.splits prod.splits)
  with step Cons.IH [OF step(1)] Cons.prems(2) show ?case by auto
qed

lemma feed_coin_count:
  assumes "wf_committee c" and "unit_stakes c" and "distinct_ids c" and "combine_ok E pk (unat (random_coin_threshold c))"
    and "coin_counted c S m" and "\<forall>s \<in> S. rs_author s \<in> set (committee_names c)" and "set shares \<subseteq> S"
  shows "length (snd (feed (coinmaker_append E pk c) shares m)) =
    (if fcard (cm_used m) < unat (random_coin_threshold c) \<and>
        unat (random_coin_threshold c) \<le> card (fset (cm_used m) \<union> rs_author ` set shares) then 1 else 0)"
  using assms(5,7)
proof (induction shares arbitrary: m)
  case Nil
  then show ?case by (simp add: fcard.rep_eq)
next
  case (Cons s shares)
  let ?t = "unat (random_coin_threshold c)" and ?app = "coinmaker_append E pk c"
  obtain m' r where app: "?app s m = (m', r)" by fastforce
  have inv: "coin_counted c S m'" using coinmaker_step [OF assms(1) Cons.prems(1) _ app] Cons.prems(2) by auto
  show ?case
  proof (cases "rs_author s |\<in>| cm_used m")
    case True
    then have "m' = m" "\<forall>x. r \<noteq> Ok (Some x)" using app by (auto simp: coinmaker_append_def)
    with app have "feed ?app (s # shares) m = feed ?app shares m" by (auto split: result.splits option.splits)
    with Cons.IH [OF Cons.prems(1)] Cons.prems(2) True show ?thesis by (simp add: insert_absorb Un_insert_left)
  next
    case False
    from unit_step [OF assms(1-4) Cons.prems(1) assms(6) _ False app] Cons.prems(2)
    have used: "cm_used m' = finsert (rs_author s) (cm_used m)"
      and r: "if fcard (cm_used m') = ?t then \<exists>x. r = Ok (Some x) else r = Ok None" by auto
    have card: "fcard (cm_used m') = fcard (cm_used m) + 1" using used False by (simp add: fcard_finsert_disjoint)
    have union: "fset (cm_used m') \<union> rs_author ` set shares = fset (cm_used m) \<union> rs_author ` set (s # shares)" using used by auto
    have "fcard (cm_used m') \<le> card (fset (cm_used m) \<union> rs_author ` set (s # shares))"
      unfolding union [symmetric] fcard.rep_eq by (rule card_mono) auto
    moreover have "length (snd (feed ?app (s # shares) m)) =
        (if fcard (cm_used m') = ?t then 1 else 0) + length (snd (feed ?app shares m'))"
      using app r by (auto split: prod.splits if_splits)
    ultimately show ?thesis using Cons.IH [OF inv] Cons.prems(2) card unfolding union by auto
  qed
qed

section \<open>The aggregator\<close>

text \<open>Shares of all heights and rounds interleaved: each pair sees its own, as if its maker were alone.\<close>

lemma coin_for_key:
  "coinmaker_append E pk c s m = (m', Ok (Some coin)) \<Longrightarrow> coin_key coin = share_key s"
  by (auto simp: coinmaker_append_def Let_def rbind_Ok coin_key_def share_key_def split: if_splits option.splits)

lemma feed_add_smvba_random:
  "filter (\<lambda>coin. coin_key coin = k) (snd (feed (add_smvba_random E pk) shares a)) =
   snd (feed (coinmaker_append E pk (ag_committee a)) (filter (\<lambda>s. share_key s = k) shares) (entry_or (ag_coin a) k coinmaker_new))"
proof (induction shares arbitrary: a)
  case Nil
  then show ?case by simp
next
  case (Cons s shares)
  let ?m = "entry_or (ag_coin a) (share_key s) coinmaker_new"
  obtain m' r where app: "coinmaker_append E pk (ag_committee a) s ?m = (m', r)" by fastforce
  let ?a = "a\<lparr>ag_coin := (ag_coin a)(share_key s \<mapsto> m')\<rparr>"
  have add: "add_smvba_random E pk s a = (?a, r)" using app by (simp add: add_smvba_random_def share_key_def Let_def)
  have entry: "entry_or (ag_coin ?a) k coinmaker_new = (if k = share_key s then m' else entry_or (ag_coin a) k coinmaker_new)"
    by (simp add: entry_or_def)
  from Cons.IH [of ?a] add app coin_for_key [of E pk "ag_committee a" s ?m m'] show ?case
    unfolding entry by (cases r) (auto split: prod.splits option.splits)
qed

lemma coins_of_key:
  assumes "wf_committee c" and "coin \<in> set (snd (feed (add_smvba_random E pk) shares (aggregator_new c)))"
  shows "made_of c {s \<in> set shares. share_key s = coin_key coin} coin"
proof -
  have "coin \<in> set (filter (\<lambda>x. coin_key x = coin_key coin) (snd (feed (add_smvba_random E pk) shares (aggregator_new c))))"
    using assms(2) by simp
  then have "coin \<in> set (snd (feed (coinmaker_append E pk c) (filter (\<lambda>s. share_key s = coin_key coin) shares) coinmaker_new))"
    unfolding feed_add_smvba_random by (simp add: aggregator_new_def)
  from feed_coins [OF assms(1) _ _ this] show ?thesis by simp
qed

lemma one_coin_per_key:
  assumes "wf_committee c" and "unit_stakes c" and "distinct_ids c" and "combine_ok E pk (unat (random_coin_threshold c))"
    and "\<forall>s \<in> set shares. rs_author s \<in> set (committee_names c)"
  shows "length (filter (\<lambda>coin. coin_key coin = k) (snd (feed (add_smvba_random E pk) shares (aggregator_new c)))) =
    (if unat (random_coin_threshold c) \<le> card (rs_author ` {s \<in> set shares. share_key s = k}) then 1 else 0)"
proof -
  have "0 < unat (random_coin_threshold c)" by (simp add: unat_random_coin_threshold [OF assms(1)])
  then show ?thesis
    unfolding feed_add_smvba_random
    using feed_coin_count [OF assms(1-4) coin_counted_new, of "set shares" "filter (\<lambda>s. share_key s = k) shares"] assms(5)
    by (auto simp: aggregator_new_def coinmaker_new_def fcard.rep_eq)
qed

end
