(* ===== verification/Node_Spec.thy ===== *)
theory Node_Spec
  imports Run_Props
begin

text \<open>
  What a node promises to the others, as a machine of its own: the state has only what can be observed of the node's part in
  the agreement, an action is allowed under the guard that makes it safe, and everything else the node does is invisible. The
  refinement shows that every run of the node, whatever it is sent, is a run of this machine; the promises are then
  read off the machine.
\<close>

section \<open>The machine\<close>

record Promise =
  pr_name :: PublicKey
  pr_epoch :: SeqNumber
  pr_height :: SeqNumber
  pr_voted :: SeqNumber
  pr_committed :: SeqNumber
  pr_high_qc :: QC
  pr_coins :: "SeqNumber \<times> SeqNumber \<rightharpoonup> RandomCoin"
  pr_parked :: "(SeqNumber \<times> ConsensusMessage) list"
  pr_votes :: "HVote list"
  pr_commits :: "Block list"

text \<open>
  \<open>Abstain\<close> gives up the votes up to a height without signing one; \<open>EndEpoch n\<close> starts the next epoch, in which
  the first \<open>n\<close> parked messages are not parked any more.
\<close>

datatype action =
    Vote HVote
  | Abstain SeqNumber
  | Commit Block
  | Advance SeqNumber
  | RaiseQC QC
  | Toss RandomCoin
  | Park SeqNumber ConsensusMessage
  | EndEpoch nat

fun allowed :: "action \<Rightarrow> Promise \<Rightarrow> bool" where
  "allowed (Vote v) p \<longleftrightarrow> pr_voted p < hv_height v \<and> hv_height v = pr_height p \<and> hv_author v = pr_name p \<and> hv_tag v = OPT"
| "allowed (Abstain h) p \<longleftrightarrow> pr_voted p < h"
| "allowed (Commit b) p \<longleftrightarrow> pr_committed p < b_height b"
| "allowed (Advance h) p \<longleftrightarrow> pr_height p \<le> h"
| "allowed (RaiseQC qc) p \<longleftrightarrow> qc_height (pr_high_qc p) < qc_height qc"
| "allowed (Toss coin) p \<longleftrightarrow> pr_coins p (rc_height coin, rc_round coin) = None"
| "allowed (Park e msg) p \<longleftrightarrow> pr_epoch p < e \<and> parkable e msg"
| "allowed (EndEpoch n) p \<longleftrightarrow> True"

fun effect :: "action \<Rightarrow> Promise \<Rightarrow> Promise" where
  "effect (Vote v) p = p\<lparr>pr_voted := hv_height v, pr_votes := pr_votes p @ [v]\<rparr>"
| "effect (Abstain h) p = p\<lparr>pr_voted := h\<rparr>"
| "effect (Commit b) p = p\<lparr>pr_committed := b_height b, pr_commits := pr_commits p @ [b]\<rparr>"
| "effect (Advance h) p = p\<lparr>pr_height := h + 1\<rparr>"
| "effect (RaiseQC qc) p = p\<lparr>pr_high_qc := qc\<rparr>"
| "effect (Toss coin) p = p\<lparr>pr_coins := (pr_coins p)((rc_height coin, rc_round coin) \<mapsto> coin)\<rparr>"
| "effect (Park e msg) p = p\<lparr>pr_parked := pr_parked p @ [(e, msg)]\<rparr>"
| "effect (EndEpoch n) p = p\<lparr>pr_epoch := pr_epoch p + 1, pr_height := 1, pr_voted := 0, pr_committed := 0,
     pr_high_qc := qc_genesis, pr_coins := Map.empty, pr_parked := drop n (pr_parked p)\<rparr>"

fun perform :: "action list \<Rightarrow> Promise \<Rightarrow> Promise option" where
  "perform [] p = Some p"
| "perform (a # as) p = (if allowed a p then perform as (effect a p) else None)"

section \<open>What it promises\<close>

fun cast :: "action list \<Rightarrow> HVote list" where
  "cast [] = []"
| "cast (Vote v # as) = v # cast as"
| "cast (_ # as) = cast as"

fun announced :: "action list \<Rightarrow> Block list" where
  "announced [] = []"
| "announced (Commit b # as) = b # announced as"
| "announced (_ # as) = announced as"

text \<open>The actions of each epoch.\<close>

fun epochs :: "action list \<Rightarrow> action list list" where
  "epochs [] = [[]]"
| "epochs (EndEpoch n # as) = [] # epochs as"
| "epochs (a # as) = (a # hd (epochs as)) # tl (epochs as)"

definition increasing :: "action list \<Rightarrow> bool" where
  "increasing as \<longleftrightarrow> sorted_wrt (<) (map hv_height (cast as)) \<and> sorted_wrt (<) (map b_height (announced as))"

lemma increasing_simps [simp]:
  "increasing []" "increasing (Abstain h # as) \<longleftrightarrow> increasing as" "increasing (Advance h # as) \<longleftrightarrow> increasing as"
  "increasing (Vote v # as) \<longleftrightarrow> (\<forall>w \<in> set (cast as). hv_height v < hv_height w) \<and> increasing as"
  "increasing (Commit b # as) \<longleftrightarrow> (\<forall>c \<in> set (announced as). b_height b < b_height c) \<and> increasing as"
  "increasing (RaiseQC qc # as) \<longleftrightarrow> increasing as" "increasing (Toss coin # as) \<longleftrightarrow> increasing as"
  "increasing (Park e msg # as) \<longleftrightarrow> increasing as"
  by (auto simp: increasing_def)

lemma perform_account:
  "perform as p = Some q \<Longrightarrow> pr_votes q = pr_votes p @ cast as \<and> pr_commits q = pr_commits p @ announced as"
proof (induction as arbitrary: p)
  case (Cons a as)
  then show ?case by (cases a) (auto split: if_splits)
qed simp

lemma epochs_Cons: "epochs as = hd (epochs as) # tl (epochs as)"
  by (cases as rule: epochs.cases) simp_all

text \<open>Within an epoch no height is voted for or committed twice, and every vote and commit goes beyond what was there before.\<close>

lemma perform_increasing:
  "perform as p = Some q \<Longrightarrow> list_all increasing (epochs as) \<and>
     (\<forall>v \<in> set (cast (hd (epochs as))). pr_voted p < hv_height v) \<and>
     (\<forall>b \<in> set (announced (hd (epochs as))). pr_committed p < b_height b)"
proof (induction as arbitrary: p)
  case Nil
  then show ?case by simp
next
  case (Cons a as)
  then have guard: "allowed a p" and IH: "list_all increasing (epochs as) \<and>
      (\<forall>v \<in> set (cast (hd (epochs as))). pr_voted (effect a p) < hv_height v) \<and>
      (\<forall>b \<in> set (announced (hd (epochs as))). pr_committed (effect a p) < b_height b)"
    by (auto split: if_splits)
  moreover from IH have "increasing (hd (epochs as))" "list_all increasing (tl (epochs as))"
    by (metis epochs_Cons list.pred_inject(2))+
  ultimately show ?case by (cases a) (auto intro: less_trans)
qed

section \<open>The abstraction\<close>

definition promise_of :: "Core \<Rightarrow> Promise" where
  "promise_of s = \<lparr>pr_name = k_name s, pr_epoch = k_epoch s, pr_height = k_height s, pr_voted = k_last_voted_height s,
     pr_committed = k_last_committed_height s, pr_high_qc = k_high_qc s, pr_coins = le_random_coins (k_leader_elector s),
     pr_parked = k_unhandle_message s, pr_votes = k_signed_votes s, pr_commits = k_commit_channel s\<rparr>"

lemma perform_append: "perform (as @ bs) p = Option.bind (perform as p) (perform bs)"
  by (induction as arbitrary: p) simp_all

fun in_epoch :: "action \<Rightarrow> bool" where
  "in_epoch (EndEpoch n) \<longleftrightarrow> False"
| "in_epoch _ \<longleftrightarrow> True"

definition refines :: "Core \<Rightarrow> Core \<Rightarrow> bool" where
  "refines s t \<longleftrightarrow> (\<exists>as. list_all in_epoch as \<and> perform as (promise_of s) = Some (promise_of t))"

lemma refines_same: "promise_of t = promise_of s \<Longrightarrow> refines s t"
  unfolding refines_def by (intro exI [of _ "[]"]) simp

lemma refines_action: "in_epoch a \<Longrightarrow> allowed a (promise_of s) \<Longrightarrow> effect a (promise_of s) = promise_of t \<Longrightarrow> refines s t"
  unfolding refines_def by (intro exI [of _ "[a]"]) simp

lemma refines_trans: "refines s t \<Longrightarrow> refines t u \<Longrightarrow> refines s u"
  unfolding refines_def by (metis (no_types, lifting) Option.bind_lunit list_all_append perform_append)

interpretation promises: core_order refines E for E
proof unfold_locales
  fix s :: Core and v :: HVote
  assume "k_last_voted_height s < hv_height v" and "opt_vote_for s v"
  then show "refines s (s\<lparr>k_last_voted_height := hv_height v, k_signed_votes := k_signed_votes s @ [v]\<rparr>)"
    by (intro refines_action [of "Vote v"]) (simp_all add: promise_of_def opt_vote_for_def)
next
  fix s :: Core and h
  assume "k_last_voted_height s < h"
  then show "refines s (s\<lparr>k_last_voted_height := h\<rparr>)"
    by (intro refines_action [of "Abstain h"]) (simp_all add: promise_of_def)
next
  fix s :: Core and b :: Block
  assume "k_last_committed_height s < b_height b"
  then show "refines s (s\<lparr>k_last_committed_height := b_height b, k_commit_channel := k_commit_channel s @ [b]\<rparr>)"
    by (intro refines_action [of "Commit b"]) (simp_all add: promise_of_def)
next
  fix s :: Core and h
  assume "k_height s \<le> h"
  then show "refines s (s\<lparr>k_height := h + 1\<rparr>)"
    by (intro refines_action [of "Advance h"]) (simp_all add: promise_of_def)
next
  fix s :: Core and qc :: QC
  assume "qc_height (k_high_qc s) < qc_height qc"
  then show "refines s (s\<lparr>k_high_qc := qc\<rparr>)"
    by (intro refines_action [of "RaiseQC qc"]) (simp_all add: promise_of_def)
next
  fix s :: Core and e msg
  assume "k_epoch s < e" and "parkable e msg"
  then show "refines s (s\<lparr>k_unhandle_message := k_unhandle_message s @ [(e, msg)]\<rparr>)"
    by (intro refines_action [of "Park e msg"]) (simp_all add: promise_of_def)
next
  fix s :: Core and coin :: RandomCoin
  assume "le_random_coins (k_leader_elector s) (rc_height coin, rc_round coin) = None"
  then show "refines s (s\<lparr>k_leader_elector := add_random_coin coin (k_leader_elector s)\<rparr>)"
    by (intro refines_action [of "Toss coin"]) (simp_all add: promise_of_def add_random_coin_def)
qed (auto intro: refines_same refines_trans simp: obs_def promise_of_def)

section \<open>Whole lives\<close>

lemma replay_drops: "\<exists>n. k_unhandle_message (replay ps s) = drop n ps"
proof (induction ps s rule: replay.induct)
  case (1 s)
  then show ?case by simp
next
  case (2 e msg rest s)
  have suc: "\<exists>n. k_unhandle_message (replay rest u) = drop n ((e, msg) # rest)"
    if "\<exists>n. k_unhandle_message (replay rest u) = drop n rest" for u
    using that by (metis drop_Suc_Cons)
  show ?case
  proof (cases "e = k_epoch s")
    case True
    have "\<exists>n. rest = drop n ((e, msg) # rest)" by (rule exI [of _ 1]) simp
    with True 2 suc show ?thesis by (auto split: ConsensusMessage.splits)
  next
    case False
    with 2 suc show ?thesis by simp
  qed
qed

lemma replay_frame_more:
  "k_epoch (replay ps s) = k_epoch s \<and> k_height (replay ps s) = k_height s \<and> k_last_voted_height (replay ps s) = k_last_voted_height s \<and>
   k_last_committed_height (replay ps s) = k_last_committed_height s \<and> k_high_qc (replay ps s) = k_high_qc s \<and>
   k_leader_elector (replay ps s) = k_leader_elector s"
  by (induction ps s rule: replay.induct) (auto split: ConsensusMessage.splits)

lemma next_epoch_promise:
  "\<exists>n. promise_of (next_epoch (k_epoch t + 1) t) = effect (EndEpoch n) (promise_of t)"
proof -
  let ?s = "epoch_init (k_epoch t + 1) t"
  obtain n where n: "k_unhandle_message (replay (k_unhandle_message ?s) ?s) = drop n (k_unhandle_message ?s)"
    using replay_drops by blast
  show ?thesis
    by (rule exI [of _ n]) (simp add: promise_of_def next_epoch_def Let_def n replay_frame replay_frame_more,
      simp add: epoch_init_def update_prepare_state_def update_smvba_state_def leader_elector_new_def Let_def)
qed

lemma node_step_refines:
  assumes "node_step E s t"
  shows "\<exists>as. perform as (promise_of s) = Some (promise_of t)"
  using assms
proof (induction rule: node_step.induct)
  case (inside s t)
  then show ?case using promises.epoch_step_keeps [OF inside.hyps] by (auto simp: refines_def)
next
  case (epoch_over n ev s t)
  have step: "epoch_step E s t" using epoch_step.event [of E s n ev] core_turn_event [OF epoch_over.hyps] by simp
  then obtain as where "perform as (promise_of s) = Some (promise_of t)" using promises.epoch_step_keeps [OF step] by (auto simp: refines_def)
  moreover obtain k where "promise_of (next_epoch (k_epoch t + 1) t) = effect (EndEpoch k) (promise_of t)"
    using next_epoch_promise by blast
  moreover have "k_epoch t = k_epoch s" using fixed.epoch_step_keeps [OF step] by (simp add: same_setup_def)
  ultimately have "perform (as @ [EndEpoch k]) (promise_of s) = Some (promise_of (next_epoch (k_epoch s + 1) t))"
    by (simp add: perform_append)
  then show ?case by blast
qed

lemma node_run_refines: "(node_step E)\<^sup>*\<^sup>* s t \<Longrightarrow> \<exists>as. perform as (promise_of s) = Some (promise_of t)"
proof (induction rule: rtranclp_induct)
  case base
  then show ?case by (intro exI [of _ "[]"]) simp
next
  case (step t u)
  then obtain as bs where "perform as (promise_of s) = Some (promise_of t)" "perform bs (promise_of t) = Some (promise_of u)"
    using node_step_refines by blast
  then have "perform (as @ bs) (promise_of s) = Some (promise_of u)" by (simp add: perform_append)
  then show ?case by blast
qed

end
