(* ===== verification/Safety.thy ===== *)
theory Safety
  imports Core_Behaviour
begin

text \<open>
  From one node to all of them. The runs of the correct members are given by a function from their keys; what the
  other members do is not restricted. A certificate is \<open>backed\<close> when every correct member whose signature it
  carries has signed an optimistic vote for it in the epoch. That is derived here for the certificates of the optimistic path, from
  signatures that cannot be forged and digests that do not collide: tag and epoch are part of what a vote signs. A certificate of
  the fallback chain is not backed in this sense, although \<open>QC::verify\<close> accepts it as well.
\<close>

definition votes_since :: "Core \<Rightarrow> Core \<Rightarrow> HVote list" where
  "votes_since s t = drop (length (k_signed_votes s)) (k_signed_votes t)"

definition epoch_runs :: "'z node_ext_scheme \<Rightarrow> PublicKey set \<Rightarrow> (PublicKey \<Rightarrow> Core) \<Rightarrow> (PublicKey \<Rightarrow> Core) \<Rightarrow> bool" where
  "epoch_runs E correct start now \<longleftrightarrow> (\<forall>k \<in> correct. (epoch_step E)\<^sup>*\<^sup>* (start k) (now k))"

definition backed :: "PublicKey set \<Rightarrow> (PublicKey \<Rightarrow> HVote list) \<Rightarrow> QC \<Rightarrow> bool" where
  "backed correct votes qc \<longleftrightarrow> (\<forall>k \<in> voters qc \<inter> correct.
     \<exists>v \<in> set (votes k). hv_height v = qc_height qc \<and> hv_hash v = qc_hash qc)"

definition few_faults :: "Committee \<Rightarrow> PublicKey set \<Rightarrow> bool" where
  "few_faults c correct \<longleftrightarrow> (\<Sum>k \<in> set (committee_names c) - correct. unat (stake c k)) \<le> max_faults c"

lemma votes_since_sorted:
  assumes "(epoch_step E)\<^sup>*\<^sup>* s t"
  shows "sorted_wrt (\<lambda>v w. hv_height v < hv_height w) (votes_since s t)"
proof -
  from assms have "votes_grow s t" by (rule votes.epoch_run_keeps)
  then show ?thesis by (auto simp: votes_grow_def votes_since_def)
qed

lemma sorted_wrt_unique:
  assumes "sorted_wrt (\<lambda>v w. hv_height v < hv_height w) vs" and "v \<in> set vs" and "w \<in> set vs" and "hv_height v = hv_height w"
  shows "v = w"
proof -
  obtain i j where i: "i < length vs" "vs ! i = v" and j: "j < length vs" "vs ! j = w"
    using assms(2,3) by (auto simp: in_set_conv_nth)
  have "\<not> i < j" using sorted_wrt_nth_less [OF assms(1) _ j(1), of i] i(2) j(2) assms(4) by auto
  moreover have "\<not> j < i" using sorted_wrt_nth_less [OF assms(1) _ i(1), of j] i(2) j(2) assms(4) by auto
  ultimately show ?thesis using i(2) j(2) by (metis linorder_neqE_nat)
qed

lemma backed_certificates_agree:
  assumes "bft_committee c" and "few_faults c correct" and "epoch_runs E correct start now"
    and "has_quorum c (voters qc)" and "has_quorum c (voters qc')"
    and "backed correct (\<lambda>k. votes_since (start k) (now k)) qc" and "backed correct (\<lambda>k. votes_since (start k) (now k)) qc'"
    and "qc_height qc = qc_height qc'"
  shows "qc_hash qc = qc_hash qc'"
proof -
  have "(\<Sum>k \<in> (- correct) \<inter> set (committee_names c). unat (stake c k)) \<le> max_faults c"
    using assms(2) by (simp add: few_faults_def Diff_eq Int_commute)
  from quorums_share_correct [OF assms(1) finite_voters finite_voters assms(4,5) this]
  obtain k where k: "k \<in> voters qc" "k \<in> voters qc'" "k \<in> correct" by auto
  obtain v w where v: "v \<in> set (votes_since (start k) (now k))" "hv_height v = qc_height qc" "hv_hash v = qc_hash qc"
    and w: "w \<in> set (votes_since (start k) (now k))" "hv_height w = qc_height qc'" "hv_hash w = qc_hash qc'"
    using assms(6,7) k unfolding backed_def by blast
  have "(epoch_step E)\<^sup>*\<^sup>* (start k) (now k)" using assms(3) k(3) by (simp add: epoch_runs_def)
  from sorted_wrt_unique [OF votes_since_sorted [OF this] v(1) w(1)] v w assms(8) show ?thesis by simp
qed

section \<open>What a signature says\<close>

text \<open>
  What is asked of Ed25519 and SHA-512 for a certificate of the optimistic path: a correct member's signature in it that verifies was
  made by that member, which signs content of this kind only as an optimistic vote; and no vote that it
  has signed has the digest of the certificate by accident.
\<close>

definition unforgeable :: "'z crypto_ext_scheme \<Rightarrow> PublicKey set \<Rightarrow> (PublicKey \<Rightarrow> Core) \<Rightarrow> QC \<Rightarrow> bool" where
  "unforgeable E correct now qc \<longleftrightarrow> (qc_tag qc = OPT \<and> verify_sigs E (qc_digest E qc) (qc_votes qc) = Ok () \<longrightarrow>
     (\<forall>k \<in> voters qc \<inter> correct. \<exists>v \<in> set (k_signed_votes (now k)). hvote_digest E v = qc_digest E qc))"

definition no_collision :: "'z crypto_ext_scheme \<Rightarrow> PublicKey set \<Rightarrow> (PublicKey \<Rightarrow> Core) \<Rightarrow> QC \<Rightarrow> bool" where
  "no_collision E correct now qc \<longleftrightarrow> (\<forall>k \<in> correct. \<forall>v \<in> set (k_signed_votes (now k)). hvote_digest E v = qc_digest E qc \<longrightarrow>
     hv_hash v = qc_hash qc \<and> hv_height v = qc_height qc \<and> hv_epoch v = qc_epoch qc)"

definition epoch_unvoted :: "PublicKey set \<Rightarrow> SeqNumber \<Rightarrow> (PublicKey \<Rightarrow> Core) \<Rightarrow> bool" where
  "epoch_unvoted correct e start \<longleftrightarrow> (\<forall>k \<in> correct. \<forall>v \<in> set (k_signed_votes (start k)). hv_epoch v \<noteq> e)"

lemma signed_since:
  assumes "(epoch_step E)\<^sup>*\<^sup>* s t" and "v \<in> set (k_signed_votes t)" and "v \<notin> set (k_signed_votes s)"
  shows "v \<in> set (votes_since s t)"
proof -
  from assms(1) have "votes_grow s t" by (rule votes.epoch_run_keeps)
  with assms(2,3) show ?thesis by (auto simp: votes_grow_def votes_since_def)
qed

lemma opt_certificate_backed:
  assumes "epoch_runs E correct start now" and "epoch_unvoted correct (qc_epoch qc) start"
    and "unforgeable F correct now qc" and "no_collision F correct now qc"
    and "qc_tag qc = OPT" and "verify_sigs F (qc_digest F qc) (qc_votes qc) = Ok ()"
  shows "backed correct (\<lambda>k. votes_since (start k) (now k)) qc"
  unfolding backed_def
proof
  fix k assume k: "k \<in> voters qc \<inter> correct"
  with assms(3,5,6) obtain v where v: "v \<in> set (k_signed_votes (now k))" "hvote_digest F v = qc_digest F qc"
    unfolding unforgeable_def by blast
  with assms(4) k have c: "hv_hash v = qc_hash qc" "hv_height v = qc_height qc" "hv_epoch v = qc_epoch qc"
    unfolding no_collision_def by blast+
  have "v \<notin> set (k_signed_votes (start k))" using assms(2) c(3) k by (auto simp: epoch_unvoted_def)
  with assms(1) k v(1) have "v \<in> set (votes_since (start k) (now k))" by (auto simp: epoch_runs_def intro: signed_since)
  with c show "\<exists>v \<in> set (votes_since (start k) (now k)). hv_height v = qc_height qc \<and> hv_hash v = qc_hash qc" by blast
qed

lemma verified_qc_sigs: "qc_verify E c qc = Ok () \<Longrightarrow> verify_sigs E (qc_digest E qc) (qc_votes qc) = Ok ()"
  by (auto simp: qc_verify_def rbind_Ok split: result.splits if_splits)

end
