(* ===== verification/Chain.thy ===== *)
theory Chain
  imports Run_Props Safety
begin

text \<open>
  The certified blocks of an epoch form one chain. A correct node votes only for a block that extends a certificate of the height
  below, and it takes a certificate for good only after verifying it or assembling it from votes it has verified; both
  are invariants of its run, kept by every handler (an interpretation of \<open>core_frame\<close>, with the optimistic path treated here). With one
  vote per height and quorums that intersect, certificates of all heights line up.
\<close>

section \<open>An epoch seen from outside\<close>

text \<open>The committee, its correct members and the optimistic votes each of them has signed in the epoch.\<close>

record Epoch =
  ep_committee :: Committee
  ep_correct :: "PublicKey set"
  ep_votes :: "PublicKey \<Rightarrow> HVote list"

definition certified :: "Epoch \<Rightarrow> QC \<Rightarrow> bool" where
  "certified w qc \<longleftrightarrow> has_quorum (ep_committee w) (voters qc) \<and> backed (ep_correct w) (ep_votes w) qc"

definition good :: "Epoch \<Rightarrow> QC \<Rightarrow> bool" where
  "good w qc \<longleftrightarrow> qc_eq qc qc_genesis \<or> certified w qc"

definition voted :: "Epoch \<Rightarrow> PublicKey \<Rightarrow> SeqNumber \<Rightarrow> Digest \<Rightarrow> bool" where
  "voted w k h d \<longleftrightarrow> (\<exists>v \<in> set (ep_votes w k). hv_height v = h \<and> hv_hash v = d)"

definition vouched :: "Epoch \<Rightarrow> HVote \<Rightarrow> bool" where
  "vouched w v \<longleftrightarrow> (hv_author v \<in> ep_correct w \<longrightarrow> voted w (hv_author v) (hv_height v) (hv_hash v))"

text \<open>A vote for a block that extends a good certificate of the height below.\<close>

definition sound_vote :: "'z node_ext_scheme \<Rightarrow> Epoch \<Rightarrow> HVote \<Rightarrow> bool" where
  "sound_vote E w v \<longleftrightarrow> (\<exists>b. hv_hash v = block_digest E b \<and> hv_height v = b_height b \<and>
     qc_height (b_qc b) + 1 = b_height b \<and> good w (b_qc b))"

text \<open>
  What a node is sent. Signatures of correct members are not forged: a certificate that verifies or a vote that
  verifies carries one only where its owner has signed an optimistic vote of the epoch for that block. Loopbacks, which
  the node does not check, are of blocks with a good certificate.
\<close>

fun sound_event :: "'z node_ext_scheme \<Rightarrow> Epoch \<Rightarrow> event \<Rightarrow> bool" where
  "sound_event E w (CoreMessage (HsPropose b)) \<longleftrightarrow>
     (qc_verify E (ep_committee w) (b_qc b) = Ok () \<longrightarrow> backed (ep_correct w) (ep_votes w) (b_qc b))"
| "sound_event E w (CoreMessage (SyncReply b)) \<longleftrightarrow>
     (qc_verify E (ep_committee w) (b_qc b) = Ok () \<longrightarrow> backed (ep_correct w) (ep_votes w) (b_qc b))"
| "sound_event E w (CoreMessage (HSVote v)) \<longleftrightarrow> (hvote_verify E (ep_committee w) v = Ok () \<longrightarrow> vouched w v)"
| "sound_event E w (CoreMessage (HsLoopBack b)) \<longleftrightarrow> good w (b_qc b)"
| "sound_event E w _ \<longleftrightarrow> True"

inductive sound_step :: "'z node_ext_scheme \<Rightarrow> Epoch \<Rightarrow> Core \<Rightarrow> Core \<Rightarrow> bool" for E w where
  event: "sound_event E w ev \<Longrightarrow> sound_step E w s (fst (handle_event E n ev s))"
| actor: "actor_step E s t \<Longrightarrow> sound_step E w s t"

lemma sound_step_epoch: "sound_step E w s t \<Longrightarrow> epoch_step E s t"
  by (auto elim!: sound_step.cases intro: epoch_step.intros)

lemma sound_run_epoch: "(sound_step E w)\<^sup>*\<^sup>* s t \<Longrightarrow> (epoch_step E)\<^sup>*\<^sup>* s t"
  by (induction rule: rtranclp_induct) (auto intro: rtranclp.rtrancl_into_rtrancl sound_step_epoch)

section \<open>The invariant of a node\<close>

definition counted_votes :: "Epoch \<Rightarrow> Aggregator \<Rightarrow> bool" where
  "counted_votes w a \<longleftrightarrow> (\<forall>h d k. k \<in> fst ` set (qm_votes (entry_or (ag_hs a) (h, d) qcmaker_new)) \<inter> ep_correct w \<longrightarrow> voted w k h d)"

lemma counted_votesD:
  "counted_votes w a \<Longrightarrow> k \<in> fst ` set (qm_votes (entry_or (ag_hs a) (h, d) qcmaker_new)) \<Longrightarrow> k \<in> ep_correct w \<Longrightarrow> voted w k h d"
  unfolding counted_votes_def by (metis IntI)

text \<open>The votes signed since there were \<open>n\<close> of them are those of the epoch.\<close>

definition chain_inv :: "'z node_ext_scheme \<Rightarrow> Epoch \<Rightarrow> nat \<Rightarrow> Core \<Rightarrow> bool" where
  "chain_inv E w n s \<longleftrightarrow> bft_committee (ep_committee w) \<and> aggregator_ok (ep_committee w) s \<and> counted_votes w (k_aggregator s) \<and>
     good w (k_high_qc s) \<and> n \<le> length (k_signed_votes s) \<and> (\<forall>v \<in> set (drop n (k_signed_votes s)). sound_vote E w v)"

definition in_epoch_votes :: "Epoch \<Rightarrow> nat \<Rightarrow> Core \<Rightarrow> bool" where
  "in_epoch_votes w n s \<longleftrightarrow> set (drop n (k_signed_votes s)) \<subseteq> set (ep_votes w (k_name s))"

definition chain_kept :: "'z node_ext_scheme \<Rightarrow> Epoch \<Rightarrow> nat \<Rightarrow> Core \<Rightarrow> Core \<Rightarrow> bool" where
  "chain_kept E w n s t \<longleftrightarrow> votes_grow s t \<and> (in_epoch_votes w n t \<and> chain_inv E w n s \<longrightarrow> chain_inv E w n t)"

lemma votes_grow_in_epoch: "votes_grow s t \<Longrightarrow> in_epoch_votes w n t \<Longrightarrow> in_epoch_votes w n s"
  by (auto simp: votes_grow_def in_epoch_votes_def)

lemma chain_kept_trans: "chain_kept E w n s t \<Longrightarrow> chain_kept E w n t u \<Longrightarrow> chain_kept E w n s u"
  unfolding chain_kept_def by (metis votes_grow_in_epoch votes_grow_trans)

lemma chain_kept_same:
  assumes "k_committee t = k_committee s" and "k_aggregator t = k_aggregator s" and "k_high_qc t = k_high_qc s"
    and "k_signed_votes t = k_signed_votes s" and "k_name t = k_name s" and "k_last_voted_height t = k_last_voted_height s"
  shows "chain_kept E w n s t"
  using assms by (simp add: chain_kept_def votes_grow_same chain_inv_def aggregator_ok_def)

lemma counted_votes_agg_step: "agg_step F a a' \<Longrightarrow> counted_votes w a \<Longrightarrow> counted_votes w a'"
  by (induction rule: agg_step.induct)
    (auto simp: counted_votes_def add_fallback_vote_def add_spb_vote_def add_pre_vote_def add_smvba_random_def cleanup_hs_vote_def
      cleanup_spb_vote_def cleanup_mvba_random_def entry_or_retain qcmaker_new_def Let_def split: prod.splits if_splits)

interpretation chain: core_frame "chain_kept E w n" E for E w n
proof unfold_locales
  fix s :: Core and a
  assume step: "agg_step E (k_aggregator s) a"
  from agg_step_committee [OF step] agg_step_makers [OF step] counted_votes_agg_step [OF step]
  show "chain_kept E w n s (s\<lparr>k_aggregator := a\<rparr>)"
    by (simp add: chain_kept_def votes_grow_same chain_inv_def aggregator_ok_def)
qed (auto simp: obs_def intro: chain_kept_same elim: chain_kept_trans)

section \<open>The optimistic path\<close>

text \<open>Where the invariant matters for what follows a statement, or for the state that is read.\<close>

lemma chain_kept_without_inv: "votes_grow s t \<Longrightarrow> (chain_inv E w n s \<Longrightarrow> chain_kept E w n s t) \<Longrightarrow> chain_kept E w n s t"
  by (auto simp: chain_kept_def)

lemma keeps_votes: "keeps (chain_kept E w n) m \<Longrightarrow> keeps votes_grow m"
  by (simp add: keeps_def chain_kept_def)

lemma chain_bind:
  assumes "keeps (chain_kept E w n) m" and "keeps votes_grow (bindM m f)"
    and "\<And>s t x. chain_inv E w n s \<Longrightarrow> m s = (t, Ok x) \<Longrightarrow> keeps (chain_kept E w n) (f x)"
  shows "keeps (chain_kept E w n) (bindM m f)"
  unfolding keeps_def
proof (rule allI, rule chain_kept_without_inv)
  fix s
  show "votes_grow s (fst (bindM m f s))" using assms(2) by (simp add: keeps_def)
  assume inv: "chain_inv E w n s"
  obtain t r where m: "m s = (t, r)" by force
  then have st: "chain_kept E w n s t" using assms(1) by (rule keepsD [rotated])
  have "chain_kept E w n t (fst (f x t))" if "r = Ok x" for x
    using assms(3) [OF inv] m that by (simp add: keeps_def)
  with st m show "chain_kept E w n s (fst (bindM m f s))"
    by (cases r) (auto simp: bindM_def intro: chain_kept_trans)
qed

lemma chain_keepsI:
  "keeps votes_grow m \<Longrightarrow> (\<And>s. chain_inv E w n s \<Longrightarrow> chain_kept E w n s (fst (m s))) \<Longrightarrow> keeps (chain_kept E w n) m"
  by (auto simp: keeps_def chain_kept_def)

subsection \<open>Certificates\<close>

lemma verified_good:
  "wf_committee (ep_committee w) \<Longrightarrow> qc_verify E (ep_committee w) qc = Ok () \<Longrightarrow> backed (ep_correct w) (ep_votes w) qc \<Longrightarrow> good w qc"
  by (simp add: good_def certified_def verified_qc_quorum)

lemma chain_process_qc:
  assumes "good w qc"
  shows "keeps (chain_kept E w n) (process_qc qc)"
proof -
  have "chain_kept E w n s (update_high_qc qc s)" for s
    using assms by (auto simp: update_high_qc_def chain_kept_def votes_grow_same chain_inv_def aggregator_ok_def)
  then show ?thesis
    unfolding process_qc_def by (intro keep_rules) (auto intro!: chain.keeps_modify chain.advance_height_step)
qed

lemma append_voters:
  "fst ` set (qm_votes (fst (qcmaker_append c v m))) \<subseteq> insert (hv_author v) (fst ` set (qm_votes m))"
  by (auto simp: qcmaker_append_def Let_def)

lemma counted_votes_add:
  assumes "counted_votes w a" and "vouched w v"
  shows "counted_votes w (fst (add_hs_vote v a))"
  unfolding counted_votes_def
proof (intro allI impI)
  fix h d k
  let ?m = "entry_or (ag_hs a) (h, d) qcmaker_new"
  assume k: "k \<in> fst ` set (qm_votes (entry_or (ag_hs (fst (add_hs_vote v a))) (h, d) qcmaker_new)) \<inter> ep_correct w"
  then have "k \<in> fst ` set (qm_votes ?m) \<or> k = hv_author v \<and> (h, d) = (hv_height v, hv_hash v)"
    using append_voters [of "ag_committee a" v ?m] by (auto simp: add_hs_vote_entry split: if_splits)
  then show "voted w k h d"
  proof
    assume "k \<in> fst ` set (qm_votes ?m)"
    with assms(1) show ?thesis using k by (blast intro: counted_votesD)
  next
    assume "k = hv_author v \<and> (h, d) = (hv_height v, hv_hash v)"
    with assms(2) k show ?thesis by (simp add: vouched_def)
  qed
qed

lemma chain_count:
  assumes "vouched w v"
  shows "keeps (chain_kept E w n) (in_aggregator (add_hs_vote v))"
  using assms add_hs_makers counted_votes_add
  by (auto simp: keeps_def in_aggregator_def case_prod_beta chain_kept_def votes_grow_same chain_inv_def aggregator_ok_def)

lemma counted_good:
  assumes "chain_inv E w n s" and "vouched w v" and "in_aggregator (add_hs_vote v) s = (t, Ok (Some qc))"
  shows "good w qc"
proof -
  let ?a = "k_aggregator s"
  let ?m = "entry_or (ag_hs ?a) (hv_height v, hv_hash v) qcmaker_new"
  obtain a' where add: "add_hs_vote v ?a = (a', Ok (Some qc))"
    using assms(3) by (auto simp: in_aggregator_def split: prod.splits)
  have ok: "ag_committee ?a = ep_committee w" "bft_committee (ep_committee w)" "makers_ok ?a" "counted_votes w ?a"
    using assms(1) by (simp_all add: chain_inv_def aggregator_ok_def)
  from emitted_qc [OF _ ok(3) add] ok have qc: "has_quorum (ep_committee w) (voters qc)" "qc_height qc = hv_height v" "qc_hash qc = hv_hash v"
    by simp_all
  have sub: "voters qc \<subseteq> insert (hv_author v) (fst ` set (qm_votes ?m))"
    using arg_cong [OF add, of snd] by (auto simp: add_hs_vote_result qcmaker_append_def Let_def voters_def split: if_splits)
  have known: "voted w k (hv_height v) (hv_hash v)" if "k \<in> insert (hv_author v) (fst ` set (qm_votes ?m))" "k \<in> ep_correct w" for k
    using that(1)
  proof
    assume "k = hv_author v"
    with that(2) assms(2) show ?thesis by (simp add: vouched_def)
  qed (rule counted_votesD [OF ok(4) _ that(2)])
  have "voted w k (hv_height v) (hv_hash v)" if "k \<in> voters qc" "k \<in> ep_correct w" for k
    by (rule known [OF subsetD [OF sub that(1)] that(2)])
  then have "backed (ep_correct w) (ep_votes w) qc" by (simp add: backed_def voted_def qc)
  with qc show ?thesis by (simp add: good_def certified_def)
qed

lemma chain_count_opt_vote:
  assumes call: "\<And>c. keeps (chain_kept E w n) (call c)" and v: "vouched w v"
  shows "keeps (chain_kept E w n) (count_opt_vote call idx v)"
  unfolding count_opt_vote_def
proof (rule chain_bind [OF chain_count [OF v] votes.keeps_count_opt_vote [unfolded count_opt_vote_def]])
  show "keeps votes_grow (call c)" for c by (rule keeps_votes [OF call])
  fix s t r
  assume "chain_inv E w n s" and "in_aggregator (add_hs_vote v) s = (t, Ok r)"
  then have "good w qc" if "r = Some qc" for qc using counted_good [OF _ v] that by blast
  then show "keeps (chain_kept E w n) (case r of None \<Rightarrow> ret () | Some qc \<Rightarrow> stmts
      [process_qc qc,
       bindM (liftR (unwrap idx)) (\<lambda>leader_idx_val.
         if leader_idx_val = 0 then call OptProposeCall
         else modifyM (\<lambda>s. set_timer (Some (word_of_nat leader_idx_val * timeout_delay (k_parameters s))) s))])"
    using call by (cases r) (auto intro!: chain.keeps_prims chain_process_qc)
qed

lemma chain_handle_opt_vote:
  assumes call: "\<And>c. keeps (chain_kept E w n) (call c)" and v: "hvote_verify E (ep_committee w) v = Ok () \<longrightarrow> vouched w v"
  shows "keeps (chain_kept E w n) (handle_opt_vote E call v)"
proof (rule chain_keepsI [OF votes.keeps_handle_opt_vote])
  show "keeps votes_grow (call c)" for c by (rule keeps_votes [OF call])
  fix s
  assume "chain_inv E w n s"
  then have c: "k_committee s = ep_committee w" by (simp add: chain_inv_def aggregator_ok_def)
  let ?e = "WrongVoteRecipient (hvote_digest E v) (hv_author v) (hv_height v)"
  have "keeps (chain_kept E w n) (stmts [liftR (hvote_verify E (ep_committee w) v), count_opt_vote call idx v])" for idx
  proof (unfold stmts.simps, rule chain_bind)
    show "keeps votes_grow (bindM (liftR (hvote_verify E (ep_committee w) v)) (\<lambda>_. bindM (count_opt_vote call idx v) (\<lambda>_. ret ())))"
      by (intro keep_rules votes.keeps_count_opt_vote keeps_votes [OF call])
    fix s t x
    assume "liftR (hvote_verify E (ep_committee w) v) s = (t, Ok x)"
    with v have "vouched w v" by (simp add: liftR_def)
    then show "keeps (chain_kept E w n) (bindM (count_opt_vote call idx v) (\<lambda>_. ret ()))"
      by (intro keep_rules chain_count_opt_vote call)
  qed (rule keep_rules)
  then have "keeps (chain_kept E w n) (bindM (liftR (index_of_leader (k_name s) (hv_height v + 1) s)) (\<lambda>idx.
      stmts [ensureM (\<lambda>_. idx \<noteq> None) ?e, liftR (hvote_verify E (ep_committee w) v), count_opt_vote call idx v]))"
    by (intro chain.keeps_bind chain.keeps_lift) (auto simp del: stmts.simps simp: stmts.simps(2) [of "ensureM _ _"]
        intro!: chain.keeps_bind chain.keeps_ensure)
  then show "chain_kept E w n s (fst (handle_opt_vote E call v s))"
    unfolding handle_opt_vote_def c [symmetric] by (simp add: keeps_def unlessM_def readM_def chain.R_refl)
qed

subsection \<open>Votes\<close>

lemma make_opt_vote_kept:
  assumes "good w (b_qc b)"
  shows "keeps (chain_kept E w n) (make_opt_vote E b)"
proof -
  have "chain_kept E w n s (fst (make_opt_vote E b s))" for s
  proof (cases "k_last_voted_height s < b_height b \<and> qc_height (b_qc b) + 1 = b_height b")
    case True
    have lv: "max (k_last_voted_height s) (b_height b) = b_height b" using True by simp
    let ?t = "s\<lparr>k_last_voted_height := b_height b\<rparr>"
    have skip: "chain_kept E w n s ?t"
      using True by (auto simp: chain_kept_def votes_grow_def chain_inv_def aggregator_ok_def)
    have "chain_kept E w n s (?t\<lparr>k_signed_votes := k_signed_votes s @ [v]\<rparr>)"
      if "hvote_new E (k_signature_service s) b (k_name s) OPT = (Ok v :: HVote ConsensusResult)" for v
    proof -
      have v: "hv_height v = b_height b" "hv_author v = k_name s" "hv_tag v = OPT" "hv_hash v = block_digest E b"
        using that by (auto simp: hvote_new_def Let_def rbind_Ok)
      then have "sound_vote E w v" using True assms by (auto simp: sound_vote_def)
      with True v show ?thesis
        by (auto simp: chain_kept_def votes_grow_def chain_inv_def aggregator_ok_def)
    qed
    with skip True lv show ?thesis
      by (auto simp: make_opt_vote_def comp_defs increase_last_voted_round_def split: result.splits)
  next
    case False
    then have "fst (make_opt_vote E b s) = s" by (auto simp: make_opt_vote_def readM_def ret_def)
    then show ?thesis by (simp add: chain.R_refl)
  qed
  then show ?thesis by (simp add: keeps_def)
qed

lemma make_opt_vote_appends: "make_opt_vote E b s = (t, Ok (Some v)) \<Longrightarrow> k_signed_votes t = k_signed_votes s @ [v] \<and> hv_author v = k_name t"
  by (auto simp: make_opt_vote_def comp_defs increase_last_voted_round_def hvote_new_def Let_def rbind_Ok
      split: if_splits result.splits)

lemma chain_send_opt_vote:
  assumes "\<And>c. keeps (chain_kept E w n) (call c)" and "vouched w v"
  shows "keeps (chain_kept E w n) (send_opt_vote E call v)"
  unfolding send_opt_vote_def using assms
  by (intro keep_rules) (auto intro!: chain.keeps_prims chain_handle_opt_vote)

text \<open>The vote a node has just signed is among those of the epoch, or the state is none of a run that ends with these votes.\<close>

lemma chain_vote_opt_block:
  assumes call: "\<And>c. keeps (chain_kept E w n) (call c)" and good: "good w (b_qc b)"
  shows "keeps (chain_kept E w n) (vote_opt_block E call b)"
proof (rule chain_keepsI [OF votes.keeps_vote_opt_block])
  show votes: "keeps votes_grow (call c)" for c by (rule keeps_votes [OF call])
  fix s
  assume inv: "chain_inv E w n s"
  obtain t r where made: "make_opt_vote E b s = (t, r)" by force
  then have st: "chain_kept E w n s t" by (rule keepsD [OF make_opt_vote_kept [OF good]])
  have "chain_kept E w n s (fst (send_opt_vote E call v t))" if r: "r = Ok (Some v)" for v
  proof (cases "vouched w v")
    case True
    then have "keeps (chain_kept E w n) (send_opt_vote E call v)" by (rule chain_send_opt_vote [OF call])
    then have "chain_kept E w n t (fst (send_opt_vote E call v t))" by (simp add: keeps_def)
    then show ?thesis by (rule chain_kept_trans [OF st])
  next
    case False
    let ?u = "fst (send_opt_vote E call v t)"
    have "keeps votes_grow (send_opt_vote E call v)" by (rule votes.keeps_send_opt_vote) (rule votes)
    then have tu: "votes_grow t ?u" by (simp add: keeps_def)
    have v: "k_signed_votes t = k_signed_votes s @ [v]" "hv_author v = k_name t" using make_opt_vote_appends [OF made [unfolded r]] by auto
    then have "v \<in> set (drop n (k_signed_votes t))" using inv by (simp add: chain_inv_def)
    moreover have "v \<notin> set (ep_votes w (k_name t))" using False v(2) by (auto simp: vouched_def voted_def)
    ultimately have "\<not> in_epoch_votes w n ?u" using votes_grow_in_epoch [OF tu] by (auto simp: in_epoch_votes_def)
    moreover have "votes_grow s ?u" using st tu votes_grow_trans unfolding chain_kept_def by blast
    ultimately show ?thesis by (simp add: chain_kept_def)
  qed
  with st made show "chain_kept E w n s (fst (vote_opt_block E call b s))"
    by (auto simp: vote_opt_block_def unlessM_def bindM_def ret_def chain.R_refl split: result.splits option.splits)
qed

subsection \<open>Blocks\<close>

lemma chain_process_opt_block:
  assumes "\<And>c. keeps (chain_kept E w n) (call c)" and "good w (b_qc b)"
  shows "keeps (chain_kept E w n) (process_opt_block E call b)"
  unfolding process_opt_block_def using assms
  by (intro keep_rules)
    (auto intro!: chain.keeps_prims chain.keeps_active_prepare_phase chain.keeps_invoke_fallback chain_vote_opt_block split: option.splits)

lemma generated_qc: "generate_proposal E h r (Some qc) tag s = (t, Ok b) \<Longrightarrow> b_qc b = qc"
  by (auto simp: generate_proposal_def block_new_def readM_def bindM_Ok liftR_def Let_def rbind_Ok)

lemma chain_opt_propose:
  assumes call: "\<And>c. keeps (chain_kept E w n) (call c)"
  shows "keeps (chain_kept E w n) (opt_propose E call)"
proof (rule chain_keepsI [OF votes.keeps_opt_propose])
  show votes: "keeps votes_grow (call c)" for c by (rule keeps_votes [OF call])
  fix s
  assume "chain_inv E w n s"
  then have good: "good w (k_high_qc s)" by (simp add: chain_inv_def)
  let ?then = "\<lambda>block. stmts [transmit (HsPropose block) None OPT, process_opt_block E call block]"
  have votes_then: "keeps votes_grow (?then block)" for block
    using votes by (intro keep_rules) (auto intro!: votes.keeps_prims votes.keeps_process_opt_block)
  have "keeps (chain_kept E w n) (bindM (generate_proposal E (k_height s) 0 (Some (k_high_qc s)) OPT) ?then)"
  proof (rule chain_bind)
    show "keeps votes_grow (bindM (generate_proposal E (k_height s) 0 (Some (k_high_qc s)) OPT) ?then)"
      by (intro votes.keeps_bind votes.keeps_generate_proposal votes_then)
    fix s' t block
    assume "generate_proposal E (k_height s) 0 (Some (k_high_qc s)) OPT s' = (t, Ok block)"
    with good have "good w (b_qc block)" by (simp add: generated_qc)
    then show "keeps (chain_kept E w n) (?then block)"
      using call by (intro keep_rules) (auto intro!: chain.keeps_prims chain_process_opt_block)
  qed (rule chain.keeps_generate_proposal)
  then have "keeps (chain_kept E w n) (bindM (liftR (rbind (index_of_leader (k_name s) (k_height s) s) unwrap))
      (\<lambda>_. bindM (generate_proposal E (k_height s) 0 (Some (k_high_qc s)) OPT) ?then))"
    by (rule chain.keeps_bind [OF chain.keeps_lift])
  then show "chain_kept E w n s (fst (opt_propose E call s))"
    unfolding opt_propose_def by (simp add: keeps_def readM_def)
qed

lemma verified_block_good:
  assumes "chain_inv E w n s" and "block_verify E (k_committee s) b = Ok ()"
    and "qc_verify E (ep_committee w) (b_qc b) = Ok () \<longrightarrow> backed (ep_correct w) (ep_votes w) (b_qc b)"
  shows "good w (b_qc b)"
proof (cases "qc_eq (b_qc b) qc_genesis")
  case False
  have "k_committee s = ep_committee w" "wf_committee (ep_committee w)"
    using assms(1) by (simp_all add: chain_inv_def aggregator_ok_def bft_committee_def)
  moreover from this assms(2) False have "qc_verify E (ep_committee w) (b_qc b) = Ok ()"
    by (simp add: block_verify_def checks_Ok del: checks.simps)
  ultimately show ?thesis using assms(3) by (blast intro: verified_good)
qed (simp add: good_def)

lemma chain_handle_opt_proposal:
  assumes call: "\<And>c. keeps (chain_kept E w n) (call c)"
    and b: "qc_verify E (ep_committee w) (b_qc b) = Ok () \<longrightarrow> backed (ep_correct w) (ep_votes w) (b_qc b)"
  shows "keeps (chain_kept E w n) (handle_opt_proposal E call b)"
proof -
  note votes = keeps_votes [OF call]
  let ?verify = "readM (\<lambda>s. liftR (block_verify E (k_committee s) b)) :: unit ccomp"
  let ?rest = "stmts
    [whenM (\<lambda>s. k_pes_path s \<and> 2 < b_height b) (terminate_smvba (b_height b - 2)),
     process_qc (b_qc b),
     bindM (in_mempool (driver_verify E b OPT)) (\<lambda>present.
       unlessM (\<lambda>_. \<not> present) (process_opt_block E call b))]"
  have "keeps (chain_kept E w n) (bindM ?verify (\<lambda>_. ?rest))"
  proof (rule chain_bind)
    show "keeps votes_grow (bindM ?verify (\<lambda>_. ?rest))"
      by (intro keep_rules) (auto intro!: votes.keeps_prims votes.keeps_process_qc votes.keeps_process_opt_block votes)
    fix s t x
    assume "chain_inv E w n s" and "?verify s = (t, Ok x)"
    then have "good w (b_qc b)" using verified_block_good [OF _ _ b] by (auto simp: readM_def liftR_def)
    then show "keeps (chain_kept E w n) ?rest"
      by (intro keep_rules) (auto intro!: chain.keeps_prims chain_process_qc chain_process_opt_block call)
  qed (intro keep_rules)
  then have "keeps (chain_kept E w n) (bindM (readM (\<lambda>s. bindM (liftR (index_of_leader (b_author b) (b_height b) s)) (\<lambda>idx.
      ensureM (\<lambda>_. idx \<noteq> None) (WrongBlockSender (block_digest E b) (b_author b) (b_height b))))) (\<lambda>_. bindM ?verify (\<lambda>_. ?rest)))"
    by (rule chain.keeps_bind [rotated]) (intro keep_rules)
  moreover have "keeps (chain_kept E w n) (park_message (b_epoch b) (HsPropose b))" by (rule chain.keeps_park) simp
  ultimately show ?thesis
    unfolding handle_opt_proposal_def stmts.simps(2) [of "park_message _ _"] stmts.simps(2) [of "readM _"]
    by (intro chain.keeps_unless chain.keeps_bind [of E w n "park_message (b_epoch b) (HsPropose b)"])
qed

section \<open>Runs\<close>

lemma chain_exec: "keeps (chain_kept E w n) (exec E m c)"
  by (rule chain.keeps_exec_from) (rule chain_opt_propose)

lemma chain_event:
  assumes "sound_event E w ev"
  shows "keeps (chain_kept E w n) (handle_event E m ev)"
proof (cases ev)
  case (CoreMessage msg)
  with assms show ?thesis
    by (cases msg) (auto intro: chain_handle_opt_proposal chain_handle_opt_vote chain_process_opt_block
        chain.keeps_handle_sync_request chain_exec chain.keeps_ret)
next
  case (SmvbaMessage msg)
  then show ?thesis using chain.keeps_smvba_event [OF chain_exec] by simp
next
  case TimerFired
  then show ?thesis by (simp add: chain_opt_propose chain_exec)
qed

lemma chain_run:
  assumes "(sound_step E w)\<^sup>*\<^sup>* s t"
  shows "chain_kept E w n s t"
  using assms
proof (induction rule: rtranclp_induct)
  case (step t u)
  from step.hyps(2) have "chain_kept E w n t u"
  proof cases
    case (event ev m)
    then show ?thesis using chain_event [of E w ev n m] by (simp add: keeps_def)
  next
    case actor
    then show ?thesis
      by (rule chain.actor_step_keeps) (intro chain.keeps_run_start_from chain_exec chain_opt_propose)
  qed
  with step.IH show ?case by (rule chain_kept_trans)
qed (rule chain.R_refl)

text \<open>The start of an epoch: nothing counted, the genesis certificate.\<close>

lemma chain_inv_start:
  assumes "bft_committee (ep_committee w)" and "k_committee s = ep_committee w" and "k_aggregator s = aggregator_new (ep_committee w)"
    and "k_high_qc s = qc_genesis"
  shows "chain_inv E w (length (k_signed_votes s)) s"
  using assms aggregator_ok_new [OF assms(1,2,3)]
  by (simp add: chain_inv_def counted_votes_def aggregator_new_def entry_or_def qcmaker_new_def good_def qc_eq_def)

definition epoch_of :: "Committee \<Rightarrow> PublicKey set \<Rightarrow> (PublicKey \<Rightarrow> Core) \<Rightarrow> (PublicKey \<Rightarrow> Core) \<Rightarrow> Epoch" where
  "epoch_of c correct start now = \<lparr>ep_committee = c, ep_correct = correct, ep_votes = (\<lambda>k. votes_since (start k) (now k))\<rparr>"

text \<open>Correct members start the epoch with fresh state, each under its own key, and are sent sound events.\<close>

definition sound_runs :: "'z node_ext_scheme \<Rightarrow> Committee \<Rightarrow> PublicKey set \<Rightarrow> (PublicKey \<Rightarrow> Core) \<Rightarrow> (PublicKey \<Rightarrow> Core) \<Rightarrow> bool" where
  "sound_runs E c correct start now \<longleftrightarrow> (\<forall>k \<in> correct. k_name (start k) = k \<and> k_committee (start k) = c \<and>
     k_aggregator (start k) = aggregator_new c \<and> k_high_qc (start k) = qc_genesis \<and>
     (sound_step E (epoch_of c correct start now))\<^sup>*\<^sup>* (start k) (now k))"

lemma votes_sound:
  assumes "bft_committee c" and "sound_runs E c correct start now" and "k \<in> correct" and "v \<in> set (votes_since (start k) (now k))"
  shows "sound_vote E (epoch_of c correct start now) v" and "0 < hv_height v"
proof -
  let ?w = "epoch_of c correct start now" and ?n = "length (k_signed_votes (start k))"
  have k: "k_name (start k) = k" "(sound_step E ?w)\<^sup>*\<^sup>* (start k) (now k)"
    and "k_committee (start k) = c" "k_aggregator (start k) = aggregator_new c" "k_high_qc (start k) = qc_genesis"
    using assms(2,3) unfolding sound_runs_def by blast+
  then have "chain_inv E ?w ?n (start k)" using assms(1) by (intro chain_inv_start) (simp_all add: epoch_of_def)
  moreover from chain_run [OF k(2)] have kept: "chain_kept E ?w ?n (start k) (now k)" .
  moreover from kept k(1) have "k_name (now k) = k" by (simp add: chain_kept_def votes_grow_def)
  then have "in_epoch_votes ?w ?n (now k)" by (simp add: in_epoch_votes_def epoch_of_def votes_since_def)
  ultimately have "chain_inv E ?w ?n (now k)" by (simp add: chain_kept_def)
  with assms(4) show "sound_vote E ?w v" by (simp add: chain_inv_def votes_since_def)
  from kept assms(4) have "k_last_voted_height (start k) < hv_height v"
    by (auto simp: chain_kept_def votes_grow_def votes_since_def)
  then show "0 < hv_height v" by (metis word_gt_0 word_not_simps(1))
qed

section \<open>One chain\<close>

text \<open>A certificate descends from another one through blocks that extend good certificates of the height below.\<close>

inductive descends :: "'z node_ext_scheme \<Rightarrow> Epoch \<Rightarrow> QC \<Rightarrow> QC \<Rightarrow> bool" for E w where
  same: "qc_hash qc' = qc_hash qc \<Longrightarrow> qc_height qc' = qc_height qc \<Longrightarrow> descends E w qc' qc"
| parent: "qc_hash qc' = block_digest E b \<Longrightarrow> qc_height qc' = b_height b \<Longrightarrow> qc_height (b_qc b) + 1 = b_height b \<Longrightarrow>
    certified w (b_qc b) \<Longrightarrow> descends E w (b_qc b) qc \<Longrightarrow> descends E w qc' qc"

lemma certified_voter:
  assumes "bft_committee c" and "few_faults c correct" and "certified (epoch_of c correct start now) qc"
  obtains k v where "k \<in> correct" and "v \<in> set (votes_since (start k) (now k))" and "hv_height v = qc_height qc" and "hv_hash v = qc_hash qc"
proof -
  have "(\<Sum>k \<in> (- correct) \<inter> set (committee_names c). unat (stake c k)) \<le> max_faults c"
    using assms(2) by (simp add: few_faults_def Diff_eq Int_commute)
  with quorums_share_correct [OF assms(1) finite_voters finite_voters, of qc qc "- correct"] assms(3)
  obtain k where k: "k \<in> voters qc" "k \<in> correct" by (auto simp: certified_def epoch_of_def)
  with assms(3) obtain v where "v \<in> set (votes_since (start k) (now k))" "hv_height v = qc_height qc" "hv_hash v = qc_hash qc"
    unfolding certified_def backed_def epoch_of_def by auto
  with k that show ?thesis by blast
qed

lemma height_below: "h < h' \<Longrightarrow> g + 1 = h' \<Longrightarrow> h \<le> g \<and> unat g < unat h'" for g h h' :: SeqNumber
proof -
  assume "h < h'" "g + 1 = h'"
  then have "h' \<noteq> 0" "g = h' - 1" by auto
  then have "unat g = unat h' - 1" "0 < unat h'" by (simp_all add: unat_minus_one unat_gt_0)
  with \<open>h < h'\<close> show "h \<le> g \<and> unat g < unat h'" by (simp add: word_le_nat_alt word_less_nat_alt)
qed

lemma one_chain:
  assumes "bft_committee c" and "few_faults c correct" and runs: "sound_runs E c correct start now"
    and "certified (epoch_of c correct start now) qc" and "certified (epoch_of c correct start now) qc'"
    and "qc_height qc \<le> qc_height qc'"
  shows "descends E (epoch_of c correct start now) qc' qc"
  using assms(5,6)
proof (induction "unat (qc_height qc')" arbitrary: qc' rule: less_induct)
  case less
  let ?w = "epoch_of c correct start now"
  show ?case
  proof (cases "qc_height qc = qc_height qc'")
    case True
    have "epoch_runs E correct start now"
      using runs sound_run_epoch unfolding epoch_runs_def sound_runs_def by blast
    from backed_certificates_agree [OF assms(1,2) this _ _ _ _ True] less.prems(1) assms(4)
    have "qc_hash qc' = qc_hash qc" by (simp add: certified_def epoch_of_def)
    then show ?thesis using True by (intro descends.same) simp_all
  next
    case False
    with less.prems(2) have lt: "qc_height qc < qc_height qc'" by simp
    obtain k v where k: "k \<in> correct" "v \<in> set (votes_since (start k) (now k))" "hv_height v = qc_height qc'" "hv_hash v = qc_hash qc'"
      using certified_voter [OF assms(1,2) less.prems(1)] .
    from votes_sound(1) [OF assms(1) runs k(1,2)] k(3,4) obtain b where b: "qc_hash qc' = block_digest E b" "qc_height qc' = b_height b"
      "qc_height (b_qc b) + 1 = b_height b" "good ?w (b_qc b)"
      by (auto simp: sound_vote_def)
    have below: "qc_height qc \<le> qc_height (b_qc b)" "unat (qc_height (b_qc b)) < unat (qc_height qc')"
      using height_below [OF lt] b(2,3) by simp_all
    obtain k' v' where "k' \<in> correct" "v' \<in> set (votes_since (start k') (now k'))" "hv_height v' = qc_height qc"
      using certified_voter [OF assms(1,2,4)] by metis
    with votes_sound(2) [OF assms(1) runs] have "0 < qc_height qc" by metis
    with below(1) have "qc_height (b_qc b) \<noteq> 0" by auto
    then have cert: "certified ?w (b_qc b)" using b(4) by (auto simp: good_def qc_eq_def qc_genesis_def)
    from descends.parent [OF b(1-3) cert less.hyps [OF below(2) cert below(1)]] show ?thesis .
  qed
qed

end
