(* ===== verification/Text.thy ===== *)
theory Text
  imports Config
begin

text \<open>
  Numbers and socket addresses as text, the part of \<open>std\<close> behind \<open>format!("127.0.0.1:{}", port)\<close>, \<open>str::parse\<close> of the
  command line arguments and the addresses in the configuration files: decimal printing, the parsers of unsigned
  integers and of \<open>SocketAddr\<close>, with their round trips. IPv4 addresses are parsed here; the parser of bracketed IPv6
  addresses is the argument \<open>v6\<close>.
\<close>

section \<open>Decimal numbers\<close>

definition digit :: "nat \<Rightarrow> char" where
  "digit d = char_of (48 + d)"

definition digit_value :: "char \<Rightarrow> nat option" where
  "digit_value c = (let n = of_char c in if 48 \<le> n \<and> n \<le> 57 then Some (n - 48) else None)"

fun dec :: "nat \<Rightarrow> string" where
  "dec n = (if n < 10 then [digit n] else dec (n div 10) @ [digit (n mod 10)])"

declare dec.simps [simp del]

fun parse_digits :: "nat \<Rightarrow> string \<Rightarrow> nat option" where
  "parse_digits acc [] = Some acc"
| "parse_digits acc (c # cs) = (case digit_value c of None \<Rightarrow> None | Some d \<Rightarrow> parse_digits (10 * acc + d) cs)"

text \<open>A non-empty run of digits below a bound, as the address parser reads it.\<close>

definition read_number :: "nat \<Rightarrow> string \<Rightarrow> nat option" where
  "read_number bound s = (if s = [] then None
     else case parse_digits 0 s of Some n \<Rightarrow> if n < bound then Some n else None | None \<Rightarrow> None)"

text \<open>\<open>parse::<u64>()\<close> and its like for \<open>w\<close> bits: one leading plus sign is accepted, a lone sign is not.\<close>

definition parse_uint :: "nat \<Rightarrow> string \<Rightarrow> nat option" where
  "parse_uint w s = read_number (2 ^ w) (case s of c # cs \<Rightarrow> if c = CHR ''+'' then cs else s | [] \<Rightarrow> [])"

section \<open>Socket addresses\<close>

fun split_on :: "char \<Rightarrow> string \<Rightarrow> string list" where
  "split_on c [] = [[]]"
| "split_on c (x # xs) = (if x = c then [] # split_on c xs
     else case split_on c xs of w # ws \<Rightarrow> (x # w) # ws | [] \<Rightarrow> [[x]])"

text \<open>An octet has at most three digits, no leading zero and is at most 255.\<close>

definition is_octet :: "string \<Rightarrow> bool" where
  "is_octet s \<longleftrightarrow> length s \<le> 3 \<and> read_number 256 s \<noteq> None \<and> (hd s = CHR ''0'' \<longrightarrow> length s = 1)"

definition is_ipv4 :: "string \<Rightarrow> bool" where
  "is_ipv4 s \<longleftrightarrow> length (split_on CHR ''.'' s) = 4 \<and> list_all is_octet (split_on CHR ''.'' s)"

definition addr_to_string :: "SocketAddr \<Rightarrow> string" where
  "addr_to_string a =
     (if CHR '':'' \<in> set (sa_ip a) then CHR ''['' # sa_ip a @ [CHR '']''] else sa_ip a) @
     CHR '':'' # dec (unat (sa_port a))"

definition parse_addr_v4 :: "string \<Rightarrow> SocketAddr option" where
  "parse_addr_v4 s = (case split_on CHR '':'' s of
     [ip, port] \<Rightarrow> if is_ipv4 ip
       then map_option (\<lambda>p. \<lparr>sa_ip = ip, sa_port = word_of_nat p\<rparr>) (read_number (2 ^ 16) port)
       else None
   | _ \<Rightarrow> None)"

definition parse_addr :: "(string \<Rightarrow> SocketAddr option) \<Rightarrow> string \<Rightarrow> SocketAddr option" where
  "parse_addr v6 s = (case parse_addr_v4 s of Some a \<Rightarrow> Some a | None \<Rightarrow> v6 s)"

text \<open>Documented of the parser of IPv6 socket addresses: the address is in brackets.\<close>

definition v6_bracketed :: "(string \<Rightarrow> SocketAddr option) \<Rightarrow> bool" where
  "v6_bracketed v6 \<longleftrightarrow> (\<forall>s a. v6 s = Some a \<longrightarrow> (\<exists>t. s = CHR ''['' # t))"

text \<open>\<open>SocketAddr::set_ip\<close> with the unspecified address, on which a node listens.\<close>

definition any_ip :: "SocketAddr \<Rightarrow> SocketAddr" where
  "any_ip a = a\<lparr>sa_ip := ''0.0.0.0''\<rparr>"

section \<open>Lemmas\<close>

lemma digit_value_digit [simp]: "d < 10 \<Longrightarrow> digit_value (digit d) = Some d"
  by (simp add: digit_value_def digit_def)

lemma parse_digits_append:
  "parse_digits acc (xs @ ys) = (case parse_digits acc xs of Some n \<Rightarrow> parse_digits n ys | None \<Rightarrow> None)"
  by (induction xs arbitrary: acc) (auto split: option.splits)

lemma dec_nonempty [simp]: "dec n \<noteq> []"
  by (subst dec.simps) simp

lemma parse_dec [simp]: "parse_digits 0 (dec n) = Some n"
proof (induction n rule: dec.induct)
  case (1 n)
  then show ?case by (subst dec.simps) (auto simp: parse_digits_append)
qed

lemma parse_digits_digits: "parse_digits acc s = Some n \<Longrightarrow> c \<in> set s \<Longrightarrow> digit_value c \<noteq> None"
  by (induction s arbitrary: acc) (auto split: option.splits)

lemma dec_digits: "digit_value c = None \<Longrightarrow> c \<notin> set (dec n)"
  using parse_digits_digits [OF parse_dec] by blast

lemma no_digits [simp]: "digit_value CHR '':'' = None" "digit_value CHR ''+'' = None"
  by (simp_all add: digit_value_def)

lemma read_number_dec: "read_number bound (dec n) = (if n < bound then Some n else None)"
  by (simp add: read_number_def)

lemma dec_inject [simp]: "dec a = dec b \<longleftrightarrow> a = b"
  by (metis option.inject parse_dec)

lemma parse_uint_dec: "parse_uint w (dec n) = (if n < 2 ^ w then Some n else None)"
proof -
  obtain c cs where dec: "dec n = c # cs" by (cases "dec n") auto
  then have "c \<noteq> CHR ''+''" using dec_digits [of "CHR ''+''" n] by auto
  with dec show ?thesis by (simp add: parse_uint_def) (simp add: dec [symmetric] read_number_dec)
qed

lemma parse_uint_bound: "parse_uint w s = Some n \<Longrightarrow> n < 2 ^ w"
  by (auto simp: parse_uint_def read_number_def split: if_splits option.splits)

lemma split_on_nonempty [simp]: "split_on c s \<noteq> []"
  by (induction s) (auto split: list.splits)

lemma split_on_plain: "c \<notin> set s \<Longrightarrow> split_on c s = [s]"
  by (induction s) auto

lemma split_on_append: "c \<notin> set s \<Longrightarrow> split_on c (s @ c # t) = s # split_on c t"
  by (induction s) auto

lemma ipv4_no_colon: "is_ipv4 s \<Longrightarrow> CHR '':'' \<notin> set s"
proof
  assume ip: "is_ipv4 s" and colon: "CHR '':'' \<in> set s"
  have "\<exists>w \<in> set (split_on CHR ''.'' s). CHR '':'' \<in> set w"
    using colon by (induction s) (auto split: list.splits)
  then obtain w where w: "w \<in> set (split_on CHR ''.'' s)" "CHR '':'' \<in> set w" by blast
  with ip have "read_number 256 w \<noteq> None" by (auto simp: is_ipv4_def is_octet_def list_all_iff)
  then obtain n where "parse_digits 0 w = Some n" by (auto simp: read_number_def split: option.splits if_splits)
  then show False using w(2) parse_digits_digits by fastforce
qed

text \<open>Reading an address back, and the text \<open>ip:port\<close> of a port that may be too large.\<close>

lemma parse_addr_v4_text:
  assumes "is_ipv4 ip"
  shows "parse_addr_v4 (ip @ CHR '':'' # dec n) = (if n < 65536 then Some \<lparr>sa_ip = ip, sa_port = word_of_nat n\<rparr> else None)"
proof -
  have "CHR '':'' \<notin> set (dec n)" by (rule dec_digits) simp
  with ipv4_no_colon [OF assms] have "split_on CHR '':'' (ip @ CHR '':'' # dec n) = [ip, dec n]"
    by (simp add: split_on_append split_on_plain)
  with assms show ?thesis by (simp add: parse_addr_v4_def read_number_dec)
qed

lemma parse_addr_to_string:
  assumes "is_ipv4 (sa_ip a)"
  shows "parse_addr v6 (addr_to_string a) = Some a"
proof -
  have "unat (sa_port a) < 65536" using unsigned_less [of "sa_port a", where 'a = nat] by simp
  with assms show ?thesis
    by (simp add: parse_addr_def addr_to_string_def ipv4_no_colon parse_addr_v4_text)
qed

lemma loopback_ipv4: "is_ipv4 ''127.0.0.1''" "is_ipv4 ''0.0.0.0''"
  by code_simp+

end
