(* ===== verification/Display.thy ===== *)
theory Display
  imports Text Payload_Maker
begin

text \<open>
  What the node prints: the \<open>Debug\<close> and \<open>Display\<close> implementations of keys, digests and messages
  (\<open>crypto/src/lib.rs\<close>, \<open>consensus/src/messages.rs\<close>, \<open>mempool/src/messages.rs\<close>) and the log lines from which the
  benchmark computes its results. Keys and digests are shown by the first 16 characters of their base64 text, whose
  \<open>unwrap\<close> panics on a shorter one. The lemmas show that nothing panics on keys and digests of 32 bytes, and
  that a log line identifies what it is about.
\<close>

section \<open>Formatting\<close>

fun format_all :: "('e, string) result list \<Rightarrow> ('e, string) result" where
  "format_all [] = Ok []"
| "format_all (r # rs) = rbind r (\<lambda>x. rbind (format_all rs) (\<lambda>y. Ok (x @ y)))"

definition num :: "'a::len word \<Rightarrow> ('e, string) result" where
  "num w = Ok (dec (unat w))"

section \<open>Keys and digests\<close>

definition get_prefix :: "nat \<Rightarrow> string \<Rightarrow> string option" where
  "get_prefix n s = (if n \<le> length s then Some (take n s) else None)"

definition digest_debug :: "'z crypto_ext_scheme \<Rightarrow> Digest \<Rightarrow> string" where
  "digest_debug E d = base64_encode E (digest_bytes d)"

definition digest_display :: "'z crypto_ext_scheme \<Rightarrow> Digest \<Rightarrow> ('e, string) result" where
  "digest_display E d = unwrap (get_prefix 16 (base64_encode E (digest_bytes d)))"

definition key_debug :: "'z crypto_ext_scheme \<Rightarrow> PublicKey \<Rightarrow> string" where
  "key_debug E k = key_to_base64 E k"

definition key_display :: "'z crypto_ext_scheme \<Rightarrow> PublicKey \<Rightarrow> ('e, string) result" where
  "key_display E k = unwrap (get_prefix 16 (key_to_base64 E k))"

section \<open>Messages of the chain\<close>

definition qc_debug :: "'z crypto_ext_scheme \<Rightarrow> QC \<Rightarrow> ('e, string) result" where
  "qc_debug E qc = format_all [Ok ''QC(hash '', digest_display E (qc_hash qc), Ok '', height '', num (qc_height qc),
     Ok '',  proposer '', key_display E (qc_proposer qc), Ok '')'']"

definition block_debug :: "'z crypto_ext_scheme \<Rightarrow> Block \<Rightarrow> ('e, string) result" where
  "block_debug E b = format_all [digest_display E (block_digest E b), Ok '': B(author '', key_display E (b_author b),
     Ok '', height '', num (b_height b), Ok '', epoch '', num (b_epoch b), Ok '', qc '', qc_debug E (b_qc b),
     Ok '', payload_len '', Ok (dec (sum_list (map digest_size (b_payload b)))), Ok '')'']"

definition block_display :: "Block \<Rightarrow> string" where
  "block_display b = ''B'' @ dec (unat (b_height b))"

definition hvote_debug :: "'z crypto_ext_scheme \<Rightarrow> HVote \<Rightarrow> ('e, string) result" where
  "hvote_debug E v = format_all [Ok ''Vote(blockhash '', digest_display E (hv_hash v), Ok '', proposer '',
     key_display E (hv_proposer v), Ok '', height '', num (hv_height v), Ok '', epoch '', num (hv_epoch v),
     Ok '',  voter '', key_display E (hv_author v), Ok '')'']"

definition hvote_display :: "'z crypto_ext_scheme \<Rightarrow> HVote \<Rightarrow> ('e, string) result" where
  "hvote_display E v = format_all [Ok ''Vote'', digest_display E (hv_hash v)]"

definition prepare_debug :: "'z crypto_ext_scheme \<Rightarrow> PrePare \<Rightarrow> ('e, string) result" where
  "prepare_debug E p =
     (let tag = if pp_val p = OPT then ''OPT'' else if pp_val p = PES then ''PES'' else ''Unkonw''
      in format_all [Ok ''PrePare(tag '', Ok tag, Ok '', epoch '', num (pp_epoch p), Ok '',height '', num (pp_height p),
           Ok '', author '', key_display E (pp_author p), Ok '')''])"

section \<open>Messages of the agreement\<close>

definition spbvalue_debug :: "'z crypto_ext_scheme \<Rightarrow> SPBValue \<Rightarrow> ('e, string) result" where
  "spbvalue_debug E v = format_all [Ok ''SPBValue(proposer '', key_display E (b_author (sv_block v)),
     Ok '', epoch '', num (b_epoch (sv_block v)), Ok '', height '', num (b_height (sv_block v)),
     Ok '' ,round '', num (sv_round v), Ok '', pahse '', num (sv_phase v), Ok '')'']"

definition spbvote_debug :: "'z crypto_ext_scheme \<Rightarrow> SPBVote \<Rightarrow> ('e, string) result" where
  "spbvote_debug E v = format_all [Ok ''spb vote (author '', key_display E (sp_author v), Ok '', height '', num (sp_height v),
     Ok '', round '', num (sp_round v), Ok '', phase '', num (sp_phase v), Ok '', proposer '',
     key_display E (sp_proposer v), Ok '')'']"

definition spbproof_debug :: "SPBProof \<Rightarrow> ('e, string) result" where
  "spbproof_debug p = format_all [Ok ''SPBProof(height '', num (pf_height p), Ok '' ,round '', num (pf_round p),
     Ok '', phase '', num (pf_phase p), Ok '')'']"

definition spbproof_display :: "SPBProof \<Rightarrow> ('e, string) result" where
  "spbproof_display p = format_all [Ok ''SPBProof(round '', num (pf_round p), Ok '', phase '', num (pf_phase p), Ok '')'']"

definition mdone_debug :: "'z crypto_ext_scheme \<Rightarrow> MDoneAndShare \<Rightarrow> ('e, string) result" where
  "mdone_debug E d = format_all [Ok ''Done(author '', key_display E (md_author d), Ok '',height '', num (md_height d),
     Ok '',epoch '', num (md_epoch d), Ok '',round '', num (md_round d), Ok '')'']"

fun prevotetag_debug :: "PreVoteTag \<Rightarrow> string" where
  "prevotetag_debug (PreVoteYes v p) = ''PreVote-Yes''"
| "prevotetag_debug PreVoteNo = ''PreVote-No''"

definition mprevote_debug :: "'z crypto_ext_scheme \<Rightarrow> MPreVote \<Rightarrow> ('e, string) result" where
  "mprevote_debug E v = format_all [Ok ''PreVote(author '', key_display E (pv_author v), Ok '', leader '',
     key_display E (pv_leader v), Ok '',epoch '', num (pv_epoch v), Ok '', height '', num (pv_height v),
     Ok '',round '', num (pv_round v), Ok '', tag '', Ok (prevotetag_to_string (pv_tag v)), Ok '',)'']"

fun mvotetag_debug :: "MVoteTag \<Rightarrow> string" where
  "mvotetag_debug (MVoteYes v p vote) = ''Vote-Yes''"
| "mvotetag_debug MVoteNo = ''Vote-No''"

definition mvote_debug :: "'z crypto_ext_scheme \<Rightarrow> MVote \<Rightarrow> ('e, string) result" where
  "mvote_debug E v = format_all [Ok ''MVote(author '', key_display E (mv_author v), Ok '', leader '',
     key_display E (mv_leader v), Ok '',epoch '', num (mv_epoch v), Ok '', height '', num (mv_height v),
     Ok '', round '', num (mv_round v), Ok '', tag '', Ok (mvotetag_to_string (mv_tag v)), Ok '',)'']"

definition mhalt_debug :: "'z crypto_ext_scheme \<Rightarrow> MHalt \<Rightarrow> ('e, string) result" where
  "mhalt_debug E h = format_all [Ok ''MHalt(author '', key_display E (mh_author h), Ok '',epoch '', num (mh_epoch h),
     Ok '', height '', num (mh_height h), Ok '' ,round '', num (mh_round h), Ok '', leader '',
     key_display E (mh_leader h), Ok '',)'']"

definition share_debug :: "'z crypto_ext_scheme \<Rightarrow> RandomnessShare \<Rightarrow> ('e, string) result" where
  "share_debug E sh = format_all [Ok ''RandomnessShare (author '', key_display E (rs_author sh), Ok '', height '',
     num (rs_height sh), Ok '',round '', num (rs_round sh), Ok '')'']"

definition coin_debug :: "'z crypto_ext_scheme \<Rightarrow> RandomCoin \<Rightarrow> ('e, string) result" where
  "coin_debug E coin = format_all [Ok ''RandomCoin(epoch '', num (rc_epoch coin), Ok '', height '', num (rc_height coin),
     Ok '',round '', num (rc_round coin), Ok '', leader '', key_display E (rc_leader coin), Ok '')'']"

section \<open>Payloads\<close>

definition payload_debug :: "'z crypto_ext_scheme \<Rightarrow> Payload \<Rightarrow> ('e, string) result" where
  "payload_debug E p = format_all [Ok ''Payload('', digest_display E (payload_digest E p), Ok '', '', Ok (dec (payload_size p)), Ok '')'']"

section \<open>The lines of the benchmark\<close>

text \<open>Of a block with a payload that is created or committed: one line, and one for each digest of the payload.\<close>

definition block_line :: "string \<Rightarrow> Block \<Rightarrow> string" where
  "block_line verb b = verb @ '' '' @ block_display b @ '' epoch '' @ dec (unat (b_epoch b)) @ '' round '' @ dec (unat (b_round b)) @
     '' tag '' @ dec (unat (b_tag b))"

definition payload_line :: "'z crypto_ext_scheme \<Rightarrow> string \<Rightarrow> Block \<Rightarrow> Digest \<Rightarrow> string" where
  "payload_line E verb b x = verb @ '' B'' @ dec (unat (b_height b)) @ ''('' @ base64_encode E (digest_bytes x) @ '') epoch '' @
     dec (unat (b_epoch b)) @ '' round '' @ dec (unat (b_round b)) @ '' tag '' @ dec (unat (b_tag b))"

definition log_lines :: "'z crypto_ext_scheme \<Rightarrow> string \<Rightarrow> Block \<Rightarrow> string list" where
  "log_lines E verb b = (if b_payload b = [] then [] else block_line verb b # map (payload_line E verb b) (b_payload b))"

section \<open>Nothing panics\<close>

text \<open>Documented of base64: four characters of its alphabet for every three bytes, with padding.\<close>

definition base64_text_ok :: "'z crypto_ext_scheme \<Rightarrow> bool" where
  "base64_text_ok E \<longleftrightarrow> (\<forall>bs. length (base64_encode E bs) = 4 * ((length bs + 2) div 3) \<and> CHR '')'' \<notin> set (base64_encode E bs))"

lemma format_all_Ok: "(\<exists>s. format_all rs = Ok s) \<longleftrightarrow> (\<forall>r \<in> set rs. \<exists>x. r = Ok x)"
proof (induction rs)
  case (Cons r rs)
  then show ?case by (cases r) (auto simp: rbind_Ok)
qed simp

lemma num_Ok [simp]: "\<exists>x. num w = Ok x"
  by (simp add: num_def)

lemma key_display_Ok: "base64_text_ok E \<Longrightarrow> length (key_bytes k) = 32 \<Longrightarrow> \<exists>x. key_display E k = Ok x"
  by (simp add: key_display_def key_to_base64_def get_prefix_def base64_text_ok_def)

lemma digest_display_Ok: "base64_text_ok E \<Longrightarrow> length (digest_bytes d) = 32 \<Longrightarrow> \<exists>x. digest_display E d = Ok x"
  by (simp add: digest_display_def get_prefix_def base64_text_ok_def)

lemma qc_debug_Ok:
  assumes "base64_text_ok E" and "length (digest_bytes (qc_hash qc)) = 32" and "length (key_bytes (qc_proposer qc)) = 32"
  shows "\<exists>s. qc_debug E qc = Ok s"
  using assms by (simp only: qc_debug_def format_all_Ok) (simp add: key_display_Ok digest_display_Ok)

lemma block_debug_Ok:
  assumes "base64_text_ok E" and "sha512_ok E" and "length (key_bytes (b_author b)) = 32"
    and "length (digest_bytes (qc_hash (b_qc b))) = 32" and "length (key_bytes (qc_proposer (b_qc b))) = 32"
  shows "\<exists>s. block_debug E b = Ok s"
  using assms by (simp only: block_debug_def format_all_Ok)
    (simp add: key_display_Ok digest_display_Ok qc_debug_Ok block_digest_def hash32_def sha512_ok_def)

section \<open>A line identifies what it is about\<close>

lemma append_delim_inject: "xs @ c # ys = xs' @ c # ys' \<Longrightarrow> c \<notin> set xs \<Longrightarrow> c \<notin> set xs' \<Longrightarrow> xs = xs' \<and> ys = ys'"
  by (induction xs arbitrary: xs') (auto simp: Cons_eq_append_conv)

lemma dec_no_digit: "CHR ''('' \<notin> set (dec n)" "CHR '' '' \<notin> set (dec n)"
  by (rule dec_digits; simp add: digit_value_def)+

lemma epoch_part_inject:
  assumes "dec e @ '' round '' @ dec r @ '' tag '' @ dec t = dec e' @ '' round '' @ dec r' @ '' tag '' @ dec t'"
  shows "e = e' \<and> r = r' \<and> t = t'"
proof -
  have "dec e = dec e' \<and> ''round '' @ dec r @ '' tag '' @ dec t = ''round '' @ dec r' @ '' tag '' @ dec t'"
    using assms by (intro append_delim_inject [of _ "CHR '' ''"]) (simp_all add: dec_no_digit)
  moreover from this have "dec r = dec r' \<and> ''tag '' @ dec t = ''tag '' @ dec t'"
    by (intro append_delim_inject [of _ "CHR '' ''"]) (simp_all add: dec_no_digit)
  ultimately show ?thesis by simp
qed

lemma payload_line_inject:
  assumes "base64_ok E" and "base64_text_ok E" and "payload_line E verb b x = payload_line E verb b' x'"
  shows "b_height b = b_height b' \<and> x = x' \<and> b_epoch b = b_epoch b' \<and> b_round b = b_round b' \<and> b_tag b = b_tag b'"
proof -
  let ?tail_of = "\<lambda>b. dec (unat (b_epoch b)) @ '' round '' @ dec (unat (b_round b)) @ '' tag '' @ dec (unat (b_tag b))"
  let ?text = "\<lambda>x. base64_encode E (digest_bytes x)"
  have h: "dec (unat (b_height b)) = dec (unat (b_height b')) \<and> ?text x @ '') epoch '' @ ?tail_of b = ?text x' @ '') epoch '' @ ?tail_of b'"
    using assms(3) by (intro append_delim_inject [of _ "CHR ''(''"]) (simp_all add: payload_line_def dec_no_digit)
  then have "?text x = ?text x' \<and> '' epoch '' @ ?tail_of b = '' epoch '' @ ?tail_of b'"
    using assms(2) by (intro append_delim_inject [of _ "CHR '')''"]) (simp_all add: base64_text_ok_def)
  then have enc: "?text x = ?text x'" and rest: "?tail_of b = ?tail_of b'" by simp_all
  from enc assms(1) have "digest_bytes x = digest_bytes x'" by (metis base64_ok_def option.inject)
  then have "x = x'" by (rule Digest.expand)
  moreover from epoch_part_inject [OF rest] h have "b_height b = b_height b'" "b_epoch b = b_epoch b'" "b_round b = b_round b'" "b_tag b = b_tag b'"
    by (auto intro: unsigned_word_eqI)
  ultimately show ?thesis by simp
qed

end
