(* ===== verification/Files.thy ===== *)
theory Files
  imports Text Store
begin

text \<open>
  The files of a node: the trait \<open>Export\<close> with \<open>read\<close> and \<open>write\<close> and the four types that implement it
  (\<open>node/src/config.rs\<close>), the serde implementations of keys and the wrapper \<open>SecretShare\<close> (\<open>crypto/src/lib.rs\<close>). A value becomes a
  JSON value the way its \<open>Serialize\<close> implementation says (for a struct: an object with one member per field, in order);
  \<open>Deserialize\<close> of a struct visits the members in the order of the file, ignores unknown ones, and refuses a
  member that comes twice or is missing. serde\_json, which turns JSON values into text and back, and the serde
  implementations of threshold\_crypto are the fields of the record \<open>json_ext\<close>; the random generators are
  arguments. The locale \<open>exported\<close> states what a type that is exported must satisfy and shows once what becomes
  of a written file.
\<close>

section \<open>JSON values and their text\<close>

datatype json =
    JNull
  | JBool bool
  | JNumber int
  | JFloat string
  | JString string
  | JArray "json list"
  | JObject "(string \<times> json) list"

text \<open>
  A decoder ends with \<open>Err ()\<close> for every error of serde and with \<open>Panic\<close> where a \<open>Deserialize\<close> implementation of
  the sources panics. \<open>json_error\<close> is the text serde\_json gives an error of reading these bytes.
\<close>

type_synonym 'a decoded = "(unit, 'a) result"

record json_ext =
  json_text :: "json \<Rightarrow> bytes"
  json_parse :: "bytes \<Rightarrow> json option"
  json_error :: "bytes \<Rightarrow> string"
  pk_share_json :: "bytes \<Rightarrow> json"
  pk_share_of_json :: "json \<Rightarrow> bytes option"
  sk_share_json :: "bytes \<Rightarrow> json"
  sk_share_of_json :: "json \<Rightarrow> bytes option"
  pk_set_json :: "bytes \<Rightarrow> json"
  pk_set_of_json :: "json \<Rightarrow> bytes option"
  v6_parse :: "string \<Rightarrow> SocketAddr option"

text \<open>
  Documented behaviour of the libraries: a value that was printed and is followed by a line break is parsed again if only white space
  follows; anything else behind it is an error. This holds of values that are nested less than 128 deep, where the parser gives up,
  with integers of at most 128 bits and without floating-point numbers. The values of threshold\_crypto are such values and survive
  their own serde implementations.
\<close>

fun plain_json :: "nat \<Rightarrow> json \<Rightarrow> bool" where
  "plain_json n JNull = True"
| "plain_json n (JBool b) = True"
| "plain_json n (JNumber i) = (- (2 ^ 127) \<le> i \<and> i < 2 ^ 128)"
| "plain_json n (JFloat s) = False"
| "plain_json n (JString s) = True"
| "plain_json (Suc n) (JArray vs) = list_all (plain_json n) vs"
| "plain_json (Suc n) (JObject kvs) = list_all (plain_json n \<circ> snd) kvs"
| "plain_json 0 v = False"

definition white_space :: "bytes \<Rightarrow> bool" where
  "white_space bs \<longleftrightarrow> list_all (\<lambda>b. b \<in> {9, 10, 13, 32}) bs"

definition json_ok :: "'z json_ext_scheme \<Rightarrow> bool" where
  "json_ok J \<longleftrightarrow> (\<forall>v bs. plain_json 127 v \<longrightarrow>
     json_parse J (json_text J v @ 10 # bs) = (if white_space bs then Some v else None))"

definition tss_serde_ok :: "'z json_ext_scheme \<Rightarrow> bool" where
  "tss_serde_ok J \<longleftrightarrow> (\<forall>x. pk_share_of_json J (pk_share_json J x) = Some x) \<and>
     (\<forall>x. sk_share_of_json J (sk_share_json J x) = Some x) \<and> (\<forall>x. pk_set_of_json J (pk_set_json J x) = Some x) \<and>
     (\<forall>x. plain_json 126 (pk_share_json J x) \<and> plain_json 126 (sk_share_json J x) \<and> plain_json 126 (pk_set_json J x))"

section \<open>The derived implementations\<close>

definition unit_of :: "'a decoded \<Rightarrow> unit decoded" where
  "unit_of r = rbind r (\<lambda>_. Ok ())"

text \<open>
  The members of an object in the order of the file: \<open>decl\<close> gives the names of the struct's fields with the decoder each
  is read by, \<open>seen\<close> the members met so far.
\<close>

fun visit_map :: "(string \<times> (json \<Rightarrow> unit decoded)) list \<Rightarrow> (string \<rightharpoonup> json) \<Rightarrow> (string \<times> json) list \<Rightarrow>
    (string \<rightharpoonup> json) decoded" where
  "visit_map decl seen [] = Ok seen"
| "visit_map decl seen ((k, v) # kvs) = (case map_of decl k of
     None \<Rightarrow> visit_map decl seen kvs
   | Some check \<Rightarrow> if seen k \<noteq> None then Err ()
       else rbind (check v) (\<lambda>_. visit_map decl (seen(k \<mapsto> v)) kvs))"

fun visit_seq :: "(string \<times> (json \<Rightarrow> unit decoded)) list \<Rightarrow> json list \<Rightarrow> unit decoded" where
  "visit_seq [] [] = Ok ()"
| "visit_seq ((k, check) # decl) (v # vs) = rbind (check v) (\<lambda>_. visit_seq decl vs)"
| "visit_seq _ _ = Err ()"

text \<open>The values of the fields in the order of the struct.\<close>

definition visit_struct :: "(string \<times> (json \<Rightarrow> unit decoded)) list \<Rightarrow> json \<Rightarrow> json list decoded" where
  "visit_struct decl v = (case v of
     JObject kvs \<Rightarrow> rbind (visit_map decl Map.empty kvs) (\<lambda>seen.
       if list_all (\<lambda>(k, _). seen k \<noteq> None) decl then Ok (map (\<lambda>(k, _). the (seen k)) decl) else Err ())
   | JArray vs \<Rightarrow> rbind (visit_seq decl vs) (\<lambda>_. Ok vs)
   | _ \<Rightarrow> Err ())"

definition ser_uint :: "'a::len word \<Rightarrow> json" where
  "ser_uint w = JNumber (uint w)"

definition de_uint :: "json \<Rightarrow> 'a::len word decoded" where
  "de_uint v = (case v of
     JNumber n \<Rightarrow> if 0 \<le> n \<and> n < 2 ^ LENGTH('a) then Ok (word_of_int n) else Err ()
   | _ \<Rightarrow> Err ())"

definition de_bool :: "json \<Rightarrow> bool decoded" where
  "de_bool v = (case v of JBool b \<Rightarrow> Ok b | _ \<Rightarrow> Err ())"

definition de_string :: "json \<Rightarrow> string decoded" where
  "de_string v = (case v of JString s \<Rightarrow> Ok s | _ \<Rightarrow> Err ())"

definition ser_addr :: "SocketAddr \<Rightarrow> json" where
  "ser_addr a = JString (addr_to_string a)"

definition de_addr :: "'z json_ext_scheme \<Rightarrow> json \<Rightarrow> SocketAddr decoded" where
  "de_addr J v = rbind (de_string v) (\<lambda>s. ok_or () (parse_addr (v6_parse J) s))"

section \<open>Keys\<close>

text \<open>\<open>Serialize\<close> and \<open>Deserialize\<close> of public and secret keys go through base64.\<close>

definition key_serialize :: "'y crypto_ext_scheme \<Rightarrow> PublicKey \<Rightarrow> json" where
  "key_serialize E k = JString (key_to_base64 E k)"

definition key_deserialize :: "'y crypto_ext_scheme \<Rightarrow> json \<Rightarrow> PublicKey decoded" where
  "key_deserialize E v = rbind (de_string v) (\<lambda>s. map_err (\<lambda>_. ()) (key_from_base64 E s))"

definition secret_serialize :: "'y crypto_ext_scheme \<Rightarrow> SecretKey \<Rightarrow> json" where
  "secret_serialize E k = JString (secret_to_base64 E k)"

definition secret_deserialize :: "'y crypto_ext_scheme \<Rightarrow> json \<Rightarrow> SecretKey decoded" where
  "secret_deserialize E v = rbind (de_string v) (\<lambda>s. map_err (\<lambda>_. ()) (secret_from_base64 E s))"

text \<open>
  \<open>dalek::Keypair::generate\<close> is the argument \<open>gen\<close>: the bytes of the pair and the rest of the generator. The serialised
  pair holds the secret half and then the public half, whose bytes are the public key.
\<close>

type_synonym 'g keypair_gen = "'g \<Rightarrow> bytes \<times> bytes \<times> 'g"

definition generate_keypair :: "'g keypair_gen \<Rightarrow> 'g \<Rightarrow> (PublicKey \<times> SecretKey) \<times> 'g" where
  "generate_keypair gen csprng = (case gen csprng of
     (pub, pair, csprng') \<Rightarrow> ((PublicKey pub, SecretKey pair), csprng'))"

definition generate_production_keypair :: "'g keypair_gen \<Rightarrow> 'g \<Rightarrow> (PublicKey \<times> SecretKey) \<times> 'g" where
  "generate_production_keypair gen osrng = generate_keypair gen osrng"

text \<open>Documented of \<open>Keypair::generate\<close>: 32 bytes of public key, 64 of the pair, which loads again and ends with the public key.\<close>

definition keypair_gen_ok :: "'y crypto_ext_scheme \<Rightarrow> 'g keypair_gen \<Rightarrow> bool" where
  "keypair_gen_ok E gen \<longleftrightarrow> (\<forall>g. case gen g of (pub, pair, _) \<Rightarrow>
     length pub = 32 \<and> length pair = 64 \<and> drop 32 pair = pub \<and> ed_keypair_from_bytes E pair)"

record Secret =
  sec_name :: PublicKey
  sec_secret :: SecretKey

definition secret_new :: "'g keypair_gen \<Rightarrow> 'g \<Rightarrow> Secret \<times> 'g" where
  "secret_new gen g = (case generate_production_keypair gen g of
     ((name, secret), g') \<Rightarrow> (\<lparr>sec_name = name, sec_secret = secret\<rparr>, g'))"

text \<open>\<open>Default\<close>: the generator \<open>StdRng\<close> seeded with 32 zero bytes.\<close>

definition secret_default :: "(bytes \<Rightarrow> 'g) \<Rightarrow> 'g keypair_gen \<Rightarrow> Secret" where
  "secret_default from_seed gen = (case generate_keypair gen (from_seed (replicate 32 0)) of
     ((name, secret), _) \<Rightarrow> \<lparr>sec_name = name, sec_secret = secret\<rparr>)"

definition ser_secret :: "'y crypto_ext_scheme \<Rightarrow> Secret \<Rightarrow> json" where
  "ser_secret E x = JObject [(''name'', key_serialize E (sec_name x)), (''secret'', secret_serialize E (sec_secret x))]"

definition de_secret :: "'y crypto_ext_scheme \<Rightarrow> json \<Rightarrow> Secret decoded" where
  "de_secret E v = rbind (visit_struct [(''name'', unit_of \<circ> key_deserialize E), (''secret'', unit_of \<circ> secret_deserialize E)] v)
     (\<lambda>vs. rbind (key_deserialize E (vs ! 0)) (\<lambda>name. rbind (secret_deserialize E (vs ! 1)) (\<lambda>secret.
       Ok \<lparr>sec_name = name, sec_secret = secret\<rparr>)))"

section \<open>Threshold key shares\<close>

record SecretShare =
  sh_id :: usize
  sh_name :: bytes
  sh_secret :: SecretKeyShare
  sh_pkset :: PublicKeySet

definition secret_share_new :: "usize \<Rightarrow> bytes \<Rightarrow> SecretKeyShare \<Rightarrow> PublicKeySet \<Rightarrow> SecretShare" where
  "secret_share_new i name secret pkset = \<lparr>sh_id = i, sh_name = name, sh_secret = secret, sh_pkset = pkset\<rparr>"

text \<open>
  \<open>SecretKeySet::random\<close> with its accessors: the public key set, and the two shares of an index. The argument of
  the random set is the threshold; the generator's state is left out, it is not used again.
\<close>

record key_set =
  ks_public :: PublicKeySet
  ks_secret_share :: "usize \<Rightarrow> SecretKeyShare"
  ks_public_share :: "usize \<Rightarrow> bytes"

definition secret_share_default :: "(usize \<Rightarrow> key_set) \<Rightarrow> SecretShare" where
  "secret_share_default random_set = (let ks = random_set 0
     in \<lparr>sh_id = 0, sh_name = ks_public_share ks 0, sh_secret = ks_secret_share ks 0, sh_pkset = ks_public ks\<rparr>)"

definition ser_share :: "'z json_ext_scheme \<Rightarrow> SecretShare \<Rightarrow> json" where
  "ser_share J x = JObject [(''id'', ser_uint (sh_id x)), (''name'', pk_share_json J (sh_name x)),
     (''secret'', sk_share_json J (sh_secret x)), (''pkset'', pk_set_json J (sh_pkset x))]"

definition de_share :: "'z json_ext_scheme \<Rightarrow> json \<Rightarrow> SecretShare decoded" where
  "de_share J v = rbind (visit_struct
       [(''id'', unit_of \<circ> (de_uint :: json \<Rightarrow> usize decoded)), (''name'', unit_of \<circ> ok_or () \<circ> pk_share_of_json J),
        (''secret'', unit_of \<circ> ok_or () \<circ> sk_share_of_json J), (''pkset'', unit_of \<circ> ok_or () \<circ> pk_set_of_json J)] v)
     (\<lambda>vs. rbind (de_uint (vs ! 0)) (\<lambda>i. rbind (ok_or () (pk_share_of_json J (vs ! 1))) (\<lambda>name.
       rbind (ok_or () (sk_share_of_json J (vs ! 2))) (\<lambda>secret. rbind (ok_or () (pk_set_of_json J (vs ! 3))) (\<lambda>pkset.
       Ok (secret_share_new i name secret pkset))))))"

section \<open>Parameters and committees\<close>

record NodeParameters =
  np_consensus :: Parameters
  np_mempool :: MParameters
  np_protocol :: u8

definition node_parameters_default :: NodeParameters where
  "node_parameters_default = \<lparr>np_consensus = parameters_default, np_mempool = mparameters_default, np_protocol = 0\<rparr>"

definition ser_consensus_parameters :: "Parameters \<Rightarrow> json" where
  "ser_consensus_parameters p = JObject
     [(''node_sync_time'', ser_uint (node_sync_time p)), (''timeout_delay'', ser_uint (timeout_delay p)),
      (''sync_retry_delay'', ser_uint (sync_retry_delay p)), (''network_delay'', ser_uint (network_delay p)),
      (''max_payload_size'', ser_uint (max_payload_size p)), (''min_block_delay'', ser_uint (min_block_delay p)),
      (''ddos'', JBool (ddos p)), (''random_ddos'', JBool (random_ddos p)),
      (''random_ddos_chance'', ser_uint (random_ddos_chance p)), (''fallback_length'', ser_uint (fallback_length p)),
      (''exp'', ser_uint (exp_checks p)), (''leader_window'', ser_uint (leader_window p))]"

definition de_u64 :: "json \<Rightarrow> u64 decoded" where
  "de_u64 = de_uint"

definition de_consensus_parameters :: "json \<Rightarrow> Parameters decoded" where
  "de_consensus_parameters v = rbind (visit_struct
     [(''node_sync_time'', unit_of \<circ> de_u64), (''timeout_delay'', unit_of \<circ> de_u64), (''sync_retry_delay'', unit_of \<circ> de_u64),
      (''network_delay'', unit_of \<circ> de_u64), (''max_payload_size'', unit_of \<circ> de_u64), (''min_block_delay'', unit_of \<circ> de_u64),
      (''ddos'', unit_of \<circ> de_bool), (''random_ddos'', unit_of \<circ> de_bool), (''random_ddos_chance'', unit_of \<circ> de_u64),
      (''fallback_length'', unit_of \<circ> de_u64), (''exp'', unit_of \<circ> de_u64), (''leader_window'', unit_of \<circ> de_u64)] v)
     (\<lambda>vs. rbind (de_u64 (vs ! 0)) (\<lambda>a. rbind (de_u64 (vs ! 1)) (\<lambda>b. rbind (de_u64 (vs ! 2)) (\<lambda>c.
       rbind (de_u64 (vs ! 3)) (\<lambda>d. rbind (de_u64 (vs ! 4)) (\<lambda>e. rbind (de_u64 (vs ! 5)) (\<lambda>f.
       rbind (de_bool (vs ! 6)) (\<lambda>g. rbind (de_bool (vs ! 7)) (\<lambda>h. rbind (de_u64 (vs ! 8)) (\<lambda>i.
       rbind (de_u64 (vs ! 9)) (\<lambda>j. rbind (de_u64 (vs ! 10)) (\<lambda>k. rbind (de_u64 (vs ! 11)) (\<lambda>l.
       Ok \<lparr>node_sync_time = a, timeout_delay = b, sync_retry_delay = c, network_delay = d, max_payload_size = e,
           min_block_delay = f, ddos = g, random_ddos = h, random_ddos_chance = i, fallback_length = j,
           exp_checks = k, leader_window = l\<rparr>)))))))))))))"

definition ser_mempool_parameters :: "MParameters \<Rightarrow> json" where
  "ser_mempool_parameters p = JObject
     [(''queue_capacity'', ser_uint (m_queue_capacity p)), (''sync_retry_delay'', ser_uint (m_sync_retry_delay p)),
      (''max_payload_size'', ser_uint (m_max_payload_size p)), (''min_block_delay'', ser_uint (m_min_block_delay p))]"

definition de_mempool_parameters :: "json \<Rightarrow> MParameters decoded" where
  "de_mempool_parameters v = rbind (visit_struct
     [(''queue_capacity'', unit_of \<circ> de_u64), (''sync_retry_delay'', unit_of \<circ> de_u64),
      (''max_payload_size'', unit_of \<circ> de_u64), (''min_block_delay'', unit_of \<circ> de_u64)] v)
     (\<lambda>vs. rbind (de_u64 (vs ! 0)) (\<lambda>a. rbind (de_u64 (vs ! 1)) (\<lambda>b. rbind (de_u64 (vs ! 2)) (\<lambda>c.
       rbind (de_u64 (vs ! 3)) (\<lambda>d.
       Ok \<lparr>m_queue_capacity = a, m_sync_retry_delay = b, m_max_payload_size = c, m_min_block_delay = d\<rparr>)))))"

definition ser_parameters :: "NodeParameters \<Rightarrow> json" where
  "ser_parameters p = JObject [(''consensus'', ser_consensus_parameters (np_consensus p)),
     (''mempool'', ser_mempool_parameters (np_mempool p)), (''protocol'', ser_uint (np_protocol p))]"

definition de_parameters :: "json \<Rightarrow> NodeParameters decoded" where
  "de_parameters v = rbind (visit_struct [(''consensus'', unit_of \<circ> de_consensus_parameters),
       (''mempool'', unit_of \<circ> de_mempool_parameters), (''protocol'', unit_of \<circ> (de_uint :: json \<Rightarrow> u8 decoded))] v)
     (\<lambda>vs. rbind (de_consensus_parameters (vs ! 0)) (\<lambda>c. rbind (de_mempool_parameters (vs ! 1)) (\<lambda>m.
       rbind (de_uint (vs ! 2)) (\<lambda>p. Ok \<lparr>np_consensus = c, np_mempool = m, np_protocol = p\<rparr>))))"

text \<open>A \<open>HashMap\<close> with keys as member names; a later member with the same key replaces an earlier one.\<close>

definition ser_map :: "'y crypto_ext_scheme \<Rightarrow> ('v \<Rightarrow> json) \<Rightarrow> (PublicKey \<times> 'v) list \<Rightarrow> json" where
  "ser_map E ser al = JObject (map (\<lambda>(k, v). (key_to_base64 E k, ser v)) al)"

fun de_entries :: "'y crypto_ext_scheme \<Rightarrow> (json \<Rightarrow> 'v decoded) \<Rightarrow> (PublicKey \<times> 'v) list \<Rightarrow> (string \<times> json) list \<Rightarrow>
    (PublicKey \<times> 'v) list decoded" where
  "de_entries E de al [] = Ok al"
| "de_entries E de al ((s, v) # kvs) =
     rbind (key_deserialize E (JString s)) (\<lambda>k. rbind (de v) (\<lambda>x. de_entries E de (AList.update k x al) kvs))"

definition de_map :: "'y crypto_ext_scheme \<Rightarrow> (json \<Rightarrow> 'v decoded) \<Rightarrow> json \<Rightarrow> (PublicKey \<times> 'v) list decoded" where
  "de_map E de v = (case v of JObject kvs \<Rightarrow> de_entries E de [] kvs | _ \<Rightarrow> Err ())"

definition ser_authority :: "'y crypto_ext_scheme \<Rightarrow> Authority \<Rightarrow> json" where
  "ser_authority E a = JObject [(''name'', key_serialize E (a_name a)), (''id'', ser_uint (a_id a)),
     (''stake'', ser_uint (a_stake a)), (''address'', ser_addr (a_address a)), (''smvba_address'', ser_addr (a_smvba_address a))]"

definition de_authority :: "'y crypto_ext_scheme \<Rightarrow> 'z json_ext_scheme \<Rightarrow> json \<Rightarrow> Authority decoded" where
  "de_authority E J v = rbind (visit_struct
       [(''name'', unit_of \<circ> key_deserialize E), (''id'', unit_of \<circ> de_u64), (''stake'', unit_of \<circ> (de_uint :: json \<Rightarrow> u32 decoded)),
        (''address'', unit_of \<circ> de_addr J), (''smvba_address'', unit_of \<circ> de_addr J)] v)
     (\<lambda>vs. rbind (key_deserialize E (vs ! 0)) (\<lambda>name. rbind (de_u64 (vs ! 1)) (\<lambda>i. rbind (de_uint (vs ! 2)) (\<lambda>st.
       rbind (de_addr J (vs ! 3)) (\<lambda>addr. rbind (de_addr J (vs ! 4)) (\<lambda>smvba.
       Ok \<lparr>a_name = name, a_id = i, a_stake = st, a_address = addr, a_smvba_address = smvba\<rparr>))))))"

definition ser_mauthority :: "'y crypto_ext_scheme \<Rightarrow> MAuthority \<Rightarrow> json" where
  "ser_mauthority E a = JObject [(''name'', key_serialize E (ma_name a)), (''front_address'', ser_addr (ma_front_address a)),
     (''mempool_address'', ser_addr (ma_mempool_address a))]"

definition de_mauthority :: "'y crypto_ext_scheme \<Rightarrow> 'z json_ext_scheme \<Rightarrow> json \<Rightarrow> MAuthority decoded" where
  "de_mauthority E J v = rbind (visit_struct [(''name'', unit_of \<circ> key_deserialize E),
       (''front_address'', unit_of \<circ> de_addr J), (''mempool_address'', unit_of \<circ> de_addr J)] v)
     (\<lambda>vs. rbind (key_deserialize E (vs ! 0)) (\<lambda>name. rbind (de_addr J (vs ! 1)) (\<lambda>front. rbind (de_addr J (vs ! 2)) (\<lambda>mempool.
       Ok \<lparr>ma_name = name, ma_front_address = front, ma_mempool_address = mempool\<rparr>))))"

definition ser_consensus_committee :: "'y crypto_ext_scheme \<Rightarrow> Committee \<Rightarrow> json" where
  "ser_consensus_committee E c =
     JObject [(''authorities'', ser_map E (ser_authority E) (authorities c)), (''epoch'', ser_uint (c_epoch c))]"

definition de_consensus_committee :: "'y crypto_ext_scheme \<Rightarrow> 'z json_ext_scheme \<Rightarrow> json \<Rightarrow> Committee decoded" where
  "de_consensus_committee E J v = rbind (visit_struct [(''authorities'', unit_of \<circ> de_map E (de_authority E J)),
       (''epoch'', unit_of \<circ> (de_uint :: json \<Rightarrow> EpochNumber decoded))] v)
     (\<lambda>vs. rbind (de_map E (de_authority E J) (vs ! 0)) (\<lambda>al. rbind (de_uint (vs ! 1)) (\<lambda>ep.
       Ok \<lparr>authorities = al, c_epoch = ep\<rparr>)))"

definition ser_mempool_committee :: "'y crypto_ext_scheme \<Rightarrow> MCommittee \<Rightarrow> json" where
  "ser_mempool_committee E c =
     JObject [(''authorities'', ser_map E (ser_mauthority E) (m_authorities c)), (''epoch'', ser_uint (m_epoch c))]"

definition de_mempool_committee :: "'y crypto_ext_scheme \<Rightarrow> 'z json_ext_scheme \<Rightarrow> json \<Rightarrow> MCommittee decoded" where
  "de_mempool_committee E J v = rbind (visit_struct [(''authorities'', unit_of \<circ> de_map E (de_mauthority E J)),
       (''epoch'', unit_of \<circ> (de_uint :: json \<Rightarrow> EpochNumber decoded))] v)
     (\<lambda>vs. rbind (de_map E (de_mauthority E J) (vs ! 0)) (\<lambda>al. rbind (de_uint (vs ! 1)) (\<lambda>ep.
       Ok \<lparr>m_authorities = al, m_epoch = ep\<rparr>)))"

text \<open>\<open>Committee\<close> of \<open>node/src/config.rs\<close> pairs the two committees.\<close>

type_synonym CommitteeFile = "Committee \<times> MCommittee"

definition ser_committee :: "'y crypto_ext_scheme \<Rightarrow> CommitteeFile \<Rightarrow> json" where
  "ser_committee E c =
     JObject [(''consensus'', ser_consensus_committee E (fst c)), (''mempool'', ser_mempool_committee E (snd c))]"

definition de_committee :: "'y crypto_ext_scheme \<Rightarrow> 'z json_ext_scheme \<Rightarrow> json \<Rightarrow> CommitteeFile decoded" where
  "de_committee E J v = rbind (visit_struct [(''consensus'', unit_of \<circ> de_consensus_committee E J),
       (''mempool'', unit_of \<circ> de_mempool_committee E J)] v)
     (\<lambda>vs. rbind (de_consensus_committee E J (vs ! 0)) (\<lambda>c. rbind (de_mempool_committee E J (vs ! 1)) (\<lambda>mc. Ok (c, mc))))"

section \<open>Reading and writing files\<close>

datatype NodeError =
    ReadError string string
  | WriteError string string
  | NodeStoreError StoreError
  | NodeConsensusError ConsensusError
  | NodeMempoolError MempoolError

text \<open>Files by path; \<open>fs_refuses\<close> is the error the operating system gives for opening a path, if it does.\<close>

record FileSystem =
  fs_files :: "string \<rightharpoonup> bytes"
  fs_refuses :: "string \<rightharpoonup> string"

definition fs_read :: "FileSystem \<Rightarrow> string \<Rightarrow> (string, bytes) result" where
  "fs_read fs path = (case fs_refuses fs path of
     Some e \<Rightarrow> Err e
   | None \<Rightarrow> ok_or ''No such file or directory (os error 2)'' (fs_files fs path))"

text \<open>A file opened with \<open>create\<close> and \<open>write\<close> but not \<open>truncate\<close>: what is written replaces the beginning of the old contents.\<close>

definition fs_overwrite :: "string \<Rightarrow> bytes \<Rightarrow> FileSystem \<Rightarrow> FileSystem" where
  "fs_overwrite path data fs = fs\<lparr>fs_files := (fs_files fs)(path \<mapsto>
     data @ drop (length data) (case fs_files fs path of Some old \<Rightarrow> old | None \<Rightarrow> []))\<rparr>"

text \<open>\<open>fs::remove_file\<close>; the callers ignore its result.\<close>

definition fs_remove :: "string \<Rightarrow> FileSystem \<Rightarrow> FileSystem" where
  "fs_remove path fs = (if fs_refuses fs path = None then fs\<lparr>fs_files := (fs_files fs)(path := None)\<rparr> else fs)"

text \<open>\<open>fs::remove_dir_all\<close>, its result ignored as well: all files below the directory.\<close>

definition fs_remove_dir :: "string \<Rightarrow> FileSystem \<Rightarrow> FileSystem" where
  "fs_remove_dir path fs = (if fs_refuses fs path = None
     then fs\<lparr>fs_files := (\<lambda>p. if take (length path + 1) p = path @ ''/'' then None else fs_files fs p)\<rparr> else fs)"

definition export_read :: "'z json_ext_scheme \<Rightarrow> (json \<Rightarrow> 'a decoded) \<Rightarrow> FileSystem \<Rightarrow> string \<Rightarrow> (NodeError, 'a) result" where
  "export_read J de fs path =
     map_err (ReadError path) (rbind (fs_read fs path) (\<lambda>data.
       rbind (ok_or (json_error J data) (json_parse J data)) (\<lambda>v. map_err (\<lambda>_. json_error J data) (de v))))"

definition export_bytes :: "'z json_ext_scheme \<Rightarrow> json \<Rightarrow> bytes" where
  "export_bytes J v = json_text J v @ [10]"

definition export_write :: "'z json_ext_scheme \<Rightarrow> ('a \<Rightarrow> json) \<Rightarrow> 'a \<Rightarrow> string \<Rightarrow> (FileSystem, NodeError, unit) comp" where
  "export_write J ser x path = readM (\<lambda>fs. case fs_refuses fs path of
     Some e \<Rightarrow> liftR (Err (WriteError path e))
   | None \<Rightarrow> modifyM (fs_overwrite path (export_bytes J (ser x))))"

section \<open>What a written file holds\<close>

locale exported =
  fixes J :: "'z json_ext_scheme" and ser :: "'a \<Rightarrow> json" and de :: "json \<Rightarrow> 'a decoded" and ok :: "'a \<Rightarrow> bool"
  assumes decode_encode: "ok x \<Longrightarrow> de (ser x) = Ok x" and plain: "ok x \<Longrightarrow> plain_json 127 (ser x)"
begin

lemma write_effect:
  assumes "fs_refuses fs path = None"
  shows "export_write J ser x path fs = (fs_overwrite path (export_bytes J (ser x)) fs, Ok ())"
  using assms by (simp add: export_write_def comp_defs)

text \<open>
  What is read after a write: the value itself if nothing but white space of an older and longer file is left behind it,
  an error otherwise.
\<close>

lemma written_then_read:
  assumes "json_ok J" and "ok x" and "fs_refuses fs path = None"
  shows "export_read J de (fst (export_write J ser x path fs)) path =
    (let tail = drop (length (export_bytes J (ser x))) (case fs_files fs path of Some old \<Rightarrow> old | None \<Rightarrow> [])
     in if white_space tail then Ok x else Err (ReadError path (json_error J (export_bytes J (ser x) @ tail))))"
  using assms by (simp add: write_effect export_read_def fs_read_def fs_overwrite_def export_bytes_def json_ok_def
      decode_encode plain Let_def split: option.splits)

lemma fresh_then_read:
  assumes "json_ok J" and "ok x" and "fs_refuses fs path = None" and "fs_files fs path = None"
  shows "export_read J de (fst (export_write J ser x path fs)) path = Ok x"
  using written_then_read [OF assms(1-3)] assms(4) by (simp add: white_space_def)

lemma write_elsewhere:
  "path' \<noteq> path \<Longrightarrow> fs_files (fst (export_write J ser x path fs)) path' = fs_files fs path' \<and>
    fs_refuses (fst (export_write J ser x path fs)) = fs_refuses fs"
  by (simp add: export_write_def comp_defs fs_overwrite_def split: option.splits)

end

subsection \<open>The four exported types\<close>

lemma de_ser_uint [simp]: "de_uint (ser_uint w) = Ok w"
  using uint_bounded [of w] by (simp add: de_uint_def ser_uint_def)

lemma de_u64_uint [simp]: "de_u64 (ser_uint w) = Ok w"
  by (simp add: de_u64_def)

lemma de_bool_JBool [simp]: "de_bool (JBool b) = Ok b"
  by (simp add: de_bool_def)

lemma de_ser_addr [simp]: "is_ipv4 (sa_ip a) \<Longrightarrow> de_addr J (ser_addr a) = Ok a"
  by (simp add: de_addr_def ser_addr_def de_string_def parse_addr_to_string)

lemma key_deserialize_base64 [simp]:
  "base64_ok E \<Longrightarrow> length (key_bytes k) = 32 \<Longrightarrow> key_deserialize E (JString (key_to_base64 E k)) = Ok k"
  by (simp add: key_deserialize_def de_string_def key_from_base64_def key_to_base64_def base64_ok_def slice_to_def)

lemma key_serde [simp]: "base64_ok E \<Longrightarrow> length (key_bytes k) = 32 \<Longrightarrow> key_deserialize E (key_serialize E k) = Ok k"
  by (simp add: key_serialize_def)

lemma secret_serde [simp]:
  "base64_ok E \<Longrightarrow> length (secret_bytes k) = 64 \<Longrightarrow> secret_deserialize E (secret_serialize E k) = Ok k"
  by (simp add: secret_deserialize_def secret_serialize_def de_string_def secret_from_base64_def secret_to_base64_def
      base64_ok_def slice_to_def)

lemma unit_of_Ok [simp]: "unit_of (Ok x) = Ok ()"
  by (simp add: unit_of_def)

lemmas struct_defs = visit_struct_def

text \<open>What the four types serialise to is within the limits of the parser.\<close>

lemma plain_uint: "LENGTH('a) \<le> 128 \<Longrightarrow> plain_json n (ser_uint (w :: 'a::len word))"
proof -
  assume "LENGTH('a) \<le> 128"
  then have "(2 :: int) ^ LENGTH('a) \<le> 2 ^ 128" by (intro power_increasing) simp_all
  with uint_bounded [of w] have "uint w < 2 ^ 128" by (rule less_le_trans)
  moreover have "- (2 ^ 127) \<le> uint w" using uint_ge_0 [of w] by (rule order_trans [rotated]) simp
  ultimately show ?thesis unfolding ser_uint_def plain_json.simps by blast
qed

lemma plain_object: "0 < n \<Longrightarrow> plain_json n (JObject kvs) = list_all (plain_json (n - 1) \<circ> snd) kvs"
  by (cases n) simp_all

lemma plain_array: "0 < n \<Longrightarrow> plain_json n (JArray vs) = list_all (plain_json (n - 1)) vs"
  by (cases n) simp_all

lemma plain_strings: "plain_json n (key_serialize E k)" "plain_json n (secret_serialize E x)" "plain_json n (ser_addr a)"
  by (simp_all add: key_serialize_def secret_serialize_def ser_addr_def)

lemma plain_parameters: "0 < n \<Longrightarrow> plain_json n (ser_consensus_parameters p)" "0 < n \<Longrightarrow> plain_json n (ser_mempool_parameters q)"
  by (simp_all add: ser_consensus_parameters_def ser_mempool_parameters_def plain_uint plain_object)

lemmas plain_simps = plain_uint plain_object plain_array plain_strings plain_parameters

definition secret_wf :: "'y crypto_ext_scheme \<Rightarrow> Secret \<Rightarrow> bool" where
  "secret_wf E x \<longleftrightarrow> base64_ok E \<and> length (key_bytes (sec_name x)) = 32 \<and> length (secret_bytes (sec_secret x)) = 64"

interpretation secret_file: exported J "ser_secret E" "de_secret E" "secret_wf E" for J E
  by unfold_locales (simp_all add: ser_secret_def de_secret_def struct_defs secret_wf_def plain_simps)

interpretation share_file: exported J "ser_share J" "de_share J" "\<lambda>_. tss_serde_ok J" for J
  by unfold_locales (simp_all add: ser_share_def de_share_def struct_defs tss_serde_ok_def secret_share_new_def plain_simps)

lemma de_ser_consensus_parameters [simp]: "de_consensus_parameters (ser_consensus_parameters p) = Ok p"
  by (simp add: ser_consensus_parameters_def de_consensus_parameters_def struct_defs)

lemma de_ser_mempool_parameters [simp]: "de_mempool_parameters (ser_mempool_parameters p) = Ok p"
  by (simp add: ser_mempool_parameters_def de_mempool_parameters_def struct_defs)

interpretation parameters_file: exported J ser_parameters de_parameters "\<lambda>_. True" for J
  by unfold_locales (simp_all add: ser_parameters_def de_parameters_def struct_defs plain_simps)

text \<open>The committee file: distinct keys of 32 bytes, IPv4 addresses.\<close>

lemma update_absent: "k \<notin> fst ` set al \<Longrightarrow> AList.update k v al = al @ [(k, v)]"
  by (induction al) auto

lemma de_entries_map:
  assumes "base64_ok E" and "distinct (map fst (al @ bl))"
    and "\<And>k v. (k, v) \<in> set bl \<Longrightarrow> length (key_bytes k) = 32 \<and> de (ser v) = Ok v"
  shows "de_entries E de al (map (\<lambda>(k, v). (key_to_base64 E k, ser v)) bl) = Ok (al @ bl)"
  using assms(2,3)
proof (induction bl arbitrary: al)
  case Nil
  then show ?case by simp
next
  case (Cons x bl)
  obtain k v where x: "x = (k, v)" by force
  have "AList.update k v al = al @ [(k, v)]" using Cons.prems(1) x by (intro update_absent) auto
  moreover have "de_entries E de (al @ [(k, v)]) (map (\<lambda>(k, v). (key_to_base64 E k, ser v)) bl) = Ok ((al @ [(k, v)]) @ bl)"
    using Cons.prems x by (intro Cons.IH) auto
  ultimately show ?case using Cons.prems(2) [of k v] x assms(1) by simp
qed

definition authority_wf :: "PublicKey \<times> Authority \<Rightarrow> bool" where
  "authority_wf = (\<lambda>(k, a). length (key_bytes k) = 32 \<and> length (key_bytes (a_name a)) = 32 \<and>
     is_ipv4 (sa_ip (a_address a)) \<and> is_ipv4 (sa_ip (a_smvba_address a)))"

definition mauthority_wf :: "PublicKey \<times> MAuthority \<Rightarrow> bool" where
  "mauthority_wf = (\<lambda>(k, a). length (key_bytes k) = 32 \<and> length (key_bytes (ma_name a)) = 32 \<and>
     is_ipv4 (sa_ip (ma_front_address a)) \<and> is_ipv4 (sa_ip (ma_mempool_address a)))"

definition committee_wf :: "'y crypto_ext_scheme \<Rightarrow> CommitteeFile \<Rightarrow> bool" where
  "committee_wf E = (\<lambda>(c, mc). base64_ok E \<and>
     distinct (map fst (authorities c)) \<and> list_all authority_wf (authorities c) \<and>
     distinct (map fst (m_authorities mc)) \<and> list_all mauthority_wf (m_authorities mc))"

lemma authority_length: "authority_wf (k, a) \<Longrightarrow> length (key_bytes k) = 32"
  by (simp add: authority_wf_def)

lemma de_ser_authority: "base64_ok E \<Longrightarrow> authority_wf (k, a) \<Longrightarrow> de_authority E J (ser_authority E a) = Ok a"
  by (simp add: ser_authority_def de_authority_def struct_defs authority_wf_def)

lemma mauthority_length: "mauthority_wf (k, a) \<Longrightarrow> length (key_bytes k) = 32"
  by (simp add: mauthority_wf_def)

lemma de_ser_mauthority: "base64_ok E \<Longrightarrow> mauthority_wf (k, a) \<Longrightarrow> de_mauthority E J (ser_mauthority E a) = Ok a"
  by (simp add: ser_mauthority_def de_mauthority_def struct_defs mauthority_wf_def)

lemma de_ser_map:
  assumes "base64_ok E" and "distinct (map fst al)"
    and "\<And>k v. (k, v) \<in> set al \<Longrightarrow> length (key_bytes k) = 32 \<and> de (ser v) = Ok v"
  shows "de_map E de (ser_map E ser al) = Ok al"
  using de_entries_map [of E "[]" al de ser] assms by (simp add: de_map_def ser_map_def)

lemma de_ser_consensus_committee:
  assumes "committee_wf E (c, mc)"
  shows "de_consensus_committee E J (ser_consensus_committee E c) = Ok c"
proof -
  have "de_map E (de_authority E J) (ser_map E (ser_authority E) (authorities c)) = Ok (authorities c)"
    using assms by (intro de_ser_map) (auto simp: committee_wf_def list_all_iff authority_length intro: de_ser_authority)
  then show ?thesis
    by (simp add: de_consensus_committee_def ser_consensus_committee_def struct_defs)
qed

lemma de_ser_mempool_committee:
  assumes "committee_wf E (c, mc)"
  shows "de_mempool_committee E J (ser_mempool_committee E mc) = Ok mc"
proof -
  have "de_map E (de_mauthority E J) (ser_map E (ser_mauthority E) (m_authorities mc)) = Ok (m_authorities mc)"
    using assms by (intro de_ser_map) (auto simp: committee_wf_def list_all_iff mauthority_length intro: de_ser_mauthority)
  then show ?thesis
    by (simp add: de_mempool_committee_def ser_mempool_committee_def struct_defs)
qed

interpretation committee_file: exported J "ser_committee E" "de_committee E J" "committee_wf E" for J E
proof
  show "de_committee E J (ser_committee E x) = Ok x" if "committee_wf E x" for x
    using that by (cases x) (simp add: ser_committee_def de_committee_def struct_defs de_ser_consensus_committee de_ser_mempool_committee)
  show "plain_json 127 (ser_committee E x)" if "committee_wf E x" for x
    by (simp add: ser_committee_def ser_consensus_committee_def ser_mempool_committee_def ser_map_def ser_authority_def
        ser_mauthority_def list_all_iff plain_simps split: prod.splits)
qed

text \<open>A key file is no file of a threshold share: it has no member \<open>id\<close>.\<close>

lemma key_file_is_no_share: "de_share J (ser_secret E x) = Err ()"
  by (cases "pk_share_of_json J (key_serialize E (sec_name x))"; cases "sk_share_of_json J (secret_serialize E (sec_secret x))")
    (simp_all add: de_share_def ser_secret_def struct_defs unit_of_def)

end
