(* ===== verification/Network.thy ===== *)
theory Network
  imports Config "HOL-Library.Sublist"
begin

text \<open>
  The network layer (\<open>network/src/lib.rs\<close>, \<open>mempool/src/front.rs\<close>): the sender, which keeps one worker with its own channel
  per peer, and the receivers, which turn the frames of their connections into messages. TCP and the framing are outside the
  model: a worker may fail at any time, a connection carries a list of frames of which one may be broken. The steps of the
  tasks interleave freely (\<open>net_step\<close>, \<open>receiver_step\<close>). The lemmas show that a peer gets what was sent to it
  in order, without duplicates, up to losses, and that a receiver delivers each connection in order up to
  its first broken frame.
\<close>

section \<open>Sender\<close>

datatype NetMessage = NetMessage (net_bytes: bytes) (net_addresses: "SocketAddr list")

record Worker =
  wk_address :: SocketAddr
  wk_queue :: "bytes list"
  wk_alive :: bool

text \<open>
  \<open>ns_transmit\<close> lists what is still to come on the channel, \<open>ns_current\<close> the message being distributed with the addresses left;
  \<open>ns_senders\<close> maps an address to the index of its worker in the list of all workers ever spawned. \<open>ns_wire\<close> records what the
  workers have written to their connections.
\<close>

record NetSender =
  ns_transmit :: "NetMessage list"
  ns_current :: "bytes \<times> SocketAddr list"
  ns_senders :: "SocketAddr \<rightharpoonup> nat"
  ns_workers :: "Worker list"
  ns_wire :: "(SocketAddr \<times> bytes) list"

definition net_sender_new :: "NetMessage list \<Rightarrow> NetSender" where
  "net_sender_new transmit =
     \<lparr>ns_transmit = transmit, ns_current = ([], []), ns_senders = Map.empty, ns_workers = [], ns_wire = []\<rparr>"

text \<open>
  A new worker takes the message, unless its connection has failed before the message is handed to it (\<open>up\<close> is false): then
  it is not registered, and the message is lost.
\<close>

definition spawn_worker :: "bool \<Rightarrow> SocketAddr \<Rightarrow> bytes \<Rightarrow> NetSender \<Rightarrow> NetSender" where
  "spawn_worker up addr msg n = (if up then n\<lparr>
     ns_senders := (ns_senders n)(addr \<mapsto> length (ns_workers n)),
     ns_workers := ns_workers n @ [\<lparr>wk_address = addr, wk_queue = [msg], wk_alive = True\<rparr>]\<rparr> else n)"

definition push_worker :: "nat \<Rightarrow> bytes \<Rightarrow> NetSender \<Rightarrow> NetSender" where
  "push_worker i msg n = n\<lparr>ns_workers := (ns_workers n)[i := (ns_workers n ! i)\<lparr>wk_queue := wk_queue (ns_workers n ! i) @ [msg]\<rparr>]\<rparr>"

text \<open>Sending to a worker that has returned is an error, after which a new one is spawned.\<close>

definition net_send_one :: "bool \<Rightarrow> bytes \<Rightarrow> SocketAddr \<Rightarrow> NetSender \<Rightarrow> NetSender" where
  "net_send_one up msg addr n = (case ns_senders n addr of
     Some i \<Rightarrow> if wk_alive (ns_workers n ! i) then push_worker i msg n else spawn_worker up addr msg n
   | None \<Rightarrow> spawn_worker up addr msg n)"

text \<open>A worker writes its next message to the connection, or returns and drops what it had.\<close>

definition worker_sends :: "nat \<Rightarrow> NetSender \<Rightarrow> NetSender" where
  "worker_sends i n = (if i < length (ns_workers n) \<and> wk_alive (ns_workers n ! i) then
     (case wk_queue (ns_workers n ! i) of
        msg # msgs \<Rightarrow> n\<lparr>ns_workers := (ns_workers n)[i := (ns_workers n ! i)\<lparr>wk_queue := msgs\<rparr>],
                         ns_wire := ns_wire n @ [(wk_address (ns_workers n ! i), msg)]\<rparr>
      | [] \<Rightarrow> n) else n)"

definition worker_dies :: "nat \<Rightarrow> NetSender \<Rightarrow> NetSender" where
  "worker_dies i n = n\<lparr>ns_workers := (ns_workers n)[i := (ns_workers n ! i)\<lparr>wk_alive := False, wk_queue := []\<rparr>]\<rparr>"

inductive net_step :: "NetSender \<Rightarrow> NetSender \<Rightarrow> bool" where
  take: "ns_current n = (old, []) \<Longrightarrow> ns_transmit n = NetMessage msg addrs # rest \<Longrightarrow>
    net_step n (n\<lparr>ns_transmit := rest, ns_current := (msg, addrs)\<rparr>)"
| forward: "ns_current n = (msg, addr # addrs) \<Longrightarrow> net_step n (net_send_one up msg addr (n\<lparr>ns_current := (msg, addrs)\<rparr>))"
| sends: "net_step n (worker_sends i n)"
| dies: "net_step n (worker_dies i n)"

section \<open>Receivers\<close>

text \<open>A frame is the bytes of a message, or \<open>None\<close> for a broken one. What a worker delivers of the frames of its connection:\<close>

fun receive_frames :: "(bytes \<Rightarrow> 'm option) \<Rightarrow> bytes option list \<Rightarrow> 'm list" where
  "receive_frames de [] = []"
| "receive_frames de (frame # frames) = (case Option.bind frame de of
     Some msg \<Rightarrow> msg # receive_frames de frames
   | None \<Rightarrow> [])"

text \<open>
  \<open>rv_accepted\<close> lists the connections in the order they were accepted with all the frames they carry, \<open>rv_left\<close> the frames
  each worker has still to read (none once it has returned), \<open>rv_deliver\<close> what was sent to the owner of the
  receiver, with the number of the connection it came from.
\<close>

record 'm NetReceiver =
  rv_accepted :: "bytes option list list"
  rv_left :: "bytes option list list"
  rv_deliver :: "(nat \<times> 'm) list"

text \<open>\<open>run\<close> panics when the address cannot be bound.\<close>

definition net_receiver_run :: "bool \<Rightarrow> ('e, 'm NetReceiver) result" where
  "net_receiver_run bound = (if bound then Ok \<lparr>rv_accepted = [], rv_left = [], rv_deliver = []\<rparr> else Panic)"

definition accept_connection :: "bytes option list option \<Rightarrow> 'm NetReceiver \<Rightarrow> 'm NetReceiver" where
  "accept_connection conn r = (case conn of
     Some frames \<Rightarrow> r\<lparr>rv_accepted := rv_accepted r @ [frames], rv_left := rv_left r @ [frames]\<rparr>
   | None \<Rightarrow> r)"

definition worker_receives :: "(bytes \<Rightarrow> 'm option) \<Rightarrow> nat \<Rightarrow> 'm NetReceiver \<Rightarrow> 'm NetReceiver" where
  "worker_receives de i r = (if i < length (rv_left r) then (case rv_left r ! i of
     frame # frames \<Rightarrow> (case Option.bind frame de of
        Some msg \<Rightarrow> r\<lparr>rv_left := (rv_left r)[i := frames], rv_deliver := rv_deliver r @ [(i, msg)]\<rparr>
      | None \<Rightarrow> r\<lparr>rv_left := (rv_left r)[i := []]\<rparr>)
   | [] \<Rightarrow> r) else r)"

inductive receiver_step :: "(bytes \<Rightarrow> 'm option) \<Rightarrow> 'm NetReceiver \<Rightarrow> 'm NetReceiver \<Rightarrow> bool" for de where
  accept: "receiver_step de r (accept_connection conn r)"
| frame: "receiver_step de r (worker_receives de i r)"

text \<open>The front end of the mempool listens in the same way and delivers the bytes of every frame as a transaction.\<close>

definition front_run :: "bool \<Rightarrow> ('e, bytes NetReceiver) result" where
  "front_run bound = (if bound then Ok \<lparr>rv_accepted = [], rv_left = [], rv_deliver = []\<rparr> else Panic)"

definition front_accept :: "bytes option list option \<Rightarrow> bytes NetReceiver \<Rightarrow> bytes NetReceiver" where
  "front_accept conn r = accept_connection conn r"

definition front_receives :: "nat \<Rightarrow> bytes NetReceiver \<Rightarrow> bytes NetReceiver" where
  "front_receives i r = worker_receives Some i r"

section \<open>What a peer gets\<close>

text \<open>The messages of a list that are addressed to \<open>a\<close>, one for every time \<open>a\<close> is named, and what was written to it.\<close>

definition addressed :: "SocketAddr \<Rightarrow> NetMessage \<Rightarrow> bytes list" where
  "addressed a m = map (\<lambda>_. net_bytes m) (filter (\<lambda>x. x = a) (net_addresses m))"

definition inputs_to :: "SocketAddr \<Rightarrow> NetMessage list \<Rightarrow> bytes list" where
  "inputs_to a ms = concat (map (addressed a) ms)"

definition wire_to :: "SocketAddr \<Rightarrow> NetSender \<Rightarrow> bytes list" where
  "wire_to a n = map snd (filter (\<lambda>x. fst x = a) (ns_wire n))"

text \<open>At most one live worker per address, the registered one.\<close>

definition sender_ok :: "NetSender \<Rightarrow> bool" where
  "sender_ok n \<longleftrightarrow>
     (\<forall>addr i. ns_senders n addr = Some i \<longrightarrow> i < length (ns_workers n) \<and> wk_address (ns_workers n ! i) = addr) \<and>
     (\<forall>i < length (ns_workers n). wk_alive (ns_workers n ! i) \<longrightarrow> ns_senders n (wk_address (ns_workers n ! i)) = Some i)"

text \<open>The queue of the live worker of an address, empty if there is none.\<close>

definition queue_of :: "SocketAddr \<Rightarrow> NetSender \<Rightarrow> bytes list" where
  "queue_of addr n = (case ns_senders n addr of
     Some i \<Rightarrow> if wk_alive (ns_workers n ! i) then wk_queue (ns_workers n ! i) else []
   | None \<Rightarrow> [])"

definition todo_to :: "SocketAddr \<Rightarrow> NetSender \<Rightarrow> bytes list" where
  "todo_to a n = addressed a (NetMessage (fst (ns_current n)) (snd (ns_current n))) @ inputs_to a (ns_transmit n)"

definition fifo_to :: "SocketAddr \<Rightarrow> NetMessage list \<Rightarrow> NetSender \<Rightarrow> bool" where
  "fifo_to a ms n \<longleftrightarrow> subseq (wire_to a n @ queue_of a n @ todo_to a n) (inputs_to a ms)"

lemma sender_okD: "sender_ok n \<Longrightarrow> ns_senders n a = Some i \<Longrightarrow> i < length (ns_workers n) \<and> wk_address (ns_workers n ! i) = a"
  by (simp add: sender_ok_def)

lemma sender_ok_live:
  "sender_ok n \<Longrightarrow> i < length (ns_workers n) \<Longrightarrow> wk_alive (ns_workers n ! i) \<Longrightarrow> ns_senders n (wk_address (ns_workers n ! i)) = Some i"
  by (simp add: sender_ok_def)

lemma sender_ok_new [simp]: "sender_ok (net_sender_new ms)"
  by (simp add: sender_ok_def net_sender_new_def)

lemma sender_ok_current [simp]: "sender_ok (n\<lparr>ns_current := c\<rparr>) \<longleftrightarrow> sender_ok n" "sender_ok (n\<lparr>ns_transmit := t\<rparr>) \<longleftrightarrow> sender_ok n"
  by (simp_all add: sender_ok_def)

lemma queue_of_current [simp]: "queue_of a (n\<lparr>ns_current := c\<rparr>) = queue_of a n" "queue_of a (n\<lparr>ns_transmit := t\<rparr>) = queue_of a n"
  by (simp_all add: queue_of_def split: option.splits)

text \<open>Sending appends to the queue of the address or loses the message, and leaves the other queues alone.\<close>

lemma sender_ok_send_one: "sender_ok n \<Longrightarrow> sender_ok (net_send_one up msg addr n)"
  by (auto simp: sender_ok_def net_send_one_def spawn_worker_def push_worker_def nth_append nth_list_update less_Suc_eq
      split: option.splits if_splits)

lemma queue_of_send_one:
  assumes "sender_ok n"
  shows "queue_of a (net_send_one up msg addr n) = (if a = addr then queue_of a n @ [msg] else queue_of a n) \<or>
    queue_of a (net_send_one up msg addr n) = queue_of a n"
proof (cases "\<exists>i. ns_senders n addr = Some i \<and> wk_alive (ns_workers n ! i)")
  case True
  then obtain i where i: "ns_senders n addr = Some i" "wk_alive (ns_workers n ! i)" by blast
  have sent: "net_send_one up msg addr n = push_worker i msg n" using i by (simp add: net_send_one_def)
  have "j \<noteq> i" if "ns_senders n a = Some j" "a \<noteq> addr" for j
    using sender_okD [OF assms that(1)] sender_okD [OF assms i(1)] that(2) by auto
  then show ?thesis
    using i sender_okD [OF assms i(1)] by (cases "a = addr") (auto simp: sent queue_of_def push_worker_def split: option.splits)
next
  case False
  then have "net_send_one up msg addr n = spawn_worker up addr msg n" and "queue_of addr n = []"
    by (auto simp: net_send_one_def queue_of_def split: option.splits)
  then show ?thesis
    by (auto simp: queue_of_def spawn_worker_def nth_append dest: sender_okD [OF assms] split: option.splits)
qed

lemma send_one_frame [simp]:
  "ns_wire (net_send_one up msg addr n) = ns_wire n" "ns_current (net_send_one up msg addr n) = ns_current n"
  "ns_transmit (net_send_one up msg addr n) = ns_transmit n"
  by (simp_all add: net_send_one_def push_worker_def spawn_worker_def split: option.splits)

lemma sender_ok_sends: "sender_ok n \<Longrightarrow> sender_ok (worker_sends i n)"
  by (auto simp: sender_ok_def worker_sends_def nth_list_update split: list.splits)

lemma sender_ok_dies: "sender_ok n \<Longrightarrow> sender_ok (worker_dies i n)"
  by (cases "i < length (ns_workers n)")
    (auto simp: sender_ok_def worker_dies_def nth_list_update list_update_beyond not_less)

lemma sender_ok_step: "net_step n n' \<Longrightarrow> sender_ok n \<Longrightarrow> sender_ok n'"
  by (induction rule: net_step.induct) (simp_all add: sender_ok_send_one sender_ok_sends sender_ok_dies)

lemma queue_of_dies:
  assumes "sender_ok n"
  shows "queue_of a (worker_dies i n) = queue_of a n \<or> queue_of a (worker_dies i n) = []"
  by (cases "i < length (ns_workers n)")
    (auto simp: queue_of_def worker_dies_def nth_list_update list_update_beyond not_less split: option.splits)

lemma queue_of_sends:
  assumes "sender_ok n"
  shows "wire_to a (worker_sends i n) @ queue_of a (worker_sends i n) = wire_to a n @ queue_of a n"
proof (cases "i < length (ns_workers n) \<and> wk_alive (ns_workers n ! i)")
  case live: True
  let ?w = "ns_workers n ! i"
  have reg: "ns_senders n (wk_address ?w) = Some i" using assms live by (simp add: sender_ok_live)
  have other: "j \<noteq> i" if "ns_senders n b = Some j" "b \<noteq> wk_address ?w" for b j
    using sender_okD [OF assms that(1)] that(2) by auto
  show ?thesis
  proof (cases "wk_queue ?w")
    case Nil
    with live show ?thesis by (simp add: worker_sends_def)
  next
    case (Cons msg msgs)
    with live reg show ?thesis
      by (cases "a = wk_address ?w")
        (auto simp: worker_sends_def queue_of_def wire_to_def nth_list_update dest: other split: option.splits)
  qed
next
  case False
  then show ?thesis by (auto simp: worker_sends_def)
qed

lemma fifo_step:
  assumes "net_step n n'" and "sender_ok n" and "fifo_to a ms n"
  shows "fifo_to a ms n'"
  using assms
proof (induction rule: net_step.induct)
  case (take n old msg addrs rest)
  then show ?case by (simp add: fifo_to_def todo_to_def wire_to_def inputs_to_def addressed_def)
next
  case (forward n msg addr addrs up)
  let ?n = "n\<lparr>ns_current := (msg, addrs)\<rparr>"
  have todo: "todo_to a n = (if addr = a then [msg] else []) @ todo_to a ?n"
    using forward.hyps by (simp add: todo_to_def addressed_def)
  have "subseq (queue_of a (net_send_one up msg addr ?n) @ todo_to a ?n) (queue_of a n @ todo_to a n)"
    using queue_of_send_one [of ?n a up msg addr] forward.prems(1) by (auto simp: todo subseq_append')
  then have "subseq (wire_to a n @ queue_of a (net_send_one up msg addr ?n) @ todo_to a ?n) (inputs_to a ms)"
    using forward.prems(2) unfolding fifo_to_def by (meson subseq_append' subseq_order.trans)
  then show ?case by (simp add: fifo_to_def wire_to_def todo_to_def)
next
  case (sends n i)
  have "todo_to a (worker_sends i n) = todo_to a n" by (auto simp: todo_to_def worker_sends_def split: list.splits)
  with sends queue_of_sends [of n a i] show ?case by (simp add: fifo_to_def) (metis append.assoc)
next
  case (dies n i)
  have "todo_to a (worker_dies i n) = todo_to a n" "wire_to a (worker_dies i n) = wire_to a n"
    by (simp_all add: todo_to_def wire_to_def worker_dies_def)
  moreover have "subseq (queue_of a (worker_dies i n)) (queue_of a n)" using queue_of_dies [OF dies.prems(1), of a i] by auto
  ultimately show ?case using dies.prems(2)
    by (simp add: fifo_to_def) (meson subseq_order.trans list_emb_append_mono subseq_order.refl)
qed

lemma net_run_fifo:
  assumes "net_step\<^sup>*\<^sup>* (net_sender_new ms) n"
  shows "subseq (wire_to a n) (inputs_to a ms)"
proof -
  have "sender_ok n \<and> fifo_to a ms n"
    using assms
  proof (induction rule: rtranclp_induct)
    case base
    show ?case by (intro conjI sender_ok_new) (simp add: fifo_to_def wire_to_def queue_of_def todo_to_def net_sender_new_def addressed_def)
  next
    case (step n n')
    then show ?case by (auto intro: sender_ok_step fifo_step)
  qed
  then have "subseq (wire_to a n @ queue_of a n @ todo_to a n) (inputs_to a ms)" by (simp add: fifo_to_def)
  then show ?thesis by (metis subseq_order.trans subseq_append_iff list_emb_Nil append_Nil2 subseq_order.refl)
qed

section \<open>What a receiver delivers\<close>

definition delivered_from :: "nat \<Rightarrow> 'm NetReceiver \<Rightarrow> 'm list" where
  "delivered_from i r = map snd (filter (\<lambda>x. fst x = i) (rv_deliver r))"

definition receiver_ok :: "(bytes \<Rightarrow> 'm option) \<Rightarrow> 'm NetReceiver \<Rightarrow> bool" where
  "receiver_ok de r \<longleftrightarrow> length (rv_left r) = length (rv_accepted r) \<and>
     (\<forall>(i, m) \<in> set (rv_deliver r). i < length (rv_accepted r)) \<and>
     (\<forall>i < length (rv_accepted r).
       delivered_from i r @ receive_frames de (rv_left r ! i) = receive_frames de (rv_accepted r ! i))"

lemma receiver_ok_start: "net_receiver_run bound = Ok r \<Longrightarrow> receiver_ok de r"
  by (auto simp: net_receiver_run_def receiver_ok_def delivered_from_def split: if_splits)

lemma delivered_from_none: "receiver_ok de r \<Longrightarrow> delivered_from (length (rv_accepted r)) r = []"
  by (auto simp: delivered_from_def receiver_ok_def filter_empty_conv)

lemma receiver_ok_accept: "receiver_ok de r \<Longrightarrow> receiver_ok de (accept_connection conn r)"
  using delivered_from_none [of de r]
  by (auto simp: accept_connection_def receiver_ok_def delivered_from_def nth_append less_Suc_eq split: option.splits)

lemma receiver_ok_receives:
  assumes "receiver_ok de r"
  shows "receiver_ok de (worker_receives de i r)"
proof (cases "i < length (rv_left r) \<and> rv_left r ! i \<noteq> []")
  case True
  then obtain frame frames where i: "i < length (rv_left r)" "rv_left r ! i = frame # frames" by (auto simp: neq_Nil_conv)
  have split: "delivered_from i r @ receive_frames de (frame # frames) = receive_frames de (rv_accepted r ! i)"
    using assms i unfolding receiver_ok_def by metis
  show ?thesis
  proof (cases "Option.bind frame de")
    case None
    with assms i split show ?thesis
      by (auto simp: receiver_ok_def worker_receives_def delivered_from_def nth_list_update)
  next
    case (Some msg)
    with assms i split show ?thesis
      by (auto simp: receiver_ok_def worker_receives_def delivered_from_def nth_list_update)
  qed
next
  case False
  then have "worker_receives de i r = r" by (auto simp: worker_receives_def)
  with assms show ?thesis by simp
qed

lemma receiver_run_ok: "(receiver_step de)\<^sup>*\<^sup>* r r' \<Longrightarrow> receiver_ok de r \<Longrightarrow> receiver_ok de r'"
  by (induction rule: rtranclp_induct) (auto elim!: receiver_step.cases simp: receiver_ok_accept receiver_ok_receives)

lemma receive_all: "(\<And>m. de (ser m) = Some m) \<Longrightarrow> receive_frames de (map (Some \<circ> ser) ms) = ms"
  by (induction ms) auto

lemma receive_until_broken:
  assumes "\<And>m. de (ser m) = Some m" and "Option.bind bad de = None"
  shows "receive_frames de (map (Some \<circ> ser) ms @ bad # rest) = ms"
  using assms by (induction ms) auto

text \<open>Frames made of a subsequence of serialised messages deliver a subsequence of these messages.\<close>

lemma subseq_of_map: "subseq xs (map f ys) \<Longrightarrow> \<exists>zs. subseq zs ys \<and> xs = map f zs"
proof (induction ys arbitrary: xs)
  case Nil
  then show ?case by (auto dest: list_emb_Nil2)
next
  case (Cons y ys)
  show ?case
  proof (cases "subseq xs (map f ys)")
    case True
    with Cons.IH show ?thesis by blast
  next
    case False
    with Cons.prems obtain xs' where "xs = f y # xs'" "subseq xs' (map f ys)"
      by (cases xs) (auto split: if_splits)
    moreover from this Cons.IH obtain zs where "subseq zs ys" "xs' = map f zs" by blast
    ultimately have "subseq (y # zs) (y # ys) \<and> xs = map f (y # zs)" by simp
    then show ?thesis by blast
  qed
qed

end
