(* ===== verification/Net_Filter.thy ===== *)
theory Net_Filter
  imports Network Core_State "HOL-Library.Multiset"
begin

text \<open>
  The filter between the core and the network sender (\<open>consensus/src/filter.rs\<close>): each of its two channels has a set of
  pending inputs, every one waiting for its delay; an input whose delay is over is serialised and handed to the sender of its
  channel. bincode is the argument \<open>ser\<close>. The lemmas account for every input, and put the filter, the sender and a
  receiver of another node together.
\<close>

section \<open>The filter\<close>

text \<open>
  How long an input is held back; \<open>coin\<close> is the outcome of \<open>gen_bool\<close>, which panics when it is asked for a probability above one:
  then there is no delay.
\<close>

definition filter_delay :: "Parameters \<Rightarrow> bool \<Rightarrow> ConsensusMessage \<Rightarrow> u64 option" where
  "filter_delay p coin msg = (case msg of
     HsPropose _ \<Rightarrow> if random_ddos p \<and> 100 < random_ddos_chance p then None
                    else if random_ddos p \<and> coin then Some (network_delay p)
                    else if ddos p then Some (network_delay p) else Some 0
   | _ \<Rightarrow> Some 0)"

definition filter_transmit :: "(ConsensusMessage \<Rightarrow> bytes) \<Rightarrow> FilterInput \<Rightarrow> NetMessage" where
  "filter_transmit ser input = NetMessage (ser (fst input)) (snd input)"

text \<open>
  A channel with what is still to be received, what is pending with the time it is due (none when its future panics), and
  what was handed on. The task of the filter ends with the first future that panics.
\<close>

record Lane =
  ln_input :: "FilterInput list"
  ln_pending :: "(nat option \<times> FilterInput) list"
  ln_output :: "NetMessage list"

record Filter =
  ft_core :: Lane
  ft_smvba :: Lane
  ft_now :: nat
  ft_alive :: bool

definition lane_new :: "FilterInput list \<Rightarrow> Lane" where
  "lane_new input = \<lparr>ln_input = input, ln_pending = [], ln_output = []\<rparr>"

definition filter_new :: "FilterInput list \<Rightarrow> FilterInput list \<Rightarrow> Filter" where
  "filter_new core core_smvba = \<lparr>ft_core = lane_new core, ft_smvba = lane_new core_smvba, ft_now = 0, ft_alive = True\<rparr>"

definition lane_recv :: "Parameters \<Rightarrow> bool \<Rightarrow> nat \<Rightarrow> Lane \<Rightarrow> Lane" where
  "lane_recv p coin now l = (case ln_input l of
     input # rest \<Rightarrow> l\<lparr>ln_input := rest,
       ln_pending := ln_pending l @ [(map_option (\<lambda>d. now + unat d) (filter_delay p coin (fst input)), input)]\<rparr>
   | [] \<Rightarrow> l)"

text \<open>Any of the pending inputs that are due may be the next; \<open>i\<close> says which.\<close>

definition due :: "nat \<Rightarrow> nat option \<Rightarrow> bool" where
  "due now t = (case t of Some t \<Rightarrow> t \<le> now | None \<Rightarrow> False)"

definition lane_next :: "(ConsensusMessage \<Rightarrow> bytes) \<Rightarrow> nat \<Rightarrow> nat \<Rightarrow> Lane \<Rightarrow> Lane" where
  "lane_next ser now i l = (if i < length (ln_pending l) \<and> due now (fst (ln_pending l ! i))
     then l\<lparr>ln_pending := take i (ln_pending l) @ drop (Suc i) (ln_pending l),
            ln_output := ln_output l @ [filter_transmit ser (snd (ln_pending l ! i))]\<rparr>
     else l)"

definition lane_panics :: "nat \<Rightarrow> Lane \<Rightarrow> bool" where
  "lane_panics i l \<longleftrightarrow> i < length (ln_pending l) \<and> fst (ln_pending l ! i) = None"

inductive filter_step :: "Parameters \<Rightarrow> (ConsensusMessage \<Rightarrow> bytes) \<Rightarrow> Filter \<Rightarrow> Filter \<Rightarrow> bool" for p ser where
  recv: "ft_alive f \<Longrightarrow> filter_step p ser f (f\<lparr>ft_core := lane_recv p coin (ft_now f) (ft_core f)\<rparr>)"
| recv_smvba: "ft_alive f \<Longrightarrow> filter_step p ser f (f\<lparr>ft_smvba := lane_recv p coin (ft_now f) (ft_smvba f)\<rparr>)"
| pass: "ft_alive f \<Longrightarrow> filter_step p ser f (f\<lparr>ft_core := lane_next ser (ft_now f) i (ft_core f)\<rparr>)"
| pass_smvba: "ft_alive f \<Longrightarrow> filter_step p ser f (f\<lparr>ft_smvba := lane_next ser (ft_now f) i (ft_smvba f)\<rparr>)"
| panics: "lane_panics i (ft_core f) \<or> lane_panics i (ft_smvba f) \<Longrightarrow> filter_step p ser f (f\<lparr>ft_alive := False\<rparr>)"
| tick: "filter_step p ser f (f\<lparr>ft_now := ft_now f + d\<rparr>)"

section \<open>Every input is accounted for\<close>

definition lane_all :: "(ConsensusMessage \<Rightarrow> bytes) \<Rightarrow> Lane \<Rightarrow> NetMessage multiset" where
  "lane_all ser l = mset (ln_output l) + mset (map (filter_transmit ser \<circ> snd) (ln_pending l)) +
     mset (map (filter_transmit ser) (ln_input l))"

lemma lane_all_recv [simp]: "lane_all ser (lane_recv p coin now l) = lane_all ser l"
  by (simp add: lane_all_def lane_recv_def split: list.splits)

lemma lane_all_next [simp]: "lane_all ser (lane_next ser now i l) = lane_all ser l"
proof (cases "i < length (ln_pending l) \<and> due now (fst (ln_pending l ! i))")
  case True
  then have "ln_pending l = take i (ln_pending l) @ ln_pending l ! i # drop (Suc i) (ln_pending l)"
    by (simp add: id_take_nth_drop)
  then have "mset (map (filter_transmit ser \<circ> snd) (ln_pending l)) =
      add_mset (filter_transmit ser (snd (ln_pending l ! i)))
        (mset (map (filter_transmit ser \<circ> snd) (take i (ln_pending l) @ drop (Suc i) (ln_pending l))))"
    by (metis (no_types, lifting) comp_apply list.simps(9) map_append mset.simps(2) mset_append union_mset_add_mset_right)
  with True show ?thesis by (simp add: lane_all_def lane_next_def)
qed (auto simp: lane_next_def)

lemma filter_step_all:
  "filter_step p ser f f' \<Longrightarrow>
     lane_all ser (ft_core f') = lane_all ser (ft_core f) \<and> lane_all ser (ft_smvba f') = lane_all ser (ft_smvba f)"
  by (induction rule: filter_step.induct) simp_all

lemma filter_run_all:
  "(filter_step p ser)\<^sup>*\<^sup>* f f' \<Longrightarrow>
     lane_all ser (ft_core f') = lane_all ser (ft_core f) \<and> lane_all ser (ft_smvba f') = lane_all ser (ft_smvba f)"
  by (induction rule: rtranclp_induct) (auto dest: filter_step_all)

lemma lane_all_new [simp]: "lane_all ser (lane_new input) = mset (map (filter_transmit ser) input)"
  by (simp add: lane_all_def lane_new_def)

lemma filter_outputs:
  assumes "(filter_step p ser)\<^sup>*\<^sup>* (filter_new core core_smvba) f"
  shows "mset (ln_output (ft_core f)) \<subseteq># mset (map (filter_transmit ser) core)"
    and "mset (ln_output (ft_smvba f)) \<subseteq># mset (map (filter_transmit ser) core_smvba)"
proof -
  have "mset (map (filter_transmit ser) core) = lane_all ser (ft_core f)"
    "mset (map (filter_transmit ser) core_smvba) = lane_all ser (ft_smvba f)"
    using filter_run_all [OF assms] by (simp_all add: filter_new_def)
  then show "mset (ln_output (ft_core f)) \<subseteq># mset (map (filter_transmit ser) core)"
    "mset (ln_output (ft_smvba f)) \<subseteq># mset (map (filter_transmit ser) core_smvba)"
    by (simp_all only: lane_all_def add.assoc mset_subset_eq_add_left)
qed

text \<open>Only proposals are held back: every other input may be handed on at once.\<close>

lemma filter_delay_others: "(\<nexists>b. msg = HsPropose b) \<Longrightarrow> filter_delay p coin msg = Some 0"
  by (cases msg) (auto simp: filter_delay_def)

lemma filter_delay_off: "\<not> random_ddos p \<Longrightarrow> \<not> ddos p \<Longrightarrow> filter_delay p coin msg = Some 0"
  by (simp add: filter_delay_def split: ConsensusMessage.splits)

section \<open>From core to core\<close>

text \<open>The messages of a list of inputs that are meant for an address, one for every time it is named.\<close>

definition meant_for :: "SocketAddr \<Rightarrow> FilterInput list \<Rightarrow> ConsensusMessage list" where
  "meant_for a inputs = concat (map (\<lambda>(m, addrs). map (\<lambda>_. m) (filter (\<lambda>x. x = a) addrs)) inputs)"

lemma meant_for_sent: "set (meant_for a inputs) \<subseteq> fst ` set inputs"
  by (force simp: meant_for_def)

lemma addressed_transmit:
  "inputs_to a (map (filter_transmit ser) inputs) = map ser (meant_for a inputs)"
  by (induction inputs) (auto simp: inputs_to_def meant_for_def addressed_def filter_transmit_def)

lemma mset_inputs_to: "mset (inputs_to a ms) = (\<Sum>m\<in>#mset ms. mset (addressed a m))"
  by (induction ms) (simp_all add: inputs_to_def)

lemma inputs_to_mono:
  assumes "mset ms \<subseteq># mset ms'"
  shows "mset (inputs_to a ms) \<subseteq># mset (inputs_to a ms')"
proof -
  obtain r where r: "mset ms' = mset ms + r" using assms by (metis mset_subset_eq_exists_conv)
  show ?thesis by (simp add: mset_inputs_to r)
qed

lemma subseq_mset: "subseq xs ys \<Longrightarrow> mset xs \<subseteq># mset ys"
proof (induction rule: list_emb.induct)
  case (list_emb_Cons xs ys y)
  then show ?case by (metis add_mset_add_single mset.simps(2) mset_subset_eq_add_left subset_mset.order_trans)
qed simp_all

lemma submset_of_image: "M \<subseteq># image_mset g N \<Longrightarrow> \<exists>N'. N' \<subseteq># N \<and> M = image_mset g N'"
  by (metis image_mset_eq_plusD mset_subset_eq_add_left subset_mset.add_diff_inverse)

lemma receive_bytes:
  "(\<And>z. z \<in> set zs \<Longrightarrow> de z \<noteq> None) \<Longrightarrow> receive_frames de (map Some zs) = map (the \<circ> de) zs"
  by (induction zs) (auto split: option.splits)

text \<open>
  What a receiver delivers from a connection on which the workers for its address wrote: messages the core of the sender
  meant for that address, none more often than it was sent.
\<close>

lemma core_to_core:
  assumes filter: "(filter_step p ser)\<^sup>*\<^sup>* (filter_new inputs inputs_smvba) f"
    and lane: "(lane, sent) \<in> {(ft_core, inputs), (ft_smvba, inputs_smvba)}"
    and net: "net_step\<^sup>*\<^sup>* (net_sender_new (ln_output (lane f))) n"
    and conn: "subseq zs (wire_to a n)" "rv_accepted r ! i = map Some zs" "i < length (rv_accepted r)"
    and recv: "receiver_ok de r" and serde: "\<And>m. m \<in> fst ` set sent \<Longrightarrow> de (ser m) = Some m"
  shows "mset (delivered_from i r) \<subseteq># mset (meant_for a sent)"
proof -
  have "mset zs \<subseteq># mset (inputs_to a (ln_output (lane f)))"
    using subseq_mset [OF conn(1)] subseq_mset [OF net_run_fifo [OF net, of a]] by (rule subset_mset.order_trans)
  also have "\<dots> \<subseteq># mset (inputs_to a (map (filter_transmit ser) sent))"
    using filter_outputs [OF filter] lane by (intro inputs_to_mono) auto
  also have "\<dots> = image_mset ser (mset (meant_for a sent))" by (simp add: addressed_transmit)
  finally obtain N where N: "N \<subseteq># mset (meant_for a sent)" "mset zs = image_mset ser N"
    using submset_of_image by blast
  have read: "de (ser m) = Some m" if "m \<in># N" for m
    using that N(1) meant_for_sent serde by (metis mset_subset_eqD set_mset_mset subsetD)
  have "z \<in> ser ` set_mset N" if "z \<in> set zs" for z using that N(2) by (metis set_image_mset set_mset_mset)
  then have "receive_frames de (map Some zs) = map (the \<circ> de) zs" by (intro receive_bytes) (metis image_iff option.distinct(1) read)
  moreover have "image_mset (the \<circ> de) (mset zs) = N"
  proof -
    have "image_mset (the \<circ> de) (mset zs) = image_mset (\<lambda>m. the (de (ser m))) N" by (simp add: N(2) multiset.map_comp comp_def)
    also have "\<dots> = image_mset (\<lambda>m. m) N" by (rule image_mset_cong) (simp add: read)
    finally show ?thesis by simp
  qed
  moreover have "delivered_from i r @ receive_frames de (rv_left r ! i) = receive_frames de (map Some zs)"
    using recv conn(2,3) unfolding receiver_ok_def by metis
  ultimately have "mset (delivered_from i r) + mset (receive_frames de (rv_left r ! i)) = N"
    by (metis mset_append mset_map)
  with N(1) show ?thesis by (metis mset_subset_eq_add_left subset_mset.order_trans)
qed

end
