(* ===== verification/Node.thy ===== *)
theory Node
  imports Files Net_Filter Core_Behaviour
begin

text \<open>
  How a node is put together and started: the choice of the protocol and the construction of mempool and core
  (\<open>node/src/node.rs\<close>, \<open>Consensus::run\<close> of \<open>consensus/src/consensus.rs\<close>), printing key files, the local testbed and the commands of
  the program (\<open>node/src/main.rs\<close>). The file system is a state; opening the store, generating keys and clap's parsing of the command
  line are arguments. The lemmas show what a booted node starts from, what the printed files hold,
  and what becomes of the nodes of a testbed.
\<close>

section \<open>Booting\<close>

definition select_protocol :: "u8 \<Rightarrow> Protocol" where
  "select_protocol p = (if p = 0 then HotStuff else if p = 1 then HotStuffAndSMVBA else if p = 2 then SMVBA else Others)"

text \<open>The flags \<open>opt_path\<close> and \<open>pes_path\<close> of the core; no core runs for another protocol.\<close>

fun protocol_paths :: "Protocol \<Rightarrow> (bool \<times> bool) option" where
  "protocol_paths HotStuff = Some (True, False)"
| "protocol_paths HotStuffAndSMVBA = Some (True, True)"
| "protocol_paths SMVBA = Some (False, True)"
| "protocol_paths Others = None"

text \<open>A receiver listens on the port of the committee, on every interface.\<close>

definition listen_address :: "(Committee \<Rightarrow> PublicKey \<Rightarrow> SocketAddr ConsensusResult) \<Rightarrow> Committee \<Rightarrow> PublicKey \<Rightarrow> SocketAddr ConsensusResult" where
  "listen_address addr c name = rbind (addr c name) (\<lambda>x. Ok (any_ip x))"

definition consensus_run ::
    "PublicKey \<Rightarrow> Committee \<Rightarrow> Parameters \<Rightarrow> SignatureService \<Rightarrow> PublicKeySet \<Rightarrow> Mempool \<Rightarrow> Protocol \<Rightarrow>
     Core option ConsensusResult" where
  "consensus_run name c p svc pk_set mempool protocol =
     rbind (listen_address address c name) (\<lambda>_.
     rbind (listen_address smvba_address c name) (\<lambda>_.
     Ok (map_option (\<lambda>(opt_path, pes_path).
       core_new name c p svc pk_set (leader_elector_new c (leader_window p)) mempool synchronizer_new opt_path pes_path)
       (protocol_paths protocol))))"

text \<open>
  \<open>Node::new\<close>: the files in the order they are read, then the store, which may hold what an earlier run has written.
\<close>

record NodeArgs =
  na_committee :: string
  na_keys :: string
  na_threshold_keys :: string
  na_store :: string
  na_parameters :: "string option"

definition node_new ::
    "'y node_ext_scheme \<Rightarrow> 'z json_ext_scheme \<Rightarrow> (string \<Rightarrow> (StoreError, Store) result) \<Rightarrow> FileSystem \<Rightarrow> NodeArgs \<Rightarrow>
     (NodeError, Core option) result" where
  "node_new E J open_store fs args =
     rbind (export_read J (de_committee E J) fs (na_committee args)) (\<lambda>(c, mc).
     rbind (export_read J (de_secret E) fs (na_keys args)) (\<lambda>secret.
     rbind (export_read J (de_share J) fs (na_threshold_keys args)) (\<lambda>tss_keys.
     rbind (case na_parameters args of
         Some filename \<Rightarrow> export_read J de_parameters fs filename
       | None \<Rightarrow> Ok node_parameters_default) (\<lambda>p.
     rbind (map_err NodeStoreError (open_store (na_store args))) (\<lambda>st.
     let name = sec_name secret; svc = \<lparr>ss_secret = sec_secret secret, ss_tss = Some (sh_secret tss_keys)\<rparr>
     in rbind (map_err NodeMempoolError (mempool_run E name mc (np_mempool p) st svc)) (\<lambda>mempool.
        map_err NodeConsensusError
          (consensus_run name c (np_consensus p) svc (sh_pkset tss_keys) mempool (select_protocol (np_protocol p)))))))))"

section \<open>Key files\<close>

definition print_key_file ::
    "'y crypto_ext_scheme \<Rightarrow> 'z json_ext_scheme \<Rightarrow> 'g keypair_gen \<Rightarrow> 'g \<Rightarrow> string \<Rightarrow> (FileSystem, NodeError, unit) comp" where
  "print_key_file E J gen g filename = export_write J (ser_secret E) (fst (secret_new gen g)) filename"

definition tss_threshold :: "usize \<Rightarrow> usize" where
  "tss_threshold nodes = (nodes - 1) div 3"

definition dealt_share :: "key_set \<Rightarrow> nat \<Rightarrow> SecretShare" where
  "dealt_share sk_set i = secret_share_new (word_of_nat i) (ks_public_share sk_set (word_of_nat i))
     (ks_secret_share sk_set (word_of_nat i)) (ks_public sk_set)"

definition print_threshold_key_file ::
    "'z json_ext_scheme \<Rightarrow> (usize \<Rightarrow> key_set) \<Rightarrow> string list \<Rightarrow> (FileSystem, NodeError, unit) comp" where
  "print_threshold_key_file J random_set filenames =
     (let sk_set = random_set (tss_threshold (word_of_nat (length filenames)))
      in forM [0..<length filenames] (\<lambda>i. export_write J (ser_share J) (dealt_share sk_set i) (filenames ! i)))"

section \<open>A local testbed\<close>

definition loopback_addr :: "nat \<Rightarrow> SocketAddr" where
  "loopback_addr port = \<lparr>sa_ip = ''127.0.0.1'', sa_port = word_of_nat port\<rparr>"

definition testbed_committee :: "PublicKey list \<Rightarrow> Committee" where
  "testbed_committee keys = committee_new
     (map (\<lambda>(i, k). (k, 0, 1, loopback_addr (7200 + i), loopback_addr (7300 + i))) (zip [0..<length keys] keys)) 1"

definition testbed_mempool_committee :: "PublicKey list \<Rightarrow> MCommittee" where
  "testbed_mempool_committee keys = mcommittee_new
     (map (\<lambda>(i, k). (k, loopback_addr (7000 + i), loopback_addr (7100 + i))) (zip [0..<length keys] keys)) 1"

text \<open>\<open>format!("127.0.0.1:{}", base + i).parse().unwrap()\<close>: a port beyond 65535 does not parse.\<close>

definition testbed_port :: "'z json_ext_scheme \<Rightarrow> nat \<Rightarrow> nat \<Rightarrow> (NodeError, SocketAddr) result" where
  "testbed_port J base i = unwrap (parse_addr (v6_parse J) (''127.0.0.1:'' @ dec (base + i)))"

fun collect_results :: "('e, 'a) result list \<Rightarrow> ('e, 'a list) result" where
  "collect_results [] = Ok []"
| "collect_results (r # rs) = rbind r (\<lambda>x. rbind (collect_results rs) (\<lambda>xs. Ok (x # xs)))"

definition deploy_committees :: "'z json_ext_scheme \<Rightarrow> PublicKey list \<Rightarrow> (NodeError, CommitteeFile) result" where
  "deploy_committees J keys =
     rbind (collect_results (map (\<lambda>(i, name). rbind (testbed_port J 7000 i) (\<lambda>front. rbind (testbed_port J 7100 i) (\<lambda>mempool.
       Ok (name, front, mempool)))) (zip [0..<length keys] keys))) (\<lambda>minfo.
     rbind (collect_results (map (\<lambda>(i, name). rbind (testbed_port J 7200 i) (\<lambda>addr. rbind (testbed_port J 7300 i) (\<lambda>smvba.
       Ok (name, 0, 1, addr, smvba)))) (zip [0..<length keys] keys))) (\<lambda>info.
     Ok (committee_new info 1, mcommittee_new minfo 1)))"

fun generate_secrets :: "'g keypair_gen \<Rightarrow> nat \<Rightarrow> 'g \<Rightarrow> Secret list" where
  "generate_secrets gen 0 g = []"
| "generate_secrets gen (Suc n) g = (case secret_new gen g of (s, g') \<Rightarrow> s # generate_secrets gen n g')"

definition node_key_file :: "nat \<Rightarrow> string" where
  "node_key_file i = ''node_'' @ dec i @ ''.json''"

definition node_store :: "nat \<Rightarrow> string" where
  "node_store i = ''db_'' @ dec i"

text \<open>The arguments with which node \<open>i\<close> is spawned: its key file stands in for the file of its threshold keys.\<close>

definition testbed_args :: "nat \<Rightarrow> NodeArgs" where
  "testbed_args i = \<lparr>na_committee = ''committee.json'', na_keys = node_key_file i, na_threshold_keys = node_key_file i,
     na_store = node_store i, na_parameters = None\<rparr>"

fun deploy_nodes ::
    "'y crypto_ext_scheme \<Rightarrow> 'z json_ext_scheme \<Rightarrow> (nat \<times> Secret) list \<Rightarrow> (FileSystem, NodeError, NodeArgs list) comp" where
  "deploy_nodes E J [] = ret []"
| "deploy_nodes E J ((i, keypair) # rest) =
     bindM (modifyM (fs_remove (node_key_file i))) (\<lambda>_.
     bindM (export_write J (ser_secret E) keypair (node_key_file i)) (\<lambda>_.
     bindM (modifyM (fs_remove_dir (node_store i))) (\<lambda>_.
     bindM (deploy_nodes E J rest) (\<lambda>handles. ret (testbed_args i # handles)))))"

definition deploy_testbed ::
    "'y crypto_ext_scheme \<Rightarrow> 'z json_ext_scheme \<Rightarrow> 'g keypair_gen \<Rightarrow> 'g \<Rightarrow> nat \<Rightarrow> (FileSystem, NodeError, NodeArgs list) comp" where
  "deploy_testbed E J gen g nodes = (let keys = generate_secrets gen nodes g in
     bindM (liftR (deploy_committees J (map sec_name keys))) (\<lambda>committee.
     bindM (modifyM (fs_remove ''committee.json'')) (\<lambda>_.
     bindM (export_write J (ser_committee E) committee ''committee.json'') (\<lambda>_.
     deploy_nodes E J (zip [0..<nodes] keys)))))"

section \<open>The commands\<close>

definition log_level :: "nat \<Rightarrow> string" where
  "log_level v = (if v = 0 then ''error'' else if v = 1 then ''warn'' else if v = 2 then ''info''
     else if v = 3 then ''debug'' else ''trace'')"

datatype Command = Keys string | ThresholdKeys "string list" | RunNode NodeArgs | Deploy string

text \<open>What \<open>main\<close> ends with: an error that is logged, a node that runs (or none for an undefined protocol), a testbed.\<close>

datatype Outcome = Finished | Logged NodeError | BadNodeCount | Running "Core option" | Deployed "NodeArgs list"

definition log_error :: "('a \<Rightarrow> Outcome) \<Rightarrow> (NodeError, 'a) result \<Rightarrow> (NodeError, Outcome) result" where
  "log_error f r = (case r of Ok x \<Rightarrow> Ok (f x) | Err e \<Rightarrow> Ok (Logged e) | Panic \<Rightarrow> Panic | OutOfFuel \<Rightarrow> OutOfFuel)"

definition logging :: "('a \<Rightarrow> Outcome) \<Rightarrow> (FileSystem, NodeError, 'a) comp \<Rightarrow> (FileSystem, NodeError, Outcome) comp" where
  "logging f m = (\<lambda>fs. case m fs of (fs', r) \<Rightarrow> (fs', log_error f r))"

fun main_command ::
    "'y node_ext_scheme \<Rightarrow> 'z json_ext_scheme \<Rightarrow> 'g keypair_gen \<Rightarrow> 'g \<Rightarrow> (usize \<Rightarrow> key_set) \<Rightarrow>
     (string \<Rightarrow> (StoreError, Store) result) \<Rightarrow> Command \<Rightarrow> (FileSystem, NodeError, Outcome) comp" where
  "main_command E J gen g random_set open_store (Keys filename) =
     logging (\<lambda>_. Finished) (print_key_file E J gen g filename)"
| "main_command E J gen g random_set open_store (ThresholdKeys filenames) =
     logging (\<lambda>_. Finished) (print_threshold_key_file J random_set filenames)"
| "main_command E J gen g random_set open_store (RunNode args) =
     logging Running (readM (\<lambda>fs. liftR (node_new E J open_store fs args)))"
| "main_command E J gen g random_set open_store (Deploy nodes) = (case parse_uint 64 nodes of
     Some n \<Rightarrow> if 0 < n then logging Deployed (deploy_testbed E J gen g n) else ret BadNodeCount
   | None \<Rightarrow> ret BadNodeCount)"

section \<open>Lemmas\<close>

text \<open>A local testbed: distinct keys, one unit of stake each.\<close>

lemma fold_update_fresh:
  assumes "distinct (map fst info)" and "\<forall>i \<in> set info. fst i \<notin> fst ` set al"
  shows "fold (\<lambda>i. AList.update (fst i) (f i)) info al = al @ map (\<lambda>i. (fst i, f i)) info"
  using assms
proof (induction info arbitrary: al)
  case Nil
  then show ?case by simp
next
  case (Cons i info)
  have upd: "AList.update (fst i) (f i) al = al @ [(fst i, f i)]"
    using Cons.prems(2) by (intro update_absent) simp
  have "fold (\<lambda>i. AList.update (fst i) (f i)) info (al @ [(fst i, f i)]) =
      (al @ [(fst i, f i)]) @ map (\<lambda>i. (fst i, f i)) info"
  proof (rule Cons.IH)
    show "distinct (map fst info)" using Cons.prems(1) by simp
    have "fst j \<noteq> fst i" if "j \<in> set info" for j
      using Cons.prems(1) imageI [OF that, of fst] by (metis distinct.simps(2) list.simps(9) set_map)
    with Cons.prems(2) show "\<forall>j \<in> set info. fst j \<notin> fst ` set (al @ [(fst i, f i)])" by simp
  qed
  then show ?case by (simp add: upd)
qed

lemma testbed_authorities:
  assumes "distinct keys"
  shows "authorities (testbed_committee keys) = map (\<lambda>(i, k). (k, \<lparr>a_name = k, a_id = 0, a_stake = 1,
    a_address = loopback_addr (7200 + i), a_smvba_address = loopback_addr (7300 + i)\<rparr>)) (zip [0..<length keys] keys)"
proof -
  let ?info = "map (\<lambda>(i, k). (k, 0, 1, loopback_addr (7200 + i), loopback_addr (7300 + i))) (zip [0..<length keys] keys) :: AuthorityInfo list"
  have "map fst ?info = keys" by (simp add: comp_def case_prod_beta)
  with assms have "fold (\<lambda>i. AList.update (fst i) (authority_of i)) ?info [] = map (\<lambda>i. (fst i, authority_of i)) ?info"
    by (subst fold_update_fresh) (simp_all del: map_map)
  then show ?thesis
    by (auto simp: testbed_committee_def committee_new_def authority_of_def)
qed

lemma testbed_total_stake: "distinct keys \<Longrightarrow> total_stake (testbed_committee keys) = length keys"
  by (simp add: total_stake_def testbed_authorities comp_def case_prod_beta sum_list_triv)

lemma testbed_wf: "distinct keys \<Longrightarrow> keys \<noteq> [] \<Longrightarrow> length keys < 2 ^ 31 \<Longrightarrow> wf_committee (testbed_committee keys)"
  using committee_new_keyed by (simp add: wf_committee_def testbed_total_stake) (simp add: testbed_committee_def)

text \<open>The keys are dealt for as many shares as the coin waits for.\<close>

lemma tss_threshold_matches:
  assumes "distinct keys" and "keys \<noteq> []" and "length keys < 2 ^ 31"
  shows "unat (random_coin_threshold (testbed_committee keys)) = unat (tss_threshold (word_of_nat (length keys))) + 1"
proof -
  have n: "unat (word_of_nat (length keys) :: usize) = length keys"
    using assms(3) by (simp add: unat_of_nat)
  have "1 \<le> length keys" using assms(2) by (cases keys) simp_all
  then have "1 \<le> (word_of_nat (length keys) :: usize)" unfolding word_le_nat_alt n by simp
  then have "unat ((word_of_nat (length keys) :: usize) - 1) = length keys - 1" by (simp add: unat_sub n)
  then have "unat (tss_threshold (word_of_nat (length keys))) = (length keys - 1) div 3"
    by (simp add: tss_threshold_def unat_div)
  with unat_random_coin_threshold [OF testbed_wf [OF assms]] show ?thesis
    by (simp add: max_faults_def testbed_total_stake [OF assms(1)])
qed

text \<open>A booted node starts in epoch 0 with everything the invariants ask for.\<close>

lemma consensus_run_core:
  assumes "consensus_run name c p svc pk_set mempool protocol = Ok (Some s)"
  shows "epoch_fresh 0 s \<and> k_mempool s = mempool \<and> k_committee s = c \<and> k_name s = name \<and> k_unhandle_message s = [] \<and>
    k_signed_votes s = [] \<and> k_commit_channel s = [] \<and> (k_opt_path s \<or> k_pes_path s)"
proof -
  from assms obtain op p' where paths: "protocol_paths protocol = Some (op, p')"
    and s: "s = core_new name c p svc pk_set (leader_elector_new c (leader_window p)) mempool synchronizer_new op p'"
    by (auto simp: consensus_run_def listen_address_def rbind_Ok)
  have "epoch_fresh 0 s" unfolding s by (rule core_new_fresh) (simp add: leader_elector_new_def Let_def)
  moreover have "op \<or> p'" using paths by (cases protocol) auto
  ultimately show ?thesis by (simp add: s core_new_def update_prepare_state_def update_smvba_state_def)
qed

lemma mempool_run_inv: "mempool_run E name c p st svc = Ok m \<Longrightarrow> mempool_inv F m"
  by (auto simp: mempool_run_def rbind_Ok inv_core_new)

lemma node_new_core:
  assumes "node_new E J open_store fs args = Ok (Some s)"
  shows "\<exists>c mc secret. export_read J (de_committee E J) fs (na_committee args) = Ok (c, mc) \<and>
    export_read J (de_secret E) fs (na_keys args) = Ok secret \<and> k_committee s = c \<and> k_name s = sec_name secret \<and>
    epoch_fresh 0 s \<and> mempool_inv F (k_mempool s) \<and>
    k_unhandle_message s = [] \<and> k_signed_votes s = [] \<and> k_commit_channel s = [] \<and> (k_opt_path s \<or> k_pes_path s)"
proof -
  from assms obtain c :: Committee and mc :: MCommittee and secret :: Secret and tss_keys :: SecretShare and p :: NodeParameters and st :: Store and m :: Mempool where
    files: "export_read J (de_committee E J) fs (na_committee args) = Ok (c, mc)"
      "export_read J (de_secret E) fs (na_keys args) = Ok secret"
    and "mempool_run E (sec_name secret) mc (np_mempool p) st
      \<lparr>ss_secret = sec_secret secret, ss_tss = Some (sh_secret tss_keys)\<rparr> = Ok m"
    and "consensus_run (sec_name secret) c (np_consensus p) \<lparr>ss_secret = sec_secret secret, ss_tss = Some (sh_secret tss_keys)\<rparr>
      (sh_pkset tss_keys) m (select_protocol (np_protocol p)) = Ok (Some s)"
    unfolding node_new_def Let_def by (auto simp: rbind_Ok)
  with mempool_run_inv consensus_run_core show ?thesis by blast
qed

text \<open>The ports of a testbed: all of them parse, or deploying panics.\<close>

lemma testbed_port_parses:
  assumes "v6_bracketed (v6_parse J)"
  shows "testbed_port J base i = (if base + i < 65536 then Ok (loopback_addr (base + i)) else Panic)"
proof -
  have "v6_parse J (''127.0.0.1:'' @ dec (base + i)) = None"
    using assms by (cases "v6_parse J (''127.0.0.1:'' @ dec (base + i))") (auto simp: v6_bracketed_def)
  then show ?thesis
    using parse_addr_v4_text [OF loopback_ipv4(1), of "base + i"]
    by (simp add: testbed_port_def parse_addr_def loopback_addr_def)
qed

lemma collect_results_if:
  "collect_results (map (\<lambda>x. if P x then Ok (f x) else Panic) xs) = (if list_all P xs then Ok (map f xs) else Panic)"
  by (induction xs) simp_all

lemma deploy_committees_eq:
  assumes "v6_bracketed (v6_parse J)"
  shows "deploy_committees J keys =
    (if length keys \<le> 58236 then Ok (testbed_committee keys, testbed_mempool_committee keys) else Panic)"
proof -
  have m: "(\<lambda>(i, name). rbind (testbed_port J 7000 i) (\<lambda>front. rbind (testbed_port J 7100 i) (\<lambda>mempool. Ok (name, front, mempool)))) =
      (\<lambda>x. if 7100 + fst x < 65536 then Ok (case x of (i, k) \<Rightarrow> (k, loopback_addr (7000 + i), loopback_addr (7100 + i))) else Panic)"
    and c: "(\<lambda>(i, name). rbind (testbed_port J 7200 i) (\<lambda>addr. rbind (testbed_port J 7300 i) (\<lambda>smvba. Ok (name, 0, 1, addr, smvba)))) =
      (\<lambda>x. if 7300 + fst x < 65536 then Ok (case x of (i, k) \<Rightarrow> (k, 0 :: usize, 1 :: Stake, loopback_addr (7200 + i), loopback_addr (7300 + i)))
        else Panic)"
    by (auto simp: testbed_port_parses [OF assms])
  have all: "list_all (\<lambda>x. b + fst x < 65536) (zip [0..<length keys] keys) \<longleftrightarrow> (keys \<noteq> [] \<longrightarrow> b + length keys \<le> 65536)" for b
  proof -
    have "set (map fst (zip [0..<length keys] keys)) = {0..<length keys}" by simp
    then have "list_all (\<lambda>x. b + fst x < 65536) (zip [0..<length keys] keys) \<longleftrightarrow> (\<forall>i < length keys. b + i < 65536)"
      by (auto simp: list_all_length)
    also have "\<dots> \<longleftrightarrow> (keys \<noteq> [] \<longrightarrow> b + length keys \<le> 65536)"
      by (cases "length keys") (auto simp: less_Suc_eq_le)
    finally show ?thesis .
  qed
  show ?thesis
    unfolding deploy_committees_def m c collect_results_if all
    by (auto simp: testbed_committee_def testbed_mempool_committee_def)
qed

lemma generate_secrets_length [simp]: "length (generate_secrets gen n g) = n"
  by (induction n arbitrary: g) (simp_all split: prod.splits)

text \<open>What is in the files after deploying a testbed and dealing threshold keys.\<close>

lemma export_write_Ok:
  "export_write J ser x path fs = (fs', Ok ()) \<longleftrightarrow> fs_refuses fs path = None \<and> fs' = fs_overwrite path (export_bytes J (ser x)) fs"
  by (auto simp: export_write_def comp_defs split: option.splits)

lemma fs_overwrite_removed:
  "fs_refuses fs path = None \<Longrightarrow> fs_overwrite path data (fs_remove path fs) = fs\<lparr>fs_files := (fs_files fs)(path \<mapsto> data)\<rparr>"
  by (simp add: fs_overwrite_def fs_remove_def)

lemma fs_refuses_remove [simp]: "fs_refuses (fs_remove path fs) = fs_refuses fs"
  by (simp add: fs_remove_def)

lemma node_key_file_inject [simp]: "node_key_file i = node_key_file j \<longleftrightarrow> i = j"
  by (simp add: node_key_file_def)

lemma node_key_file_committee [simp]: "node_key_file i \<noteq> ''committee.json''"
  by (simp add: node_key_file_def)

lemma fs_remove_dir_other: "take 3 path \<noteq> ''db_'' \<Longrightarrow> fs_files (fs_remove_dir (node_store i) fs) path = fs_files fs path"
proof -
  assume "take 3 path \<noteq> ''db_''"
  moreover have "take 3 path = ''db_''" if "take (length (node_store i) + 1) path = node_store i @ ''/''"
  proof -
    have "take 3 path = take 3 (take (length (node_store i) + 1) path)" by (simp add: node_store_def eval_nat_numeral)
    also have "\<dots> = ''db_''" unfolding that by (simp add: node_store_def)
    finally show ?thesis .
  qed
  ultimately show ?thesis by (auto simp: fs_remove_dir_def)
qed

lemma fs_refuses_remove_dir [simp]: "fs_refuses (fs_remove_dir path fs) = fs_refuses fs"
  by (simp add: fs_remove_dir_def)

lemma node_key_file_dir [simp]: "take 3 (node_key_file i) \<noteq> ''db_''"
  by (simp add: node_key_file_def)

lemma deploy_nodes_files:
  assumes "deploy_nodes E J ks fs = (fs', Ok hs)" and "distinct (map fst ks)"
  shows "hs = map (testbed_args \<circ> fst) ks \<and> fs_refuses fs' = fs_refuses fs \<and>
    (\<forall>i k. (i, k) \<in> set ks \<longrightarrow> fs_refuses fs (node_key_file i) = None \<and>
       fs_files fs' (node_key_file i) = Some (export_bytes J (ser_secret E k))) \<and>
    (\<forall>path. path \<notin> node_key_file ` fst ` set ks \<and> take 3 path \<noteq> ''db_'' \<longrightarrow> fs_files fs' path = fs_files fs path)"
  using assms
proof (induction ks arbitrary: fs hs)
  case Nil
  then show ?case by (simp add: ret_def)
next
  case (Cons x ks)
  obtain i k where x: "x = (i, k)" by force
  let ?fs = "fs_remove_dir (node_store i) (fs\<lparr>fs_files := (fs_files fs)(node_key_file i \<mapsto> export_bytes J (ser_secret E k))\<rparr>)"
  from Cons.prems(1) obtain hs' where open_i: "fs_refuses fs (node_key_file i) = None"
    and rest: "deploy_nodes E J ks ?fs = (fs', Ok hs')" and hs: "hs = testbed_args i # hs'"
    by (auto simp: x bindM_Ok modifyM_def ret_def export_write_Ok fs_overwrite_removed)
  have i: "i \<notin> fst ` set ks" using Cons.prems(2) by (simp add: x)
  note IH = Cons.IH [OF rest] Cons.prems(2)
  have "node_key_file i \<notin> node_key_file ` fst ` set ks" using i by (simp add: inj_image_mem_iff inj_def)
  with IH have "fs_files fs' (node_key_file i) = Some (export_bytes J (ser_secret E k))"
    by (simp add: fs_remove_dir_other)
  with IH hs open_i show ?case by (auto simp: x fs_remove_dir_other)
qed

lemma zip_upt_mem: "i < length xs \<Longrightarrow> (i, xs ! i) \<in> set (zip [0..<length xs] xs)"
  by (auto simp: in_set_zip intro!: exI [of _ i])

lemma deploy_testbed_files:
  assumes "deploy_testbed E J gen g n fs = (fs', Ok hs)" and "v6_bracketed (v6_parse J)"
  defines "keys \<equiv> generate_secrets gen n g"
  shows "n \<le> 58236 \<and> hs = map testbed_args [0..<n] \<and> fs_refuses fs' = fs_refuses fs \<and>
    fs_refuses fs ''committee.json'' = None \<and>
    fs_files fs' ''committee.json'' = Some (export_bytes J (ser_committee E
      (testbed_committee (map sec_name keys), testbed_mempool_committee (map sec_name keys)))) \<and>
    (\<forall>i < n. fs_refuses fs (node_key_file i) = None \<and>
       fs_files fs' (node_key_file i) = Some (export_bytes J (ser_secret E (keys ! i)))) \<and>
    (\<forall>path. path \<noteq> ''committee.json'' \<and> path \<notin> range node_key_file \<and> take 3 path \<noteq> ''db_'' \<longrightarrow>
       fs_files fs' path = fs_files fs path)"
proof -
  let ?c = "(testbed_committee (map sec_name keys), testbed_mempool_committee (map sec_name keys))"
  let ?fs = "fs\<lparr>fs_files := (fs_files fs)(''committee.json'' \<mapsto> export_bytes J (ser_committee E ?c))\<rparr>"
  from assms(1) have n: "n \<le> 58236" and open_c: "fs_refuses fs ''committee.json'' = None"
    and rest: "deploy_nodes E J (zip [0..<n] keys) ?fs = (fs', Ok hs)"
    by (auto simp: deploy_testbed_def Let_def bindM_Ok liftR_def modifyM_def deploy_committees_eq [OF assms(2)] keys_def
        export_write_Ok fs_overwrite_removed split: if_splits)
  have len: "length keys = n" by (simp add: keys_def)
  have dist: "distinct (map fst (zip [0..<n] keys))" by (simp add: len)
  have mem: "(i, keys ! i) \<in> set (zip [0..<n] keys)" if "i < n" for i
    using zip_upt_mem [of i keys] that len by simp
  have "map (testbed_args \<circ> fst) (zip [0..<n] keys) = map testbed_args [0..<n]"
    by (simp add: len flip: map_map)
  moreover have "''committee.json'' \<notin> node_key_file ` fst ` set (zip [0..<n] keys)"
    using node_key_file_committee by (metis imageE)
  moreover note deploy_nodes_files [OF rest dist]
  moreover from this mem have "\<forall>i < n. fs_refuses fs (node_key_file i) = None \<and>
       fs_files fs' (node_key_file i) = Some (export_bytes J (ser_secret E (keys ! i)))" by fastforce
  moreover have "\<forall>path. path \<noteq> ''committee.json'' \<and> path \<notin> range node_key_file \<and> take 3 path \<noteq> ''db_'' \<longrightarrow>
      fs_files fs' path = fs_files fs path"
  proof (intro allI impI)
    fix path assume "path \<noteq> ''committee.json'' \<and> path \<notin> range node_key_file \<and> take 3 path \<noteq> ''db_''"
    moreover from this have "path \<notin> node_key_file ` fst ` set (zip [0..<n] keys)" by blast
    ultimately show "fs_files fs' path = fs_files fs path" using deploy_nodes_files [OF rest dist] by simp
  qed
  ultimately show ?thesis using n open_c by simp
qed

lemma print_shares_files:
  assumes "forM is (\<lambda>i. export_write J ser (x i) (path i)) fs = (fs', Ok ())" and "distinct (map path is)"
    and "\<And>i. i \<in> set is \<Longrightarrow> fs_files fs (path i) = None"
  shows "fs_refuses fs' = fs_refuses fs \<and>
    (\<forall>i \<in> set is. fs_refuses fs (path i) = None \<and> fs_files fs' (path i) = Some (export_bytes J (ser (x i)))) \<and>
    (\<forall>p. p \<notin> path ` set is \<longrightarrow> fs_files fs' p = fs_files fs p)"
  using assms
proof (induction "is" arbitrary: fs)
  case Nil
  then show ?case by (simp add: ret_def)
next
  case (Cons i "is")
  let ?fs = "fs_overwrite (path i) (export_bytes J (ser (x i))) fs"
  have fs: "?fs = fs\<lparr>fs_files := (fs_files fs)(path i \<mapsto> export_bytes J (ser (x i)))\<rparr>"
    using Cons.prems(3) [of i] by (simp add: fs_overwrite_def)
  from Cons.prems(1) have open_i: "fs_refuses fs (path i) = None"
    and rest: "forM is (\<lambda>i. export_write J ser (x i) (path i)) ?fs = (fs', Ok ())"
    by (auto simp: bindM_Ok export_write_Ok)
  have i: "path i \<notin> path ` set is" using Cons.prems(2) by simp
  have "fs_files ?fs (path j) = None" if "j \<in> set is" for j
  proof -
    have "path j \<in> path ` set is" using that by (rule imageI)
    with i have "path j \<noteq> path i" by metis
    with Cons.prems(3) [of j] that show ?thesis by (simp add: fs)
  qed
  from Cons.IH [OF rest _ this] Cons.prems(2) i open_i show ?case by (auto simp: fs)
qed

lemma print_threshold_files:
  assumes "print_threshold_key_file J random_set filenames fs = (fs', Ok ())" and "distinct filenames"
    and "\<And>f. f \<in> set filenames \<Longrightarrow> fs_files fs f = None"
  shows "fs_refuses fs' = fs_refuses fs \<and>
    (\<forall>i < length filenames. fs_refuses fs (filenames ! i) = None \<and> fs_files fs' (filenames ! i) =
       Some (export_bytes J (ser_share J (dealt_share (random_set (tss_threshold (word_of_nat (length filenames)))) i)))) \<and>
    (\<forall>p. p \<notin> set filenames \<longrightarrow> fs_files fs' p = fs_files fs p)"
proof -
  have nth: "map ((!) filenames) [0..<length filenames] = filenames" by (rule map_nth)
  then have "(!) filenames ` {0..<length filenames} = set filenames" by (metis list.set_map set_upt)
  with print_shares_files [OF assms(1) [unfolded print_threshold_key_file_def Let_def]] assms(2,3) nth show ?thesis
    by auto
qed

text \<open>Deploying and dealing end when the operating system opens every file.\<close>

lemma deploy_nodes_ends:
  assumes "fs_refuses fs = Map.empty"
  shows "\<exists>fs'. deploy_nodes E J ks fs = (fs', Ok (map (testbed_args \<circ> fst) ks))"
  using assms
proof (induction ks arbitrary: fs)
  case Nil
  then show ?case by (simp add: ret_def)
next
  case (Cons x ks)
  obtain i k where x: "x = (i, k)" by force
  let ?fs = "fs_remove_dir (node_store i) (fs_overwrite (node_key_file i) (export_bytes J (ser_secret E k)) (fs_remove (node_key_file i) fs))"
  have "fs_refuses ?fs = Map.empty" using Cons.prems by (simp add: fs_overwrite_def)
  with Cons.IH [of ?fs] obtain fs' where "deploy_nodes E J ks ?fs = (fs', Ok (map (testbed_args \<circ> fst) ks))" by blast
  with Cons.prems show ?case by (simp add: x comp_defs export_write_def)
qed

lemma deploy_testbed_ends:
  assumes "fs_refuses fs = Map.empty" and "v6_bracketed (v6_parse J)" and "n \<le> 58236"
  shows "\<exists>fs'. deploy_testbed E J gen g n fs = (fs', Ok (map testbed_args [0..<n]))"
proof -
  let ?names = "map sec_name (generate_secrets gen n g)"
  let ?fs = "fs_overwrite ''committee.json'' (export_bytes J (ser_committee E
      (testbed_committee ?names, testbed_mempool_committee ?names))) (fs_remove ''committee.json'' fs)"
  have "fs_refuses ?fs = Map.empty" using assms(1) by (simp add: fs_overwrite_def)
  with deploy_nodes_ends [of ?fs E J "zip [0..<n] (generate_secrets gen n g)"] assms(1,3) show ?thesis
    by (auto simp: deploy_testbed_def Let_def comp_defs deploy_committees_eq [OF assms(2)] export_write_def simp flip: map_map)
qed

lemma print_threshold_ends:
  assumes "fs_refuses fs = Map.empty"
  shows "\<exists>fs'. print_threshold_key_file J random_set files fs = (fs', Ok ())"
proof -
  have "\<exists>fs'. forM is (\<lambda>i. export_write J ser (x i) (path i)) fs = (fs', Ok ())" for "is" :: "nat list" and ser x path
    using assms
  proof (induction "is" arbitrary: fs)
    case (Cons i "is")
    have "fs_refuses (fs_overwrite p d fs) = Map.empty" for p d using Cons.prems by (simp add: fs_overwrite_def)
    with Cons show ?case by (simp add: bindM_def export_write_def readM_def modifyM_def)
  qed (simp add: ret_def)
  then show ?thesis by (simp add: print_threshold_key_file_def Let_def)
qed

text \<open>The committee files of a testbed can be read back.\<close>

lemma testbed_mempool_authorities:
  assumes "distinct keys"
  shows "m_authorities (testbed_mempool_committee keys) = map (\<lambda>(i, k). (k, \<lparr>ma_name = k,
    ma_front_address = loopback_addr (7000 + i), ma_mempool_address = loopback_addr (7100 + i)\<rparr>)) (zip [0..<length keys] keys)"
proof -
  let ?info = "map (\<lambda>(i, k). (k, loopback_addr (7000 + i), loopback_addr (7100 + i))) (zip [0..<length keys] keys)"
  let ?auth = "\<lambda>(k, f, m). \<lparr>ma_name = k, ma_front_address = f, ma_mempool_address = m\<rparr>"
  have "map fst ?info = keys" by (simp add: comp_def case_prod_beta)
  with assms have "fold (\<lambda>i. AList.update (fst i) (?auth i)) ?info [] = map (\<lambda>i. (fst i, ?auth i)) ?info"
    by (subst fold_update_fresh) (simp_all del: map_map)
  moreover have "(\<lambda>(name, front, mempool). AList.update name \<lparr>ma_name = name, ma_front_address = front, ma_mempool_address = mempool\<rparr>) =
      (\<lambda>i. AList.update (fst i) (?auth i))" by auto
  ultimately show ?thesis
    by (auto simp: testbed_mempool_committee_def mcommittee_new_def)
qed

lemma testbed_committee_wf:
  assumes "base64_ok E" and "distinct keys" and "\<And>k. k \<in> set keys \<Longrightarrow> length (key_bytes k) = 32"
  shows "committee_wf E (testbed_committee keys, testbed_mempool_committee keys)"
proof -
  let ?z = "zip [0..<length keys] keys"
  have key: "length (key_bytes (snd x)) = 32" if "x \<in> set ?z" for x
    using assms(3) set_zip_rightD [of "fst x" "snd x"] that by simp
  have dist: "distinct (map snd ?z)" using assms(2) by simp
  have "list_all authority_wf (authorities (testbed_committee keys))"
    "list_all mauthority_wf (m_authorities (testbed_mempool_committee keys))"
    using key by (simp_all add: testbed_authorities [OF assms(2)] testbed_mempool_authorities [OF assms(2)] list_all_iff
        case_prod_beta authority_wf_def mauthority_wf_def loopback_addr_def loopback_ipv4)
  moreover have "distinct (map fst (authorities (testbed_committee keys)))"
    "distinct (map fst (m_authorities (testbed_mempool_committee keys)))"
    using dist by (simp_all add: testbed_authorities [OF assms(2)] testbed_mempool_authorities [OF assms(2)]
        comp_def case_prod_beta cong: map_cong)
  ultimately show ?thesis using assms(1) by (simp add: committee_wf_def)
qed

lemma generate_secrets_wf:
  assumes "keypair_gen_ok E gen" and "base64_ok E" and "s \<in> set (generate_secrets gen n g)"
  shows "secret_wf E s \<and> drop 32 (secret_bytes (sec_secret s)) = key_bytes (sec_name s)"
  using assms(3)
proof (induction n arbitrary: g)
  case (Suc n)
  obtain pub pair g' where gen: "gen g = (pub, pair, g')" by (cases "gen g")
  have "length pub = 32 \<and> length pair = 64 \<and> drop 32 pair = pub"
    using spec [OF assms(1) [unfolded keypair_gen_ok_def], of g] gen by simp
  with Suc gen assms(2) show ?case
    by (auto simp: secret_new_def generate_production_keypair_def generate_keypair_def secret_wf_def)
qed simp

text \<open>
  A testbed and threshold keys dealt for it: a node that is given its files boots, one that is spawned with the
  arguments of \<open>deploy_testbed\<close> stops with an error, because its key file is no file of threshold keys.
\<close>

lemma read_holds:
  assumes "fs_refuses fs path = None" and "fs_files fs path = Some (export_bytes J v)" and "json_ok J" and "plain_json 127 v"
  shows "export_read J de fs path = map_err (\<lambda>_. ReadError path (json_error J (export_bytes J v))) (de v)"
  using assms by (cases "de v") (simp_all add: export_read_def fs_read_def export_bytes_def json_ok_def white_space_def)

lemma testbed_files_read:
  assumes "json_ok J" and "base64_ok E" and "keypair_gen_ok E gen" and "v6_bracketed (v6_parse J)"
    and "deploy_testbed E J gen g n fs = (fs1, Ok hs)" and "distinct (map sec_name (generate_secrets gen n g))" and "i < n"
    and "fs_refuses fs' = fs_refuses fs1" and "\<And>p. fs_files fs1 p \<noteq> None \<Longrightarrow> fs_files fs' p = fs_files fs1 p"
  defines "names \<equiv> map sec_name (generate_secrets gen n g)"
  shows "export_read J (de_committee E J) fs' ''committee.json'' = Ok (testbed_committee names, testbed_mempool_committee names)"
    and "export_read J (de_secret E) fs' (node_key_file i) = Ok (generate_secrets gen n g ! i)"
    and "\<exists>msg. export_read J (de_share J) fs' (node_key_file i) = Err (ReadError (node_key_file i) msg)"
proof -
  note files = deploy_testbed_files [OF assms(5,4)]
  have wf: "secret_wf E s" if "s \<in> set (generate_secrets gen n g)" for s
    using generate_secrets_wf [OF assms(3,2) that] by simp
  then have "length (key_bytes k) = 32" if "k \<in> set names" for k
    using that by (auto simp: names_def secret_wf_def)
  with assms(2,6) have "committee_wf E (testbed_committee names, testbed_mempool_committee names)"
    by (intro testbed_committee_wf) (simp_all add: names_def)
  then show "export_read J (de_committee E J) fs' ''committee.json'' = Ok (testbed_committee names, testbed_mempool_committee names)"
    using files assms(8,9) by (subst read_holds [OF _ _ assms(1)]) (auto simp: names_def committee_file.decode_encode committee_file.plain)
  have key: "fs_refuses fs' (node_key_file i) = None"
    "fs_files fs' (node_key_file i) = Some (export_bytes J (ser_secret E (generate_secrets gen n g ! i)))"
    using files assms(7,8,9) by auto
  have ok: "secret_wf E (generate_secrets gen n g ! i)" using assms(7) by (intro wf) simp
  then show "export_read J (de_secret E) fs' (node_key_file i) = Ok (generate_secrets gen n g ! i)"
    by (simp add: read_holds [OF key assms(1)] secret_file.decode_encode secret_file.plain)
  show "\<exists>msg. export_read J (de_share J) fs' (node_key_file i) = Err (ReadError (node_key_file i) msg)"
    by (simp add: read_holds [OF key assms(1)] key_file_is_no_share secret_file.plain [OF ok])
qed

lemma testbed_runs:
  assumes "distinct names" and "name \<in> set names"
  shows "\<exists>m s. mempool_run E name (testbed_mempool_committee names) p st svc = Ok m \<and>
    consensus_run name (testbed_committee names) p' svc pk_set m HotStuff = Ok (Some s) \<and>
    k_name s = name \<and> k_committee s = testbed_committee names \<and> k_signature_service s = svc \<and> k_pk_set s = pk_set"
proof -
  let ?z = "zip [0..<length names] names"
  from assms(2) obtain i where "(i, name) \<in> set ?z" using zip_upt_mem by (metis in_set_conv_nth)
  then have "name \<in> fst ` set (authorities (testbed_committee names))"
    "name \<in> fst ` set (m_authorities (testbed_mempool_committee names))"
    by (force simp: testbed_authorities [OF assms(1)] testbed_mempool_authorities [OF assms(1)])+
  then obtain a ma where "map_of (authorities (testbed_committee names)) name = Some a"
    "map_of (m_authorities (testbed_mempool_committee names)) name = Some ma"
    by (metis domD dom_map_of_conv_image_fst)
  then show ?thesis
    by (simp add: mempool_run_def front_address_def mempool_address_def consensus_run_def listen_address_def address_def
        smvba_address_def core_new_def update_prepare_state_def update_smvba_state_def)
qed

lemma testbed_boots:
  assumes "json_ok J" and "tss_serde_ok J" and "base64_ok E" and "keypair_gen_ok E gen" and "v6_bracketed (v6_parse J)"
    and "deploy_testbed E J gen g n fs = (fs1, Ok hs)" and "distinct (map sec_name (generate_secrets gen n g))"
    and "print_threshold_key_file J random_set files fs1 = (fs2, Ok ())" and "length files = n" and "distinct files"
    and "\<And>f. f \<in> set files \<Longrightarrow> fs_files fs1 f = None" and "i < n" and "open_store path = Ok st"
  defines "names \<equiv> map sec_name (generate_secrets gen n g)"
  shows "\<exists>s. node_new E J open_store fs2 \<lparr>na_committee = ''committee.json'', na_keys = node_key_file i,
       na_threshold_keys = files ! i, na_store = path, na_parameters = None\<rparr> = Ok (Some s) \<and>
     k_name s = names ! i \<and> k_committee s = testbed_committee names \<and>
     k_signature_service s = \<lparr>ss_secret = sec_secret (generate_secrets gen n g ! i),
       ss_tss = Some (ks_secret_share (random_set (tss_threshold (word_of_nat n))) (word_of_nat i))\<rparr> \<and>
     k_pk_set s = ks_public (random_set (tss_threshold (word_of_nat n)))"
proof -
  let ?share = "dealt_share (random_set (tss_threshold (word_of_nat n))) i"
  note shares = print_threshold_files [OF assms(8,10,11)]
  have same: "fs_files fs2 p = fs_files fs1 p" if "fs_files fs1 p \<noteq> None" for p
  proof -
    have "p \<notin> set files" using assms(11) [of p] that by auto
    with shares show ?thesis by simp
  qed
  have refuse: "fs_refuses fs2 = fs_refuses fs1" using shares by simp
  have "fs_refuses fs2 (files ! i) = None" "fs_files fs2 (files ! i) = Some (export_bytes J (ser_share J ?share))"
    using shares assms(9,12) by simp_all
  then have share: "export_read J (de_share J) fs2 (files ! i) = Ok ?share"
    using share_file.decode_encode [OF assms(2)] by (simp add: read_holds [OF _ _ assms(1)] share_file.plain [OF assms(2)])
  let ?svc = "\<lparr>ss_secret = sec_secret (generate_secrets gen n g ! i), ss_tss = Some (sh_secret ?share)\<rparr>"
  have name: "names ! i \<in> set names" "sec_name (generate_secrets gen n g ! i) = names ! i" using assms(12) by (simp_all add: names_def)
  with testbed_runs [OF assms(7) [folded names_def], of "names ! i"]
  obtain m s where run: "mempool_run E (names ! i) (testbed_mempool_committee names) (np_mempool node_parameters_default) st ?svc = Ok m"
    "consensus_run (names ! i) (testbed_committee names) (np_consensus node_parameters_default) ?svc (sh_pkset ?share) m HotStuff = Ok (Some s)"
    and s: "k_name s = names ! i" "k_committee s = testbed_committee names" "k_signature_service s = ?svc" "k_pk_set s = sh_pkset ?share"
    by metis
  have "select_protocol (np_protocol node_parameters_default) = HotStuff"
    by (simp add: select_protocol_def node_parameters_default_def)
  then have "node_new E J open_store fs2 \<lparr>na_committee = ''committee.json'', na_keys = node_key_file i,
       na_threshold_keys = files ! i, na_store = path, na_parameters = None\<rparr> = Ok (Some s)"
    using testbed_files_read(1,2) [OF assms(1,3,4,5,6,7,12) refuse same] assms(13) share name run
    by (simp add: node_new_def names_def)
  with s show ?thesis by (simp add: dealt_share_def secret_share_new_def)
qed

lemma testbed_nodes_fail:
  assumes "json_ok J" and "base64_ok E" and "keypair_gen_ok E gen" and "v6_bracketed (v6_parse J)"
    and "deploy_testbed E J gen g n fs = (fs', Ok hs)" and "distinct (map sec_name (generate_secrets gen n g))"
    and "args \<in> set hs"
  shows "\<exists>msg. node_new E J open_store fs' args = Err (ReadError (na_keys args) msg)"
proof -
  from assms(7) deploy_testbed_files [OF assms(5,4)] obtain i where i: "i < n" and args: "args = testbed_args i" by auto
  from testbed_files_read [OF assms(1-6) i refl refl] show ?thesis
    by (auto simp: args testbed_args_def node_new_def)
qed

text \<open>The four blocks of ports are a hundred apart.\<close>

definition committee_addresses :: "CommitteeFile \<Rightarrow> SocketAddr list" where
  "committee_addresses = (\<lambda>(c, mc). map (ma_front_address \<circ> snd) (m_authorities mc) @ map (ma_mempool_address \<circ> snd) (m_authorities mc) @
     map (a_address \<circ> snd) (authorities c) @ map (a_smvba_address \<circ> snd) (authorities c))"

lemma loopback_inj: "inj_on loopback_addr {..<65536}"
proof (rule inj_onI)
  fix x y :: nat
  assume "x \<in> {..<65536}" "y \<in> {..<65536}" "loopback_addr x = loopback_addr y"
  moreover from this have "unat (word_of_nat x :: 16 word) = unat (word_of_nat y :: 16 word)" by (simp add: loopback_addr_def)
  ultimately show "x = y" by (simp add: unat_of_nat)
qed

lemma testbed_ports_distinct:
  assumes "distinct keys" and "length keys \<le> 58236"
  shows "distinct (committee_addresses (testbed_committee keys, testbed_mempool_committee keys)) \<longleftrightarrow> length keys \<le> 100"
proof -
  let ?n = "length keys"
  let ?ports = "[7000..<7000 + ?n] @ [7100..<7100 + ?n] @ [7200..<7200 + ?n] @ [7300..<7300 + ?n]"
  have "map (\<lambda>x. loopback_addr (b + fst x)) (zip [0..<?n] keys) = map loopback_addr [b..<b + ?n]" for b
    by (rule nth_equalityI) simp_all
  then have "committee_addresses (testbed_committee keys, testbed_mempool_committee keys) = map loopback_addr ?ports"
    by (simp add: committee_addresses_def testbed_authorities [OF assms(1)] testbed_mempool_authorities [OF assms(1)]
        comp_def case_prod_beta del: upt_Suc)
  moreover have "set ?ports \<subseteq> {..<65536}" using assms(2) by auto
  then have "inj_on loopback_addr (set ?ports)" by (rule inj_on_subset [OF loopback_inj])
  ultimately have "distinct (committee_addresses (testbed_committee keys, testbed_mempool_committee keys)) \<longleftrightarrow> distinct ?ports"
    by (simp only: distinct_map) blast
  also have "\<dots> \<longleftrightarrow> ?n \<le> 100"
  proof
    assume "distinct ?ports"
    then have "set [7000..<7000 + ?n] \<inter> set [7100..<7100 + ?n] = {}" unfolding distinct_append set_append by blast
    then have "?n = 0 \<or> 7100 \<notin> set [7000..<7000 + ?n]" by auto
    then show "?n \<le> 100" by auto
  next
    assume n: "?n \<le> 100"
    then show "distinct ?ports" by auto
  qed
  finally show ?thesis .
qed

end
