(* ===== verification/Client.thy ===== *)
theory Client
  imports Text
begin

text \<open>
  The benchmark client (\<open>node/src/client.rs\<close>): its command line, waiting for the nodes, and the transactions it sends, burst by
  burst. The strings of the arguments, as clap hands them over, whether a node accepts connections at a time
  (in milliseconds) and how many transactions a connection takes are arguments. The lemmas show when waiting ends
  and that no transaction is sent twice.
\<close>

section \<open>The command line\<close>

record ClientArgs =
  arg_addr :: string
  arg_size :: string
  arg_rate :: string
  arg_timeout :: string
  arg_synctime :: string
  arg_nodes :: "string list"

record Client =
  cl_target :: SocketAddr
  cl_size :: usize
  cl_rate :: u64
  cl_timeout :: u64
  cl_synctime :: u64
  cl_nodes :: "SocketAddr list"

text \<open>The contexts the errors are given.\<close>

datatype ClientError =
    InvalidAddressFormat
  | InvalidSize
  | InvalidRate
  | InvalidTimeout
  | TransactionTooSmall
  | FailedToConnect SocketAddr

definition parse_u64 :: "string \<Rightarrow> u64 option" where
  "parse_u64 s = map_option word_of_nat (parse_uint 64 s)"

fun parse_all :: "(string \<Rightarrow> 'a option) \<Rightarrow> string list \<Rightarrow> 'a list option" where
  "parse_all f [] = Some []"
| "parse_all f (s # ss) = (case f s of None \<Rightarrow> None | Some x \<Rightarrow> map_option ((#) x) (parse_all f ss))"

definition client_parse :: "(string \<Rightarrow> SocketAddr option) \<Rightarrow> ClientArgs \<Rightarrow> (ClientError, Client) result" where
  "client_parse v6 m =
     rbind (ok_or InvalidAddressFormat (parse_addr v6 (arg_addr m))) (\<lambda>target.
     rbind (ok_or InvalidSize (parse_u64 (arg_size m))) (\<lambda>sz.
     rbind (ok_or InvalidRate (parse_u64 (arg_rate m))) (\<lambda>rate.
     rbind (ok_or InvalidTimeout (parse_u64 (arg_timeout m))) (\<lambda>timeout.
     rbind (ok_or InvalidTimeout (parse_u64 (arg_synctime m))) (\<lambda>synctime.
     rbind (ok_or InvalidAddressFormat (parse_all (parse_addr v6) (arg_nodes m))) (\<lambda>nodes.
     Ok \<lparr>cl_target = target, cl_size = sz, cl_rate = rate, cl_timeout = timeout, cl_synctime = synctime,
         cl_nodes = nodes\<rparr>))))))"

section \<open>Waiting for the nodes\<close>

text \<open>
  The loop of one of the spawned tasks: \<open>up t\<close> says whether the node accepts a connection at time \<open>t\<close>. It has no end, the
  value \<open>None\<close>, if the node never does when it is tried.
\<close>

partial_function (option) connect_loop :: "(nat \<Rightarrow> bool) \<Rightarrow> nat \<Rightarrow> nat option" where
  "connect_loop up t = (if up t then Some t else connect_loop up (t + 10))"

text \<open>The time at which \<open>wait\<close> returns when it is called at time 0.\<close>

definition client_wait :: "(SocketAddr \<Rightarrow> nat \<Rightarrow> bool) \<Rightarrow> Client \<Rightarrow> nat option" where
  "client_wait up cl = (let ts = map (\<lambda>a. connect_loop (up a) 0) (cl_nodes cl)
     in if None \<in> set ts then None else Some (fold max (map the ts) 0 + unat (cl_synctime cl)))"

section \<open>Sending transactions\<close>

definition resize :: "nat \<Rightarrow> bytes \<Rightarrow> bytes" where
  "resize n bs = take n bs @ replicate (n - length bs) 0"

definition client_tx :: "nat \<Rightarrow> byte \<Rightarrow> u64 \<Rightarrow> bytes" where
  "client_tx tx_size tag n = resize tx_size (tag # u64_to_be_bytes n)"

text \<open>The \<open>for\<close> loop of a burst: \<open>todo\<close> lists the values of \<open>x\<close> still to come.\<close>

fun client_burst :: "nat \<Rightarrow> u64 \<Rightarrow> u64 \<Rightarrow> u64 list \<Rightarrow> u64 \<Rightarrow> bytes list \<times> u64" where
  "client_burst tx_size burst counter [] r = ([], r)"
| "client_burst tx_size burst counter (x # todo) r =
     (if x = counter mod burst
      then (case client_burst tx_size burst counter todo r of (txs, r') \<Rightarrow> (client_tx tx_size 0 counter # txs, r'))
      else (case client_burst tx_size burst counter todo (r + 1) of (txs, r') \<Rightarrow> (client_tx tx_size 1 (r + 1) # txs, r')))"

definition client_send_burst :: "nat \<Rightarrow> u64 \<Rightarrow> u64 \<Rightarrow> u64 \<Rightarrow> bytes list \<times> u64" where
  "client_send_burst tx_size rate counter r =
     (let burst = rate div 20 in client_burst tx_size burst counter (map word_of_nat [0..<unat burst]) r)"

text \<open>
  The main loop after \<open>k\<close> ticks of the interval, from the random number \<open>r\<close>.
\<close>

fun client_bursts :: "nat \<Rightarrow> u64 \<Rightarrow> nat \<Rightarrow> u64 \<Rightarrow> u64 \<Rightarrow> bytes list" where
  "client_bursts tx_size rate 0 counter r = []"
| "client_bursts tx_size rate (Suc k) counter r =
     (case client_send_burst tx_size rate counter r of
        (txs, r') \<Rightarrow> txs @ client_bursts tx_size rate k (counter + 1) r')"

text \<open>
  \<open>Client::send\<close>: \<open>connects\<close> says whether the connection is made, \<open>accepted\<close> how many transactions it takes before it fails.
\<close>

definition client_send :: "Client \<Rightarrow> bool \<Rightarrow> nat \<Rightarrow> nat \<Rightarrow> u64 \<Rightarrow> (ClientError, bytes list) result" where
  "client_send cl connects k accepted r =
     rbind (ensure (\<not> cl_size cl < 9) TransactionTooSmall) (\<lambda>_.
     rbind (ensure connects (FailedToConnect (cl_target cl))) (\<lambda>_.
     Ok (take accepted (client_bursts (unat (cl_size cl)) (cl_rate cl) k 0 r))))"

text \<open>
  \<open>main\<close>: the time at which the client starts to send, if it gets there, and the outcome of \<open>send\<close>; \<open>connects\<close> may depend on
  that time.
\<close>

definition client_main ::
    "(string \<Rightarrow> SocketAddr option) \<Rightarrow> (SocketAddr \<Rightarrow> nat \<Rightarrow> bool) \<Rightarrow> ClientArgs \<Rightarrow> nat \<Rightarrow> nat \<Rightarrow> u64 \<Rightarrow>
     (ClientError, (nat \<times> bytes list) option) result" where
  "client_main v6 up m k accepted r = rbind (client_parse v6 m) (\<lambda>cl. case client_wait up cl of
     None \<Rightarrow> Ok None
   | Some t \<Rightarrow> rbind (client_send cl (up (cl_target cl) t) k accepted r) (\<lambda>txs. Ok (Some (t, txs))))"

section \<open>Lemmas\<close>

lemma connect_loop_end:
  assumes "connect_loop up t = Some t'"
  shows "t \<le> t' \<and> up t'"
proof (rule connect_loop.raw_induct [of "\<lambda>up t t'. t \<le> t' \<and> up t'", OF _ assms])
  fix loop :: "(nat \<Rightarrow> bool) \<Rightarrow> nat \<Rightarrow> nat option" and up t t'
  assume IH: "\<And>up t t'. loop up t = Some t' \<Longrightarrow> t \<le> t' \<and> up t'" and step: "(if up t then Some t else loop up (t + 10)) = Some t'"
  show "t \<le> t' \<and> up t'"
  proof (cases "up t")
    case False
    with step have "loop up (t + 10) = Some t'" by simp
    then have "t + 10 \<le> t' \<and> up t'" by (rule IH)
    then show ?thesis by simp
  qed (use step in simp)
qed

lemma connect_loop_ends: "up (t + 10 * i) \<Longrightarrow> \<exists>t'. connect_loop up t = Some t' \<and> t' \<le> t + 10 * i"
proof (induction i arbitrary: t)
  case 0
  then show ?case by (subst connect_loop.simps) simp
next
  case (Suc i)
  then have "up ((t + 10) + 10 * i)" by (simp add: algebra_simps)
  with Suc.IH obtain t' where "connect_loop up (t + 10) = Some t'" "t' \<le> (t + 10) + 10 * i" by blast
  then show ?case by (cases "up t") (subst connect_loop.simps, simp)+
qed

lemma fold_max_ge: "x \<in> set xs \<or> x = m \<Longrightarrow> x \<le> fold max xs (m :: nat)"
proof (induction xs arbitrary: x m)
  case (Cons y ys)
  then consider "x \<in> set ys" | "x \<le> max y m" by auto
  then show ?case
  proof cases
    case 2
    moreover have "max y m \<le> fold max ys (max y m)" by (rule Cons.IH) simp
    ultimately show ?thesis by (simp only: fold_Cons comp_apply)
  qed (simp add: Cons.IH)
qed simp

text \<open>Waiting ends if every node is up at one of the times it is tried, and not before each has been up.\<close>

lemma client_wait_after:
  assumes "client_wait up cl = Some t" and "a \<in> set (cl_nodes cl)"
  shows "\<exists>t'. up a t' \<and> t' + unat (cl_synctime cl) \<le> t"
proof -
  let ?ts = "map (\<lambda>a. connect_loop (up a) 0) (cl_nodes cl)"
  have some: "None \<notin> set ?ts" and t: "t = fold max (map the ?ts) 0 + unat (cl_synctime cl)"
    using assms(1) unfolding client_wait_def Let_def by (metis option.distinct(1), metis option.distinct(1) option.inject)
  have "connect_loop (up a) 0 \<in> set ?ts" using assms(2) by simp
  with some obtain t' where t': "connect_loop (up a) 0 = Some t'" by (metis option.exhaust)
  with assms(2) have "t' \<in> set (map the ?ts)" by force
  then have "t' \<le> fold max (map the ?ts) 0" by (simp add: fold_max_ge)
  with connect_loop_end [OF t'] t show ?thesis by auto
qed

lemma client_wait_ends:
  assumes "\<And>a. a \<in> set (cl_nodes cl) \<Longrightarrow> \<exists>i. up a (10 * i)"
  shows "\<exists>t. client_wait up cl = Some t"
proof -
  have "connect_loop (up a) 0 \<noteq> None" if "a \<in> set (cl_nodes cl)" for a
    using assms [OF that] connect_loop_ends [of "up a" 0] by fastforce
  then show ?thesis by (force simp: client_wait_def Let_def)
qed

lemma client_tx_inject:
  assumes "9 \<le> tx_size" and "client_tx tx_size t n = client_tx tx_size t' n'"
  shows "t = t' \<and> n = n'"
proof -
  have len: "length (u64_to_be_bytes m) = 8" for m by (simp add: u64_to_be_bytes_def)
  then have "take 9 (client_tx tx_size a m) = a # u64_to_be_bytes m" for a m
    using assms(1) by (simp add: client_tx_def resize_def)
  with assms(2) have "t # u64_to_be_bytes n = t' # u64_to_be_bytes n'" by metis
  then show ?thesis by (simp add: u64_to_be_bytes_inject)
qed

lemma client_tx_length: "length (client_tx tx_size t n) = tx_size"
  by (simp add: client_tx_def resize_def)

text \<open>The transactions of a burst by tag and number, and those of a whole run: no two are the same.\<close>

fun burst_ids :: "u64 \<Rightarrow> u64 \<Rightarrow> u64 list \<Rightarrow> u64 \<Rightarrow> (byte \<times> u64) list" where
  "burst_ids burst counter [] r = []"
| "burst_ids burst counter (x # xs) r =
     (if x = counter mod burst then (0, counter) # burst_ids burst counter xs r
      else (1, r + 1) # burst_ids burst counter xs (r + 1))"

definition others :: "u64 \<Rightarrow> u64 \<Rightarrow> u64 list \<Rightarrow> nat" where
  "others burst counter xs = length (filter (\<lambda>x. x \<noteq> counter mod burst) xs)"

lemma client_burst_ids:
  "client_burst n burst counter xs r =
     (map (\<lambda>(t, k). client_tx n t k) (burst_ids burst counter xs r), r + word_of_nat (others burst counter xs))"
  by (induction xs arbitrary: r) (simp_all add: others_def algebra_simps)

lemma burst_standard_ids:
  "filter (\<lambda>i. fst i \<noteq> 0) (burst_ids burst counter xs r) =
     map (\<lambda>j. (1, r + 1 + word_of_nat j)) [0..<others burst counter xs]"
proof (induction xs arbitrary: r)
  case Nil
  then show ?case by (simp add: others_def)
next
  case (Cons x xs)
  have "map (\<lambda>j. (1, r + 1 + word_of_nat j)) [0..<Suc m] =
      (1, r + 1) # map (\<lambda>j. (1 :: byte, r + 1 + 1 + word_of_nat j)) [0..<m]" for m
    by (simp add: upt_conv_Cons map_Suc_upt [symmetric] del: upt_Suc)
  with Cons.IH show ?case by (simp add: others_def del: upt_Suc)
qed

lemma burst_sample_ids:
  "distinct xs \<Longrightarrow> filter (\<lambda>i. fst i = 0) (burst_ids burst counter xs r) = (if counter mod burst \<in> set xs then [(0, counter)] else [])"
  by (induction xs arbitrary: r) auto

fun run_ids :: "u64 \<Rightarrow> nat \<Rightarrow> u64 \<Rightarrow> u64 \<Rightarrow> (byte \<times> u64) list" where
  "run_ids burst 0 counter r = []"
| "run_ids burst (Suc k) counter r =
     burst_ids burst counter (map word_of_nat [0..<unat burst]) r @
     run_ids burst k (counter + 1) (r + word_of_nat (others burst counter (map word_of_nat [0..<unat burst])))"

lemma client_bursts_ids:
  "client_bursts n rate k counter r = map (\<lambda>(t, i). client_tx n t i) (run_ids (rate div 20) k counter r)"
  by (induction k arbitrary: counter r) (simp_all add: client_send_burst_def client_burst_ids Let_def)

lemma run_standard_ids:
  "\<exists>m \<le> k * unat burst. filter (\<lambda>i. fst i \<noteq> 0) (run_ids burst k counter r) = map (\<lambda>j. (1, r + 1 + word_of_nat j)) [0..<m]"
proof (induction k arbitrary: counter r)
  case 0
  then show ?case by simp
next
  case (Suc k)
  let ?xs = "map word_of_nat [0..<unat burst] :: u64 list"
  let ?o = "others burst counter ?xs"
  have o: "?o \<le> unat burst" unfolding others_def by (rule order_trans [OF length_filter_le]) simp
  obtain m where m: "m \<le> k * unat burst" and
    ids: "filter (\<lambda>i. fst i \<noteq> 0) (run_ids burst k (counter + 1) (r + word_of_nat ?o)) =
      map (\<lambda>j. (1, r + word_of_nat ?o + 1 + word_of_nat j)) [0..<m]"
    using Suc.IH by blast
  have shift: "map (\<lambda>j. (1 :: byte, r + word_of_nat ?o + 1 + word_of_nat j)) [0..<m] =
      map (\<lambda>j. (1, r + 1 + word_of_nat j)) [?o..<?o + m]"
    by (intro nth_equalityI) (simp_all add: algebra_simps)
  have "filter (\<lambda>i. fst i \<noteq> 0) (run_ids burst (Suc k) counter r) = map (\<lambda>j. (1, r + 1 + word_of_nat j)) [0..<?o + m]"
    using upt_add_eq_append [of 0 ?o m] by (simp only: run_ids.simps filter_append burst_standard_ids ids shift) simp
  moreover have "?o + m \<le> Suc k * unat burst" using o m by simp
  ultimately show ?case by blast
qed

lemma word_of_nat_inject: "i < 2 ^ 64 \<Longrightarrow> j < 2 ^ 64 \<Longrightarrow> (word_of_nat i :: u64) = word_of_nat j \<Longrightarrow> i = j"
  by (drule arg_cong [where f = unat]) (simp add: unat_of_nat)

lemma run_sample_ids:
  assumes "burst \<noteq> 0"
  shows "filter (\<lambda>i. fst i = 0) (run_ids burst k counter r) = map (\<lambda>j. (0, counter + word_of_nat j)) [0..<k]"
proof (induction k arbitrary: counter r)
  case 0
  then show ?case by simp
next
  case (Suc k)
  let ?xs = "map word_of_nat [0..<unat burst] :: u64 list"
  have inj: "inj_on (word_of_nat :: nat \<Rightarrow> u64) {0..<unat burst}"
    using unsigned_less [of burst, where 'a = nat] by (intro inj_onI word_of_nat_inject) (auto simp: less_trans)
  then have "distinct ?xs" by (simp add: distinct_map)
  moreover have "counter mod burst \<in> set ?xs"
  proof -
    have "unat (counter mod burst) < unat burst"
      using assms by (simp add: unat_mod unat_gt_0)
    then have "word_of_nat (unat (counter mod burst)) \<in> (word_of_nat ` {0..<unat burst} :: u64 set)" by (intro imageI) simp
    then show ?thesis by simp
  qed
  moreover have "map (\<lambda>j. (0, counter + word_of_nat j)) [0..<Suc k] =
      (0, counter) # map (\<lambda>j. (0 :: byte, counter + 1 + word_of_nat j)) [0..<k]"
    by (simp add: upt_conv_Cons map_Suc_upt [symmetric] del: upt_Suc)
  ultimately show ?case
    using Suc.IH by (simp add: burst_sample_ids del: upt_Suc)
qed

lemma distinct_by_filter:
  "distinct (filter P xs) \<Longrightarrow> distinct (filter (\<lambda>x. \<not> P x) xs) \<Longrightarrow> distinct xs"
  by (induction xs) (auto split: if_splits)

lemma distinct_counting: "m \<le> 2 ^ 64 \<Longrightarrow> distinct (map (\<lambda>j. (t, a + word_of_nat j :: u64)) [0..<m])"
proof -
  assume m: "m \<le> 2 ^ 64"
  have "i = j" if "i < m" "j < m" "(word_of_nat i :: u64) = word_of_nat j" for i j
    using that m by (intro word_of_nat_inject) (auto intro: less_le_trans)
  then show ?thesis by (auto simp: distinct_map inj_on_def)
qed

lemma run_ids_distinct:
  assumes "k * unat burst \<le> 2 ^ 64" and "burst \<noteq> 0"
  shows "distinct (run_ids burst k counter r)"
proof (rule distinct_by_filter)
  have "1 \<le> unat burst" using assms(2) by (simp add: Suc_leI unat_gt_0)
  then have "k \<le> 2 ^ 64" using assms(1) by (metis dual_order.trans mult.right_neutral mult_le_mono2)
  then show "distinct (filter (\<lambda>i. fst i = 0) (run_ids burst k counter r))"
    by (simp add: run_sample_ids [OF assms(2)] distinct_counting)
  obtain m where "m \<le> k * unat burst" and
    ids: "filter (\<lambda>i. fst i \<noteq> 0) (run_ids burst k counter r) = map (\<lambda>j. (1, r + 1 + word_of_nat j)) [0..<m]"
    using run_standard_ids by blast
  with assms(1) have "m \<le> 2 ^ 64" by linarith
  then show "distinct (filter (\<lambda>i. fst i \<noteq> 0) (run_ids burst k counter r))"
    unfolding ids by (rule distinct_counting)
qed

lemma client_bursts_distinct:
  assumes "9 \<le> n" and "k * unat (rate div 20) \<le> 2 ^ 64"
  shows "distinct (client_bursts n rate k counter r)"
proof (cases "rate div 20 = 0")
  case True
  have "run_ids 0 k counter r = []" for k counter r by (induction k arbitrary: counter r) simp_all
  with True show ?thesis by (simp add: client_bursts_ids)
next
  case False
  have "inj_on (\<lambda>(t, i). client_tx n t i) A" for A
    using client_tx_inject [OF assms(1)] by (fastforce intro: inj_onI)
  with False assms(2) show ?thesis by (simp add: client_bursts_ids distinct_map run_ids_distinct)
qed
lemma client_bursts_size: "tx \<in> set (client_bursts n rate k counter r) \<Longrightarrow> length tx = n"
  by (auto simp: client_bursts_ids client_tx_length)

lemma client_burst_length: "length (fst (client_burst n burst counter xs r)) = length xs"
  by (induction xs arbitrary: r) (simp_all add: case_prod_beta)


end
