(* ===== verification/Example_Files.thy ===== *)
theory Example_Files
  imports Node
begin

text \<open>
  A concrete instance of the record \<open>json_ext\<close>: values printed as tagged bytes, with a parser that reads them
  back. It computes and satisfies what is documented of serde\_json, so that the statements about files can be applied to it.
\<close>

section \<open>A tagged encoding\<close>

fun enc_string :: "string \<Rightarrow> bytes" where
  "enc_string [] = [0]"
| "enc_string (c # s) = 1 # word_of_nat (of_char c) # enc_string s"

fun dec_string :: "bytes \<Rightarrow> (string \<times> bytes) option" where
  "dec_string (b # c # bs) = (if b = 0 then Some ([], c # bs)
     else map_option (\<lambda>(s, rest). (char_of (unat c) # s, rest)) (dec_string bs))"
| "dec_string [b] = (if b = 0 then Some ([], []) else None)"
| "dec_string [] = None"

fun enc_nat :: "nat \<Rightarrow> bytes" where
  "enc_nat 0 = [0]"
| "enc_nat (Suc n) = 1 # enc_nat n"

fun dec_nat :: "bytes \<Rightarrow> (nat \<times> bytes) option" where
  "dec_nat (b # bs) = (if b = 0 then Some (0, bs) else map_option (\<lambda>(n, rest). (Suc n, rest)) (dec_nat bs))"
| "dec_nat [] = None"

definition enc_int :: "int \<Rightarrow> bytes" where
  "enc_int i = (if 0 \<le> i then 0 else 1) # enc_nat (nat \<bar>i\<bar>)"

fun dec_int :: "bytes \<Rightarrow> (int \<times> bytes) option" where
  "dec_int (b # bs) = map_option (\<lambda>(n, rest). (if b = 0 then int n else - int n, rest)) (dec_nat bs)"
| "dec_int [] = None"

fun enc_json :: "json \<Rightarrow> bytes" where
  "enc_json JNull = [0]"
| "enc_json (JBool b) = [1, if b then 1 else 0]"
| "enc_json (JNumber i) = 2 # enc_int i"
| "enc_json (JFloat s) = 3 # enc_string s"
| "enc_json (JString s) = 4 # enc_string s"
| "enc_json (JArray vs) = 5 # concat (map (\<lambda>v. 1 # enc_json v) vs) @ [0]"
| "enc_json (JObject kvs) = 6 # concat (map (\<lambda>(k, v). 1 # enc_string k @ enc_json v) kvs) @ [0]"

fun dec_json :: "nat \<Rightarrow> bytes \<Rightarrow> (json \<times> bytes) option"
  and dec_array :: "nat \<Rightarrow> bytes \<Rightarrow> (json list \<times> bytes) option"
  and dec_object :: "nat \<Rightarrow> bytes \<Rightarrow> ((string \<times> json) list \<times> bytes) option" where
  "dec_json (Suc n) (t # bs) =
     (if t = 0 then Some (JNull, bs)
      else if t = 1 then (case bs of b # rest \<Rightarrow> Some (JBool (b = 1), rest) | [] \<Rightarrow> None)
      else if t = 2 then map_option (\<lambda>(i, rest). (JNumber i, rest)) (dec_int bs)
      else if t = 3 then map_option (\<lambda>(s, rest). (JFloat s, rest)) (dec_string bs)
      else if t = 4 then map_option (\<lambda>(s, rest). (JString s, rest)) (dec_string bs)
      else if t = 5 then map_option (\<lambda>(vs, rest). (JArray vs, rest)) (dec_array n bs)
      else map_option (\<lambda>(kvs, rest). (JObject kvs, rest)) (dec_object n bs))"
| "dec_json _ _ = None"
| "dec_array (Suc n) (b # bs) = (if b = 0 then Some ([], bs) else
     case dec_json n bs of None \<Rightarrow> None
     | Some (v, rest) \<Rightarrow> map_option (\<lambda>(vs, rest). (v # vs, rest)) (dec_array n rest))"
| "dec_array _ _ = None"
| "dec_object (Suc n) (b # bs) = (if b = 0 then Some ([], bs) else
     case dec_string bs of None \<Rightarrow> None
     | Some (k, rest) \<Rightarrow> (case dec_json n rest of None \<Rightarrow> None
       | Some (v, rest) \<Rightarrow> map_option (\<lambda>(kvs, rest). ((k, v) # kvs, rest)) (dec_object n rest)))"
| "dec_object _ _ = None"

definition ex_parse :: "bytes \<Rightarrow> json option" where
  "ex_parse bs = (case dec_json (length bs) bs of
     Some (v, b # rest) \<Rightarrow> if b = 10 \<and> white_space rest then Some v else None
   | _ \<Rightarrow> None)"

lemma dec_enc_string [simp]: "dec_string (enc_string s @ rest) = Some (s, rest)"
proof (induction s)
  case Nil
  then show ?case by (cases rest) simp_all
next
  case (Cons c s)
  have "unat (word_of_nat (of_char c) :: byte) = of_char c" by (simp add: unat_of_nat)
  with Cons show ?case by simp
qed

lemma dec_enc_nat [simp]: "dec_nat (enc_nat n @ rest) = Some (n, rest)"
  by (induction n) simp_all

lemma dec_enc_int [simp]: "dec_int (enc_int i @ rest) = Some (i, rest)"
  by (simp add: enc_int_def)

lemma dec_enc_json: "length (enc_json v) \<le> n \<Longrightarrow> dec_json n (enc_json v @ rest) = Some (v, rest)"
proof (induction v arbitrary: n rest rule: enc_json.induct)
  case (6 vs)
  then obtain m where n: "n = Suc m" by (cases n) simp_all
  have "dec_array m (concat (map (\<lambda>v. 1 # enc_json v) vs) @ 0 # rest) = Some (vs, rest)"
    if "length (concat (map (\<lambda>v. 1 # enc_json v) vs)) < m" for m
    using "6.IH" that
  proof (induction vs arbitrary: m)
    case Nil
    then obtain m' where "m = Suc m'" by (cases m) simp_all
    then show ?case by simp
  next
    case (Cons v vs)
    then obtain m' where m: "m = Suc m'" by (cases m) simp_all
    have "dec_json m' (enc_json v @ concat (map (\<lambda>v. 1 # enc_json v) vs) @ 0 # rest) =
        Some (v, concat (map (\<lambda>v. 1 # enc_json v) vs) @ 0 # rest)"
      using Cons.prems m by (intro Cons.prems(1)) simp_all
    moreover have "dec_array m' (concat (map (\<lambda>v. 1 # enc_json v) vs) @ 0 # rest) = Some (vs, rest)"
      using Cons.prems m by (intro Cons.IH) simp_all
    ultimately show ?case by (simp add: m)
  qed
  from this [of m] "6.prems" n show ?case by simp
next
  case (7 kvs)
  then obtain m where n: "n = Suc m" by (cases n) simp_all
  let ?enc = "\<lambda>kvs. concat (map (\<lambda>(k, v). 1 # enc_string k @ enc_json v) kvs)"
  have "dec_object m (?enc kvs @ 0 # rest) = Some (kvs, rest)" if "length (?enc kvs) < m" for m
    using "7.IH" that
  proof (induction kvs arbitrary: m)
    case Nil
    then obtain m' where "m = Suc m'" by (cases m) simp_all
    then show ?case by simp
  next
    case (Cons x kvs)
    then obtain m' where m: "m = Suc m'" by (cases m) simp_all
    obtain k v where x: "x = (k, v)" by force
    have "dec_json m' (enc_json v @ ?enc kvs @ 0 # rest) = Some (v, ?enc kvs @ 0 # rest)"
      using Cons.prems(2) m x by (intro Cons.prems(1) [of x k v]) simp_all
    moreover have "dec_object m' (?enc kvs @ 0 # rest) = Some (kvs, rest)"
    proof (rule Cons.IH)
      show "dec_json n (enc_json b @ rest) = Some (b, rest)"
        if "y \<in> set kvs" "(a, b) = y" "length (enc_json b) \<le> n" for y a b n rest
        using Cons.prems(1) [of y a b n rest] that by simp
      show "length (?enc kvs) < m'" using Cons.prems(2) m x by simp
    qed
    ultimately show ?case by (simp add: m x)
  qed
  from this [of m] "7.prems" n show ?case by simp
next
  case (2 b)
  then show ?case by (cases n) simp_all
next
  case 1
  then show ?case by (cases n) simp_all
next
  case (3 i)
  then show ?case by (cases n) simp_all
next
  case (4 s)
  then show ?case by (cases n) simp_all
next
  case (5 s)
  then show ?case by (cases n) simp_all
qed

section \<open>The instance\<close>

definition ser_bytes :: "bytes \<Rightarrow> json" where
  "ser_bytes bs = JArray (map ser_uint bs)"

fun de_bytes :: "json \<Rightarrow> bytes option" where
  "de_bytes (JArray vs) = (case collect_results (map de_uint vs) of Ok bs \<Rightarrow> Some bs | _ \<Rightarrow> None)"
| "de_bytes _ = None"

lemma de_ser_bytes: "de_bytes (ser_bytes bs) = Some bs"
proof -
  have "collect_results (map de_uint (map ser_uint bs)) = (Ok bs :: byte list decoded)"
    by (induction bs) simp_all
  then show ?thesis by (simp add: ser_bytes_def)
qed

lemma plain_bytes: "plain_json 126 (ser_bytes bs)"
  by (simp add: ser_bytes_def plain_simps list_all_iff)

definition ex_json :: json_ext where
  "ex_json = \<lparr>json_text = enc_json, json_parse = ex_parse, json_error = (\<lambda>_. ''expected value''),
     pk_share_json = ser_bytes, pk_share_of_json = de_bytes, sk_share_json = ser_bytes, sk_share_of_json = de_bytes,
     pk_set_json = ser_bytes, pk_set_of_json = de_bytes, v6_parse = (\<lambda>_. None)\<rparr>"

lemma ex_json_ok: "json_ok ex_json"
  by (simp add: json_ok_def ex_json_def ex_parse_def dec_enc_json)

lemma ex_tss_serde: "tss_serde_ok ex_json"
  by (simp add: tss_serde_ok_def ex_json_def de_ser_bytes plain_bytes)

lemma ex_v6: "v6_bracketed (v6_parse ex_json)"
  by (simp add: v6_bracketed_def ex_json_def)

end
