(* ===== verification/Examples.thy ===== *)
theory Examples
  imports Chain Agreement_Props Coin_Props Mempool_Live Example_Files Client Fuel_Props
begin

text \<open>
  Concrete data the statements of the development are applied to: external functions that are simple enough to
  compute with and satisfy the documented behaviour, committees of one, four and six members, and states of a node.
\<close>

definition ex_key :: "nat \<Rightarrow> PublicKey" where
  "ex_key i = PublicKey (replicate 31 0 @ [word_of_nat i])"

definition ex_sig :: bytes where
  "ex_sig = replicate 64 1"

definition ex_ext :: node_ext where
  "ex_ext = \<lparr>
     sha512 = (\<lambda>bs. sum_list bs # replicate 63 0),
     base64_encode = (\<lambda>bs. map (\<lambda>b. char_of (unat b)) bs),
     base64_decode = (\<lambda>s. Some (map (\<lambda>c. word_of_nat (of_char c)) s)),
     ed_signature_from_bytes = (\<lambda>_. True), ed_public_from_bytes = (\<lambda>_. True), ed_keypair_from_bytes = (\<lambda>_. True),
     ed_sign = (\<lambda>sk m. ex_sig), ed_verify_strict = (\<lambda>pk m sig. sig = ex_sig),
     ed_verify_batch = (\<lambda>ms ss ks. \<forall>s \<in> set ss. s = ex_sig),
     tss_sign = (\<lambda>sk m. []), tss_verify = (\<lambda>pk i sh m. True), tss_combine = (\<lambda>pk shs. Some (replicate 8 0)),
     db_get = (\<lambda>puts k. Ok (map_of puts k)),
     ser_block = (\<lambda>b. digest_bytes (block_parent b)), de_block = (\<lambda>bs. None),
     ser_payload = (\<lambda>p. concat (pl_transactions p)), de_payload = (\<lambda>bs. None),
     cap_with = (\<lambda>n. n), cap_insert = (\<lambda>x S c. max c (fcard (finsert x S))), cap_remove = (\<lambda>x S c. max c (fcard (S |-| {|x|}))),
     iter_digests = (\<lambda>S. map Digest (sorted_list_of_set (digest_bytes ` fset S))),
     iter_sigs = (\<lambda>m. m)\<rparr>"

lemma ex_ed25519: "ed25519_ok ex_ext"
  by (simp add: ed25519_ok_def ex_ext_def ex_sig_def)

lemma ex_rocksdb: "rocksdb_ok ex_ext"
  by (simp add: rocksdb_ok_def ex_ext_def)

lemma ex_base64: "base64_ok ex_ext"
proof -
  have "unat (b :: byte) mod 256 = unat b" for b
    using unsigned_less [of b, where 'a = nat] by simp
  then show ?thesis by (simp add: base64_ok_def ex_ext_def comp_def)
qed

lemma ex_batch: "batch_complete ex_ext"
  by (auto simp: batch_complete_def ex_ext_def in_set_conv_nth)

lemma ex_hash_tables: "hash_tables_ok ex_ext"
proof -
  have inj: "inj_on digest_bytes A" for A by (auto simp: inj_on_def intro: Digest.expand)
  have "distinct (map Digest (sorted_list_of_set (digest_bytes ` fset S)))" for S
    by (simp add: distinct_map inj_on_def)
  moreover have "set (map Digest (sorted_list_of_set (digest_bytes ` fset S))) = fset S" for S
    by (auto simp: image_image)
  ultimately show ?thesis
    by (simp add: hash_tables_ok_def ex_ext_def)
qed

definition ex_service :: "nat \<Rightarrow> SignatureService" where
  "ex_service i = \<lparr>ss_secret = SecretKey (replicate 32 0 @ key_bytes (ex_key i)), ss_tss = Some []\<rparr>"

lemma ex_service_key: "service_key (ex_service i) = ex_key i"
  by (simp add: service_key_def ex_service_def ex_key_def)

definition one_committee :: Committee where
  "one_committee = testbed_committee [ex_key 5]"

definition four_committee :: Committee where
  "four_committee = testbed_committee [ex_key 5, ex_key 2, ex_key 3, ex_key 4]"

lemma one_bft: "bft_committee one_committee"
  using testbed_wf [of "[ex_key 5]"] testbed_total_stake [of "[ex_key 5]"]
  by (simp add: bft_committee_def one_committee_def)

lemma four_keys: "distinct [ex_key 5, ex_key 2, ex_key 3, ex_key 4]"
  by (simp add: ex_key_def)

lemma four_bft: "bft_committee four_committee"
  using testbed_wf [OF four_keys] testbed_total_stake [OF four_keys]
  by (simp add: bft_committee_def four_committee_def)

definition ex_mempool :: Mempool where
  "ex_mempool = mempool_core_new ex_ext (ex_key 5) (testbed_mempool_committee [ex_key 5]) mparameters_default store_new
     (runner_new (ex_key 5) (ex_service 5) 1000)"

definition ex_core :: Core where
  "ex_core = core_new (ex_key 5) one_committee parameters_default (ex_service 5) [] (leader_elector_new one_committee 2)
     ex_mempool synchronizer_new True False"

text \<open>A first block that nobody has signed, and the vote of the only member for it.\<close>

definition ex_block :: Block where
  "ex_block = block_default\<lparr>b_height := 1, b_author := ex_key 7\<rparr>"

definition ex_signature :: Signature where
  "ex_signature = \<lparr>part1 = replicate 32 1, part2 = replicate 32 1\<rparr>"

definition ex_vote :: HVote where
  "ex_vote = \<lparr>hv_hash = block_digest ex_ext ex_block, hv_height = 1, hv_round = 0, hv_epoch = 0,
     hv_proposer = ex_key 7, hv_tag = OPT, hv_author = ex_key 5, hv_signature = ex_signature\<rparr>"

definition ex_voted :: Core where
  "ex_voted = fst (handle_event ex_ext 0 (CoreMessage (HsLoopBack ex_block)) ex_core)"

definition ex_qc :: QC where
  "ex_qc = qc_of_vote ex_vote [(ex_key 5, ex_signature)]"

lemma ex_sign: "request_signature ex_ext (ex_service i) d = Ok ex_signature"
proof -
  have "take 32 ex_sig = replicate 32 1" "take 32 (drop 32 ex_sig) = replicate 32 1"
    by (simp_all add: ex_sig_def)
  then show ?thesis
    by (simp add: request_signature_def signature_new_def ex_ext_def ex_signature_def Let_def)
qed

lemma ex_core_simps:
  "k_name ex_core = ex_key 5" "k_height ex_core = 1" "k_last_voted_height ex_core = 0" "k_last_committed_height ex_core = 0"
  "k_pes_path ex_core = False" "k_signature_service ex_core = ex_service 5" "k_signed_votes ex_core = []"
  "k_commit_channel ex_core = []" "k_commit_log ex_core = []" "k_epoch ex_core = 0" "k_committee ex_core = one_committee"
  "k_leader_elector ex_core = leader_elector_new one_committee 2" "k_mempool ex_core = ex_mempool" "k_unhandle_message ex_core = []"
  "k_aggregator ex_core = aggregator_new one_committee" "k_parameters ex_core = parameters_default" "k_high_qc ex_core = qc_genesis"
  "k_synchronizer ex_core = synchronizer_new" "k_tx_core ex_core = []" "k_tx_smvba ex_core = []"
  by (simp_all add: ex_core_def core_new_def update_prepare_state_def update_smvba_state_def)

lemma one_authorities: "map fst (authorities one_committee) = [ex_key 5]"
  by (simp add: one_committee_def testbed_authorities)

lemma ex_leader: "index_of_leader (ex_key 5) 1 ex_core = Ok (Some 0)"
  by (simp add: index_of_leader_def index_as_leader_def get_leader_idx_def ex_core_simps leader_elector_new_def
      one_authorities Let_def)

lemma ex_new_vote: "hvote_new ex_ext (ex_service 5) ex_block (ex_key 5) OPT = Ok ex_vote"
  by (simp add: hvote_new_def Let_def ex_sign ex_vote_def ex_block_def block_default_def)

lemma ex_run: "(epoch_step ex_ext)\<^sup>*\<^sup>* ex_core ex_voted"
  unfolding ex_voted_def by (rule r_into_rtranclp) (rule epoch_step.event)

lemma ex_block_simps: "qc_eq (b_qc ex_block) qc_genesis" "b_height ex_block = 1" "b_payload ex_block = []" "b_author ex_block = ex_key 7"
    "b_epoch ex_block = 0"
  by (simp_all add: ex_block_def block_default_def qc_eq_def)

lemma ex_vote_in: "ex_vote \<in> set (k_signed_votes ex_voted)"
  unfolding ex_voted_def
  by (rule loopback_signs [where idx = "Some 0"])
    (simp_all add: ex_core_simps ex_leader [simplified] ex_new_vote ex_block_simps)

text \<open>Sending a vote signs no other one, as long as no handler is called.\<close>

interpretation unvoted: core_frame "\<lambda>s t. k_signed_votes t = k_signed_votes s" E for E
  by unfold_locales (auto simp: obs_def)

lemma send_opt_vote_signs_none: "k_signed_votes (fst (send_opt_vote E (exec E 0) v s)) = k_signed_votes s"
proof -
  let ?R = "\<lambda>s t. k_signed_votes t = k_signed_votes s"
  have "keeps ?R (process_qc qc)" for qc
    unfolding process_qc_def
    by (intro keep_rules) (auto intro!: unvoted.keeps_modify unvoted.advance_height_step simp: update_high_qc_def)
  moreover have "keeps ?R (in_aggregator f)" for f :: "Aggregator \<Rightarrow> Aggregator \<times> QC option ConsensusResult"
    by (simp add: keeps_def in_aggregator_def case_prod_beta)
  ultimately have "keeps ?R (count_opt_vote (exec E 0) idx v)" for idx v
    unfolding count_opt_vote_def by (intro keep_rules) (auto intro!: unvoted.keeps_prims split: option.splits)
  then have "keeps ?R (handle_opt_vote E (exec E 0) v)"
    unfolding handle_opt_vote_def by (intro keep_rules) (auto intro!: unvoted.keeps_prims)
  then have "keeps ?R (send_opt_vote E (exec E 0) v)"
    unfolding send_opt_vote_def by (intro keep_rules) (auto intro!: unvoted.keeps_prims unvoted.keeps_transmit)
  then show ?thesis by (simp add: keeps_def)
qed

lemma ex_votes: "k_signed_votes ex_voted = [ex_vote]"
proof -
  obtain u where "k_signed_votes u = k_signed_votes ex_core @ [ex_vote]" "ex_voted = fst (send_opt_vote ex_ext (exec ex_ext 0) ex_vote u)"
    unfolding ex_voted_def
    by (rule loopback_sends [of ex_block ex_core "Some 0" ex_ext ex_vote 0])
      (simp_all add: ex_core_simps ex_leader [simplified] ex_new_vote ex_block_simps)
  then show ?thesis using send_opt_vote_signs_none [of ex_ext ex_vote u] by (simp add: ex_core_simps)
qed

lemma ex_vote_signed: "ex_vote \<in> set (votes_since ex_core ex_voted)"
  using ex_vote_in by (simp add: votes_since_def ex_core_simps)

lemma ex_runs: "epoch_runs ex_ext {ex_key 5} (\<lambda>_. ex_core) (\<lambda>_. ex_voted)"
  using ex_run by (simp add: epoch_runs_def)

lemma ex_sound_runs: "sound_runs ex_ext one_committee {ex_key 5} (\<lambda>_. ex_core) (\<lambda>_. ex_voted)"
proof -
  let ?w = "epoch_of one_committee {ex_key 5} (\<lambda>_. ex_core) (\<lambda>_. ex_voted)"
  have "sound_event ex_ext ?w (CoreMessage (HsLoopBack ex_block))" by (simp add: good_def ex_block_simps)
  then have "(sound_step ex_ext ?w)\<^sup>*\<^sup>* ex_core ex_voted"
    unfolding ex_voted_def by (intro r_into_rtranclp sound_step.event)
  then show ?thesis by (simp add: sound_runs_def ex_core_simps)
qed

lemma one_names: "committee_names one_committee = [ex_key 5]"
  by (simp add: committee_names_def one_authorities)

lemma one_stake: "stake one_committee (ex_key 5) = 1"
  by (simp add: stake_def one_committee_def testbed_authorities)

lemma ex_few_faults: "few_faults one_committee {ex_key 5}"
  by (simp add: few_faults_def one_names)

lemma one_quorum: "quorum_threshold one_committee = 1"
  by (simp add: quorum_threshold_def total_votes_def one_committee_def testbed_authorities)

lemma ex_flatten: "signature_flatten ex_signature = ex_sig"
  by (simp add: signature_flatten_def ex_signature_def ex_sig_def flip: replicate_add)

lemma ex_sig_verifies: "signature_verify ex_ext ex_signature d k = Ok ()"
  by (simp add: signature_verify_Ok ex_flatten) (simp add: ex_ext_def)

lemma ex_sigs_verify: "\<forall>(k, s) \<in> set votes. s = ex_signature \<Longrightarrow> verify_sigs ex_ext d votes = Ok ()"
  by (auto simp: verify_sigs_def verify_batch_Ok ex_ext_def ex_flatten)

lemma ex_qc_verifies: "qc_verify ex_ext one_committee ex_qc = Ok ()"
  by (simp add: qc_verify_def ex_qc_def one_stake one_quorum ex_sigs_verify)

lemma ex_qc_verifies': "qc_verify ex_ext one_committee (ex_qc\<lparr>qc_acceptor := k\<rparr>) = Ok ()"
  by (simp add: qc_verify_def ex_qc_def qc_of_vote_def one_stake one_quorum ex_sigs_verify)

lemma ex_backed: "backed {ex_key 5} (\<lambda>k. votes_since ex_core ex_voted) ex_qc"
  using ex_vote_signed by (auto simp: backed_def ex_qc_def qc_of_vote_def)

lemma ex_backed': "backed {ex_key 5} (\<lambda>k. votes_since ex_core ex_voted) (ex_qc\<lparr>qc_acceptor := k\<rparr>)"
  using ex_vote_signed by (auto simp: backed_def ex_qc_def qc_of_vote_def)

text \<open>A first block with a payload, and the walk over its ancestors.\<close>

definition ex_full_block :: Block where
  "ex_full_block = ex_block\<lparr>b_payload := [Digest [1]]\<rparr>"

lemma ex_mempool_simps: "mp_alive ex_mempool" "mp_store ex_mempool = store_new" "mp_synchronizer ex_mempool = msync_new"
  by (simp_all add: ex_mempool_def mempool_core_new_def)

lemma ex_full_qc: "qc_eq (b_qc ex_full_block) qc_genesis" "b_height ex_full_block = 1" "b_payload ex_full_block = [Digest [1]]"
  by (simp_all add: ex_full_block_def ex_block_def block_default_def qc_eq_def)

text \<open>A block on top of the genesis block is always committed.\<close>

lemma commit_on_genesis:
  assumes "qc_eq (b_qc b) qc_genesis" and "mp_alive (k_mempool s)"
  obtains t where "commit E b s = (t, Ok ())"
proof -
  have "snd (commit E b s) = Ok ()"
    using assms by (simp add: commit_def commit_block_def comp_defs in_mempool_def driver_cleanup_par_def
        get_parent_block_def block_genesis_def block_default_def numeral_2_eq_2 case_prod_beta)
  then show ?thesis using that by (metis prod.collapse)
qed

lemma store_block_Ok:
  obtains t where "store_block E b s = (t, Ok ())" and "mp_alive (k_mempool t) = mp_alive (k_mempool s)"
  by (simp add: store_block_def in_mempool_def)

lemma ex_commit: "commit ex_ext ex_full_block ex_core = (fst (commit ex_ext ex_full_block ex_core), Ok ())"
  using commit_on_genesis [of ex_full_block ex_core] by (metis ex_full_qc(1) ex_core_simps(13) ex_mempool_simps(1) fst_conv)

lemma ex_acyclic: "acyclic_store ex_ext (k_store ex_core) rank"
  by (simp add: acyclic_store_def read_block_def store_read_def ex_ext_def ex_core_simps ex_mempool_simps store_new_def)

text \<open>The certificate the only member's vote completes, and a coin.\<close>

lemma ex_vote_simps: "hv_author ex_vote = ex_key 5" "hv_signature ex_vote = ex_signature"
  by (simp_all add: ex_vote_def)

lemma ex_assembles: "add_hs_vote ex_vote (k_aggregator ex_core) = (fst (add_hs_vote ex_vote (k_aggregator ex_core)), Ok (Some ex_qc))"
proof -
  have "snd (add_hs_vote ex_vote (k_aggregator ex_core)) = Ok (Some ex_qc)"
    by (simp add: add_hs_vote_result ex_core_simps aggregator_new_def entry_or_def qcmaker_append_def qcmaker_new_def Let_def
        ex_vote_simps one_stake one_quorum ex_qc_def qc_of_vote_def)
  then show ?thesis by (metis prod.collapse)
qed

definition ex_share :: RandomnessShare where
  "ex_share = \<lparr>rs_height = 1, rs_epoch = 0, rs_round = 1, rs_author = ex_key 5, rs_signature_share = []\<rparr>"

definition ex_coin :: RandomCoin where
  "ex_coin = \<lparr>rc_height = 1, rc_epoch = 0, rc_round = 1, rc_leader = ex_key 5, rc_shares = [ex_share]\<rparr>"

lemma one_coin_threshold: "random_coin_threshold one_committee = 1"
  by (simp add: random_coin_threshold_def total_votes_def one_committee_def testbed_authorities)

lemma ex_tosses: "snd (add_smvba_random ex_ext [] ex_share (aggregator_new one_committee)) = Ok (Some ex_coin)"
proof -
  have "map fst (authorities one_committee) = [ex_key 5]" by (rule one_authorities)
  then have "coin_leader one_committee (replicate 8 0) = Ok (ex_key 5)"
    by (auto simp: coin_leader_def slice_to_def committee_size_def)
  moreover have "committee_id one_committee (ex_key 5) = Ok 0"
    by (simp add: committee_id_def one_committee_def testbed_authorities)
  moreover have "tss_combine ex_ext pk shs = Some (replicate 8 0)" for pk shs
    by (simp add: ex_ext_def)
  moreover have "rs_author ex_share = ex_key 5" by (simp add: ex_share_def)
  ultimately show ?thesis
    by (simp add: add_smvba_random_def case_prod_beta Let_def aggregator_new_def entry_or_def coinmaker_append_def
        coinmaker_new_def one_stake one_coin_threshold) (simp add: ex_coin_def ex_share_def)
qed

lemma ex_db: "db_get ex_ext puts k = Ok (map_of puts k)"
  by (simp add: ex_ext_def)

lemma ex_stranger: "\<not> committee_exists (mp_committee ex_mempool) (ex_key 9)"
  by (simp add: ex_mempool_def mempool_core_new_def committee_exists_def testbed_mempool_committee_def mcommittee_new_def
      ex_key_def)

lemma ex_default_signature: "signature_verify ex_ext signature_default d k \<noteq> Ok ()"
  by (simp add: signature_verify_Ok signature_default_def signature_flatten_def) (simp add: ex_ext_def ex_sig_def numeral_eq_Suc)

section \<open>Further committees and keys\<close>

definition six_committee :: Committee where
  "six_committee = testbed_committee [ex_key 5, ex_key 2, ex_key 3, ex_key 4, ex_key 6, ex_key 7]"

lemma six_keys: "distinct [ex_key 5, ex_key 2, ex_key 3, ex_key 4, ex_key 6, ex_key 7]"
  by (simp add: ex_key_def)

lemma six_wf: "wf_committee six_committee"
  using testbed_wf [OF six_keys] by (simp add: six_committee_def)

lemma six_total: "total_stake six_committee = 6"
  using testbed_total_stake [OF six_keys] by (simp add: six_committee_def)

lemma four_stake: "stake four_committee (ex_key 5) = 1"
  using testbed_authorities [OF four_keys] by (simp add: stake_def four_committee_def)

lemma four_quorum: "quorum_threshold four_committee = 3"
  using testbed_authorities [OF four_keys] by (simp add: quorum_threshold_def total_votes_def four_committee_def)

definition ex_spb_vote :: SPBVote where
  "ex_spb_vote = \<lparr>sp_hash = Digest [], sp_phase = LOCK_PHASE, sp_height = 1, sp_epoch = 0, sp_round = 1,
     sp_proposer = ex_key 5, sp_author = ex_key 5, sp_signature = ex_signature\<rparr>"

lemma ex_spb_vote_author: "sp_author ex_spb_vote = ex_key 5"
  by (simp add: ex_spb_vote_def)

lemma ex_spb_vote_verifies: "spbvote_verify ex_ext four_committee ex_spb_vote = Ok ()"
  by (simp add: spbvote_verify_Ok ex_spb_vote_author four_stake) (simp add: ex_spb_vote_def ex_sig_verifies)

lemma ex_outsider: "stake one_committee (ex_key 9) = 0"
  by (simp add: stake_def one_committee_def testbed_authorities ex_key_def)

lemma ex_unknown: "stake one_committee (ex_key 7) = 0"
  by (simp add: stake_def one_committee_def testbed_authorities ex_key_def)

section \<open>Files\<close>

definition ex_gen :: "nat keypair_gen" where
  "ex_gen g = (key_bytes (ex_key g), replicate 32 0 @ key_bytes (ex_key g), g + 1)"

lemma ex_gen_ok: "keypair_gen_ok ex_ext ex_gen"
  by (simp add: keypair_gen_ok_def ex_gen_def ex_key_def ex_ext_def)

lemma ex_names: "map sec_name (generate_secrets ex_gen 4 2) = [ex_key 2, ex_key 3, ex_key 4, ex_key 5]"
  by (simp add: eval_nat_numeral ex_gen_def secret_new_def generate_production_keypair_def generate_keypair_def)

lemma ex_names_distinct: "distinct (map sec_name (generate_secrets ex_gen 4 2))"
  unfolding ex_names by (simp add: ex_key_def)

definition ex_fs :: FileSystem where
  "ex_fs = \<lparr>fs_files = Map.empty, fs_refuses = Map.empty\<rparr>"

definition ex_share_files :: "string list" where
  "ex_share_files = [''t0'', ''t1'', ''t2'', ''t3'']"

definition ex_key_set :: "usize \<Rightarrow> key_set" where
  "ex_key_set t = \<lparr>ks_public = [ucast t], ks_secret_share = (\<lambda>i. [ucast i]), ks_public_share = (\<lambda>i. [ucast i])\<rparr>"

lemma ex_deployed:
  "\<exists>fs1 fs2. deploy_testbed ex_ext ex_json ex_gen 2 4 ex_fs = (fs1, Ok (map testbed_args [0..<4])) \<and>
     print_threshold_key_file ex_json ex_key_set ex_share_files fs1 = (fs2, Ok ()) \<and>
     (\<forall>f \<in> set ex_share_files. fs_files fs1 f = None)"
proof -
  obtain fs1 where fs1: "deploy_testbed ex_ext ex_json ex_gen 2 4 ex_fs = (fs1, Ok (map testbed_args [0..<4]))"
    using deploy_testbed_ends [OF _ ex_v6, of ex_fs 4 ex_ext ex_gen 2] by (auto simp: ex_fs_def)
  note files = deploy_testbed_files [OF fs1 ex_v6]
  then have "fs_refuses fs1 = Map.empty" by (simp add: ex_fs_def)
  then obtain fs2 where "print_threshold_key_file ex_json ex_key_set ex_share_files fs1 = (fs2, Ok ())"
    using print_threshold_ends by blast
  moreover have "fs_files fs1 f = None" if "f \<in> set ex_share_files" for f
  proof -
    have "f \<noteq> ''committee.json''" "f \<notin> range node_key_file" "take 3 f \<noteq> ''db_''"
      using that by (auto simp: ex_share_files_def node_key_file_def)
    then have "fs_files fs1 f = fs_files ex_fs f" using files by blast
    then show ?thesis by (simp add: ex_fs_def)
  qed
  ultimately show ?thesis using fs1 by blast
qed

section \<open>A node with a payload\<close>

definition ex_payload :: Payload where
  "ex_payload = \<lparr>pl_transactions = [[7]], pl_author = ex_key 5, pl_signature = ex_signature\<rparr>"

definition ex_filled :: Core where
  "ex_filled = ex_core\<lparr>k_mempool := fst (mempool_turn (mempool_dispatch ex_ext (PayloadMsg ex_payload)) ex_mempool)\<rparr>"

lemma ex_accepted: "snd (handle_others_payload ex_ext ex_payload ex_mempool) = Ok ()"
proof -
  have "committee_exists (mp_committee ex_mempool) (ex_key 5)"
    by (simp add: ex_mempool_def mempool_core_new_def committee_exists_def testbed_mempool_committee_def mcommittee_new_def)
  moreover have "payload_size ex_payload \<le> unat (m_max_payload_size (mp_parameters ex_mempool))"
    by (simp add: payload_size_def ex_payload_def ex_mempool_def mempool_core_new_def mparameters_default_def)
  moreover have "pl_author ex_payload = ex_key 5" "pl_signature ex_payload = ex_signature"
    by (simp_all add: ex_payload_def)
  ultimately show ?thesis
    by (simp add: handle_others_payload_def comp_defs ensure_def ex_sig_verifies store_payload_def)
qed

lemma ex_filled_queue: "payload_digest ex_ext ex_payload |\<in>| mp_opt_queue (k_mempool ex_filled)"
  using ex_accepted
  by (simp add: ex_filled_def mempool_turn_def ex_mempool_simps others_payload_eq Let_def)

lemma ex_filled_run: "(node_step ex_ext)\<^sup>*\<^sup>* ex_core ex_filled"
proof -
  have "mempool_step ex_ext ex_mempool (fst (mempool_turn (mempool_dispatch ex_ext (PayloadMsg ex_payload)) ex_mempool))"
    by (rule mempool_step.recv)
  then have "epoch_step ex_ext ex_core ex_filled"
    unfolding ex_filled_def by (intro epoch_step.actor actor_step.mempool) (simp add: ex_core_simps)
  then show ?thesis by (intro r_into_rtranclp node_step.inside)
qed

section \<open>A vote on its way\<close>

definition ex_peer :: SocketAddr where
  "ex_peer = loopback_addr 7201"

definition ex_ser :: "ConsensusMessage \<Rightarrow> bytes" where
  "ex_ser m = [3]"

definition ex_de :: "bytes \<Rightarrow> ConsensusMessage option" where
  "ex_de bs = (if bs = [3] then Some (HSVote ex_vote) else None)"

lemma ex_filtered:
  "\<exists>f. (filter_step parameters_default ex_ser)\<^sup>*\<^sup>* (filter_new [(HSVote ex_vote, [ex_peer])] []) f \<and>
     ln_output (ft_core f) = [NetMessage [3] [ex_peer]]"
proof -
  let ?f0 = "filter_new [(HSVote ex_vote, [ex_peer])] []"
  let ?f1 = "?f0\<lparr>ft_core := lane_recv parameters_default False (ft_now ?f0) (ft_core ?f0)\<rparr>"
  let ?f2 = "?f1\<lparr>ft_core := lane_next ex_ser (ft_now ?f1) 0 (ft_core ?f1)\<rparr>"
  have "filter_step parameters_default ex_ser ?f0 ?f1" "filter_step parameters_default ex_ser ?f1 ?f2"
    by (rule filter_step.recv, simp add: filter_new_def, rule filter_step.pass, simp add: filter_new_def)
  moreover have "ln_output (ft_core ?f2) = [NetMessage [3] [ex_peer]]"
    by (simp add: filter_new_def lane_new_def lane_recv_def lane_next_def due_def filter_delay_def filter_transmit_def ex_ser_def)
  ultimately show ?thesis by (meson converse_rtranclp_into_rtranclp rtranclp.rtrancl_refl)
qed

lemma ex_sent: "\<exists>n. net_step\<^sup>*\<^sup>* (net_sender_new [NetMessage [3] [ex_peer]]) n \<and> wire_to ex_peer n = [[3]]"
proof -
  let ?n0 = "net_sender_new [NetMessage [3] [ex_peer]]"
  let ?n1 = "?n0\<lparr>ns_transmit := [], ns_current := ([3], [ex_peer])\<rparr>"
  let ?n2 = "net_send_one True [3] ex_peer (?n1\<lparr>ns_current := ([3], [])\<rparr>)"
  have "net_step ?n0 ?n1" by (rule net_step.take) (simp_all add: net_sender_new_def)
  moreover have "net_step ?n1 ?n2" by (rule net_step.forward) simp
  moreover have "net_step ?n2 (worker_sends 0 ?n2)" by (rule net_step.sends)
  moreover have "wire_to ex_peer (worker_sends 0 ?n2) = [[3]]"
    by (simp add: wire_to_def worker_sends_def net_send_one_def spawn_worker_def net_sender_new_def)
  ultimately show ?thesis by (meson converse_rtranclp_into_rtranclp rtranclp.rtrancl_refl)
qed

lemma ex_received:
  "\<exists>r. (receiver_step ex_de)\<^sup>*\<^sup>* \<lparr>rv_accepted = [], rv_left = [], rv_deliver = []\<rparr> r \<and>
     rv_accepted r = [[Some [3]]] \<and> delivered_from 0 r = [HSVote ex_vote]"
proof -
  let ?r0 = "\<lparr>rv_accepted = [], rv_left = [], rv_deliver = []\<rparr> :: ConsensusMessage NetReceiver"
  let ?r1 = "accept_connection (Some [Some [3]]) ?r0"
  have "receiver_step ex_de ?r0 ?r1" "receiver_step ex_de ?r1 (worker_receives ex_de 0 ?r1)"
    by (rule receiver_step.accept, rule receiver_step.frame)
  moreover have "rv_accepted (worker_receives ex_de 0 ?r1) = [[Some [3]]]"
    "delivered_from 0 (worker_receives ex_de 0 ?r1) = [HSVote ex_vote]"
    by (simp_all add: worker_receives_def accept_connection_def ex_de_def delivered_from_def)
  ultimately show ?thesis by (meson converse_rtranclp_into_rtranclp rtranclp.rtrancl_refl)
qed

section \<open>Signatures of an epoch\<close>

lemma ex_unforgeable: "unforgeable ex_ext {ex_key 5} (\<lambda>_. ex_voted) (ex_qc\<lparr>qc_acceptor := k\<rparr>)"
  by (auto simp: unforgeable_def ex_votes qc_digest_def hvote_digest_def ex_qc_def qc_of_vote_def)

lemma ex_no_collision: "no_collision ex_ext {ex_key 5} (\<lambda>_. ex_voted) (ex_qc\<lparr>qc_acceptor := k\<rparr>)"
  by (simp add: no_collision_def ex_votes ex_qc_def qc_of_vote_def)

lemma ex_unvoted: "epoch_unvoted {ex_key 5} e (\<lambda>_. ex_core)"
  by (simp add: epoch_unvoted_def ex_core_simps)

section \<open>Coins of four members\<close>

text \<open>As the benchmark's configuration has it: one unit of stake each and different ids.\<close>

definition coin_committee :: Committee where
  "coin_committee = committee_new (map (\<lambda>(i, k). (ex_key k, of_nat i, 1, loopback_addr (7200 + i), loopback_addr (7300 + i)))
     (zip [0..<4] [5, 2, 3, 4])) 1"

lemma coin_authorities: "authorities coin_committee =
  map (\<lambda>(i, k). (ex_key k, \<lparr>a_name = ex_key k, a_id = of_nat i, a_stake = 1, a_address = loopback_addr (7200 + i),
    a_smvba_address = loopback_addr (7300 + i)\<rparr>)) (zip [0..<4] [5, 2, 3, 4])"
  by (simp add: coin_committee_def committee_new_def authority_of_def upt_rec ex_key_def)

lemma coin_names: "committee_names coin_committee = [ex_key 5, ex_key 2, ex_key 3, ex_key 4]"
  by (simp add: committee_names_def coin_authorities upt_rec)

lemma coin_wf: "wf_committee coin_committee"
  by (simp add: wf_committee_def total_stake_def keyed_by_name_def coin_authorities upt_rec) (simp add: ex_key_def)

lemma coin_unit: "unit_stakes coin_committee"
  by (simp add: unit_stakes_def coin_names stake_def coin_authorities upt_rec)

lemma coin_ids: "distinct_ids coin_committee"
  by (simp add: distinct_ids_def coin_authorities upt_rec)

lemma coin_threshold: "random_coin_threshold coin_committee = 2"
  by (simp add: random_coin_threshold_def total_votes_def coin_authorities upt_rec)

lemma ex_combine: "combine_ok ex_ext pk n"
  by (simp add: combine_ok_def ex_ext_def)

section \<open>A block that waits\<close>

definition ex_wanting :: Block where
  "ex_wanting = ex_block\<lparr>b_author := ex_key 5, b_payload := [payload_digest ex_ext ex_payload]\<rparr>"

definition ex_asked :: Mempool where
  "ex_asked = fst (driver_verify ex_ext ex_wanting OPT ex_mempool)"

definition ex_registered :: Mempool where
  "ex_registered = msync_recv ex_ext 0 ex_asked"

definition ex_arrived :: Mempool where
  "ex_arrived = fst (mempool_turn (mempool_dispatch ex_ext (PayloadMsg ex_payload)) ex_registered)"

lemma ex_asked_eq: "ex_asked = set_msync (\<lambda>s. s\<lparr>ms_inner_channel := [Sync {|payload_digest ex_ext ex_payload|} ex_wanting OPT]\<rparr>) ex_mempool"
proof -
  have "missing_payload ex_ext (mp_store ex_mempool) ex_wanting = {|payload_digest ex_ext ex_payload|}"
    by (simp add: missing_payload_def ex_wanting_def ex_mempool_simps stored_iff store_read_def store_new_def ex_db)
  moreover have "ms_alive (mp_synchronizer ex_mempool)" "ms_inner_channel (mp_synchronizer ex_mempool) = []"
    by (simp_all add: ex_mempool_simps msync_new_def)
  ultimately show ?thesis
    using driver_verify_answer [OF ex_rocksdb, of ex_mempool ex_wanting OPT] by (simp add: ex_asked_def ex_mempool_simps set_msync_def)
qed

lemma ex_iter_one: "iter_digests ex_ext {|d|} = [d]"
  by (simp add: ex_ext_def)

lemma ex_registered_simps:
  "mp_alive ex_registered" "ms_alive (mp_synchronizer ex_registered)" "mp_committee ex_registered = mp_committee ex_mempool"
  "mp_parameters ex_registered = mp_parameters ex_mempool" "mp_consensus_channel ex_registered = []"
  "ms_inner_channel (mp_synchronizer ex_registered) = []"
proof -
  have "\<exists>x. mempool_address (mp_committee ex_mempool) (ex_key 5) = Ok x"
    by (simp add: ex_mempool_def mempool_core_new_def mempool_address_def testbed_mempool_committee_def mcommittee_new_def)
  then obtain x where "mempool_address (mp_committee ex_mempool) (ex_key 5) = Ok x" by blast
  then show "mp_alive ex_registered" "ms_alive (mp_synchronizer ex_registered)" "mp_committee ex_registered = mp_committee ex_mempool"
    "mp_parameters ex_registered = mp_parameters ex_mempool" "mp_consensus_channel ex_registered = []"
    "ms_inner_channel (mp_synchronizer ex_registered) = []"
    by (simp_all add: ex_registered_def ex_asked_eq msync_recv_def msync_guard_def msync_handle_sync_def msync_request_def
        set_msync_def comp_defs register_waiter_def mempool_transmit_def ex_iter_one ex_mempool_simps msync_new_def ex_wanting_def Let_def)
      (simp_all add: ex_mempool_def mempool_core_new_def)
qed

lemma ex_arrived_simps:
  "ms_alive (mp_synchronizer ex_arrived)" "mp_consensus_channel ex_arrived = []"
  "stored ex_ext (mp_store ex_arrived) (payload_digest ex_ext ex_payload)"
proof -
  have "snd (handle_others_payload ex_ext ex_payload ex_registered) = Ok ()"
    using ex_accepted by (simp add: others_payload_eq ex_registered_simps Let_def split: if_splits)
  then have eq: "handle_others_payload ex_ext ex_payload ex_registered = (ex_arrived, Ok ())"
    by (auto simp: ex_arrived_def mempool_turn_def ex_registered_simps split: prod.splits result.splits)
  have m: "ex_arrived = (let d = payload_digest ex_ext ex_payload in pes_insert ex_ext d (opt_insert ex_ext d
      (ex_registered\<lparr>mp_store := store_write ex_ext (digest_to_vec d) (ser_payload ex_ext ex_payload) (mp_store ex_registered)\<rparr>)))"
    using eq unfolding others_payload_eq by (simp add: Let_def split: if_splits)
  show "ms_alive (mp_synchronizer ex_arrived)" "mp_consensus_channel ex_arrived = []"
    unfolding m by (simp_all add: Let_def pes_insert_def opt_insert_def ex_registered_simps)
  show "stored ex_ext (mp_store ex_arrived) (payload_digest ex_ext ex_payload)"
    unfolding m Let_def using stored_written [OF ex_rocksdb] by (simp add: pes_insert_def opt_insert_def)
qed

lemma ex_arrives: "undisturbed ex_ext (b_height ex_wanting) ex_registered ex_arrived"
  unfolding ex_arrived_def
  by (intro undisturbed.more [OF undisturbed.start] mempool_step.recv) (simp add: no_clean_def ex_registered_simps)

lemma ex_asked_reached: "mempool_reaches ex_ext ex_mempool ex_asked"
  unfolding ex_asked_def by (intro mempool_reaches.more [OF mempool_reaches.start] mempool_step.verify)

section \<open>An agreement that halts\<close>

definition ex_halt :: MHalt where
  "ex_halt = \<lparr>mh_author = ex_key 5, mh_leader = ex_key 5, mh_value = spbvalue_new (ex_block\<lparr>b_author := ex_key 5\<rparr>) 1 FIN_PHASE PES [],
     mh_proof = \<lparr>pf_phase = FIN_PHASE, pf_round = 1, pf_height = 1, pf_shares = []\<rparr>, mh_round = 1, mh_height = 1, mh_epoch = 0,
     mh_signature = ex_signature\<rparr>"

definition ex_electing :: Core where
  "ex_electing = ex_core\<lparr>k_parameters := parameters_default\<lparr>exp_checks := 0\<rparr>,
     k_leader_elector := add_random_coin ex_coin (leader_elector_new one_committee 2)\<rparr>"

lemma ex_halt_accepted: "halt_accepted ex_ext ex_electing ex_halt"
  by (simp add: halt_accepted_def smvba_msg_filter_def ex_electing_def ex_halt_def ex_core_simps ex_coin_def spbvalue_new_def word_le_nat_alt)

end
