(* ===== verification/Spec2Isabelle.thy ===== *)
theory Spec2Isabelle
  imports Prelude Crypto Errors Config Messages Message_Props Leader Timer Aggregator Store Payload_Maker
    Mempool_Core Mempool_Props Core_State Core_Handlers Core_Frame Core_Props Commit_Props Core_Behaviour
    Fuel_Props Run_Props Agreement_Props Mempool_Live Coin_Props Node_Spec Safety Chain Text Display Files Network Net_Filter Node Client
    Example_Files Examples
begin

text \<open>
  \<^bold>\<open>A BFT node with an optimistic and a pessimistic path.\<close> The Rust workspace under \<open>src/\<close> implements a replicated log: two-chain
  HotStuff with a window of leaders (the optimistic path), run in parallel with a chain of fallback blocks whose
  result is agreed on by SMVBA, a multi-valued Byzantine agreement (the pessimistic path), in epochs. This
  development models the node as it is written and proves what makes its parts correct.

  \<^bold>\<open>The program's parts.\<close> Client transactions reach the mempool's front end; the payload maker batches them; the mempool core stores
  payloads, sends them to the other nodes and queues their digests, once for each path. The consensus core asks the
  mempool for digests to propose and whether it has the payload of a block it received; if not, the mempool's
  synchronizer fetches what is missing and hands the block back as a loopback message. The consensus synchronizer
  does the same for missing parents. Both share the store, an actor over RocksDB. The core aggregates votes into
  certificates, commits, and sends messages through a filter to the network sender; receivers put what arrives on the channels of
  the core. Every actor is a task with its own channel; what they do between two receives is one step here. A node is
  started from files: the committee, its keys, its share of the coin's key and the parameters.

  \<^bold>\<open>Theories, in the order of the layers.\<close>
  \<^item> \<open>Prelude\<close>: machine integers, the result type (with \<open>Panic\<close> for unwraps and \<open>OutOfFuel\<close> for a bound of the model), the
    statement combinators in which handlers are written, \<open>keeps R\<close> (every run of a statement relates the states before
    and after by \<open>R\<close>) with the locale \<open>step_order\<close>, and HashMap operations.
  \<^item> \<open>Crypto\<close> (\<open>crypto/src/lib.rs\<close>), \<open>Errors\<close> (both \<open>error.rs\<close>), \<open>Config\<close> (both \<open>config.rs\<close>; locale \<open>quorum_system\<close>,
    interpreted on the committee), \<open>Messages\<close> and \<open>Message_Props\<close> (\<open>consensus/src/messages.rs\<close>), \<open>Leader\<close>, \<open>Timer\<close>.
  \<^item> \<open>Aggregator\<close> (\<open>consensus/src/aggregator.rs\<close>): the makers of certificates, proofs and coins; the locale \<open>quorum_maker\<close> states the
    contract the first two share and proves once that a maker emits exactly one result for a quorum. \<open>Coin_Props\<close>: the coins that
    come of any sequence of shares.
  \<^item> \<open>Store\<close> (\<open>store/src/lib.rs\<close>): the actor and its obligations.
  \<^item> \<open>Payload_Maker\<close>, \<open>Mempool_Core\<close> (\<open>mempool/src\<close> and the driver \<open>consensus/src/mempool.rs\<close>) and \<open>Mempool_Props\<close>: the
    handlers, the synchronizer's loop turn by turn, the relation \<open>mempool_step\<close>, and the invariant that what is queued or
    handed back is in the store. \<open>Mempool_Live\<close>: a block that waits for payloads stays registered until it is handed back.
  \<^item> \<open>Core_State\<close> and \<open>Core_Handlers\<close> (\<open>consensus/src/core.rs\<close>, \<open>consensus/src/synchronizer.rs\<close>): the record \<open>Core\<close> has the fields of the
    struct, with the prefix \<open>k_\<close>; each method is a definition of the same name. \<open>handle_event\<close> is the dispatch of \<open>run\<close>,
    \<open>next_epoch\<close> the rest of \<open>run_epoch\<close>, \<open>epoch_step\<close> what can happen next in a node within an epoch (any message on either
    channel, whoever sent it, or a turn of another actor, \<open>actor_step\<close>), \<open>node_step\<close> adds the change of epoch.
  \<^item> \<open>Core_Frame\<close>: the locales \<open>core_frame\<close> and \<open>core_order\<close>. A reflexive and transitive relation on states that contains each of the
    primitive changes of observable state is kept by every handler, by the recursion, by the loop and by every run; the
    smaller locale leaves the optimistic path to its user. \<open>Core_Props\<close> interprets the larger one on eight relations: signed votes,
    commits, setup, the highest certificate, coins, parked messages, the mempool's steps and the makers' consistency.
  \<^item> \<open>Commit_Props\<close> (the walk over ancestors), \<open>Core_Behaviour\<close> (single handlers and the change of epoch), \<open>Fuel_Props\<close> (more fuel, same
    result), \<open>Run_Props\<close> (whole lives of a node), \<open>Agreement_Props\<close> (one agreement, one fallback and one halt per height,
    what an agreement starts with).
  \<^item> \<open>Node_Spec\<close>: the abstract machine \<open>Promise\<close> of what a node promises (vote, abstain, commit, advance, raise the certificate, toss,
    park, end the epoch, each under its guard), the abstraction \<open>promise_of\<close> of the core, and the simulation of every run.
  \<^item> \<open>Safety\<close> and \<open>Chain\<close>: several nodes. \<open>Safety\<close> has agreement of optimistic certificates of one height, from unforgeable signatures and digests
    without collisions; \<open>Chain\<close> interprets \<open>core_frame\<close> to show
    that correct nodes vote only for blocks on certified ones, and that certificates of all heights lie on one chain.
  \<^item> \<open>Text\<close> (decimal numbers and socket addresses as text), \<open>Display\<close> (\<open>Debug\<close> and \<open>Display\<close> of keys and messages, the lines of the
    benchmark), \<open>Files\<close> (\<open>node/src/config.rs\<close>, the serde implementations: JSON values, a file system, locale \<open>exported\<close> interpreted
    on the four types that are written to files).
  \<^item> \<open>Network\<close> (\<open>network/src/lib.rs\<close>, \<open>mempool/src/front.rs\<close>), \<open>Net_Filter\<close> (\<open>consensus/src/filter.rs\<close>), \<open>Node\<close> (\<open>node/src/node.rs\<close>,
    \<open>node/src/main.rs\<close>, \<open>consensus/src/consensus.rs\<close>), \<open>Client\<close> (\<open>node/src/client.rs\<close>).
  \<^item> \<open>Example_Files\<close>, \<open>Examples\<close>: a concrete instance of the external functions, committees, files and states, to which the properties
    are applied.

  \<^bold>\<open>External code.\<close> SHA-512, Ed25519, base64, threshold signatures, bincode, RocksDB and the capacity and iteration order of
  hash tables are fields of the record \<open>node_ext\<close>, an argument \<open>E\<close> of every definition that reaches them; JSON text, the
  encodings of threshold keys and IPv6 addresses are fields of \<open>json_ext\<close>, the argument \<open>J\<close>. Random key pairs and key sets, whether a
  connection is made or a file can be opened, and the frames that arrive are arguments. What a statement
  needs of them is a named hypothesis: \<open>ed25519_ok\<close>, \<open>batch_complete\<close>, \<open>base64_ok\<close>, \<open>rocksdb_ok\<close>, \<open>hash_tables_ok\<close>, \<open>json_ok\<close> (on values
  without floats and nested less than serde_json's limit), \<open>tss_serde_ok\<close>, \<open>keypair_gen_ok\<close>, \<open>v6_bracketed\<close>, \<open>combine_ok\<close>, \<open>unforgeable\<close>, \<open>no_collision\<close>.

  \<^bold>\<open>State and effects.\<close> Heights, rounds and epochs are 64-bit words that wrap, stakes 32-bit words. A channel is the list of what has
  been sent on it. Errors leave the changes made before them, as \<open>?\<close> does on \<open>&mut self\<close>. Log lines are left out except the
  \<open>Committed\<close> lines (\<open>k_commit_log\<close>); sleeping is left out; \<open>k_signed_votes\<close> records the optimistic votes a node has signed.
  The tasks of filter, sender and receivers interleave freely; a connection may break at any time.

  \<^bold>\<open>Fuel.\<close> The handlers call each other recursively, and a malicious or lucky schedule may nest these calls: \<open>exec\<close> bounds their depth,
  \<open>Fuel_Props\<close> shows that a bound that suffices can be replaced by any larger one, and the statements on
  runs hold for every bound. The loop of \<open>commit\<close> follows parent links for at most as many steps as the store has
  entries, plus two; \<open>commit_terminates\<close> shows that this is enough for a store whose parent links have no cycle. The client's
  loop that waits for a node may not end and is a partial function; it is shown when it does.

  \<^bold>\<open>What is shown.\<close> Agreement: no two verified optimistic certificates of one epoch and height certify different blocks, certificates of all heights form one
  chain, one vote per height, increasing commits, what a commit logs of the ancestors (all of them, or down to a missing parent); every run of a
  node refines the machine of its promises. Certificates: assembled exactly once from a quorum, accepted by others; coins stable, made at the
  threshold, one for each height and round, electing members. Payloads: available when handed back, waiting blocks not lost, none of the
  transactions lost, bounds on sizes, which payloads are accepted. Store and leaders: their contracts. The core on its messages: stale and
  invalid ones refused unchanged, no verifier panics, one agreement per height, output and change of epoch. Messages of a node are accepted by the others, and reach them through filter and
  network without being repeated; key files, booting, the testbed; the client. Limits of the checks: where the code accepts less or more
  than its comments and the protocol ask for.

  \<^bold>\<open>Not modelled.\<close> Sockets and the framing codec below the level of frames, clap's parsing of the command line, spawning of tasks beyond their
  interleaving, \<open>info!\<close> and \<open>debug!\<close> lines other than those of the benchmark, module declarations, \<open>store/src/default_db.rs\<close> (no module
  of the crate, so not compiled), the creation of channels and the sleep of \<open>Consensus::run\<close>, tests, and the benchmark scripts. Liveness
  of whole runs (that every agreement ends) is not stated: it depends on the network's fairness.

  \<^bold>\<open>Plan.\<close> Next: agreement of committed blocks across nodes (the store holds blocks under their digests, the two-chain rule on top of
  \<open>Chain\<close>), invariants of SMVBA over runs (what a halt of a correct node carries), panics that no message of a correct node can cause.
\<close>

section \<open>Agreement\<close>

text \<open>
  C1. Two certificates of the optimistic path (tag \<open>OPT\<close>) of the same epoch and height that verify certify the same block. The
  committee has \<open>3 f + 1\<close> units of stake and the members that are not \<open>correct\<close> have at most \<open>f\<close>; each correct member has made any
  steps within the epoch, on whatever messages it was sent, and had signed no vote of that epoch before. Signatures of correct
  members cannot be forged (one that verifies in such a certificate was made for an optimistic vote with its digest) and the
  digests of votes do not collide. Nothing is said of certificates of the fallback chain, which correct members
  sign as well: tag and epoch are part of the digest, and they decide which votes a certificate can be made of.
\<close>

theorem certificates_agree:
  assumes "bft_committee c" and "few_faults c correct" and "epoch_runs E correct start now" and "epoch_unvoted correct e start"
    and "qc_verify E c qc = Ok ()" and "qc_tag qc = OPT" and "qc_epoch qc = e"
    and "unforgeable E correct now qc" and "no_collision E correct now qc"
    and "qc_verify E c qc' = Ok ()" and "qc_tag qc' = OPT" and "qc_epoch qc' = e"
    and "unforgeable E correct now qc'" and "no_collision E correct now qc'"
    and "qc_height qc = qc_height qc'"
  shows "qc_hash qc = qc_hash qc'"
proof -
  have wf: "wf_committee c" using assms(1) by (simp add: bft_committee_def)
  have "backed correct (\<lambda>k. votes_since (start k) (now k)) qc" "backed correct (\<lambda>k. votes_since (start k) (now k)) qc'"
    using assms(4-14) by (auto intro!: opt_certificate_backed [OF assms(3)] verified_qc_sigs)
  with verified_qc_quorum [OF wf] assms show ?thesis by (intro backed_certificates_agree [OF assms(1-3)]) auto
qed

theorem certificates_agree_witness:
  "k_signed_votes ex_voted = [ex_vote] \<and> qc_verify ex_ext one_committee ex_qc = Ok () \<and>
   qc_hash ex_qc = qc_hash (ex_qc\<lparr>qc_acceptor := ex_key 9\<rparr>)"
proof -
  have same: "ex_qc\<lparr>qc_acceptor := ex_key 7\<rparr> = ex_qc" by (simp add: ex_qc_def qc_of_vote_def ex_vote_def)
  have tags: "qc_tag ex_qc = OPT" "qc_epoch ex_qc = 0" by (simp_all add: ex_qc_def qc_of_vote_def ex_vote_def)
  have "qc_hash ex_qc = qc_hash (ex_qc\<lparr>qc_acceptor := ex_key 9\<rparr>)"
    by (rule certificates_agree [OF one_bft ex_few_faults ex_runs ex_unvoted ex_qc_verifies tags
        ex_unforgeable [of "ex_key 7", unfolded same] ex_no_collision [of "ex_key 7", unfolded same] ex_qc_verifies' _ _
        ex_unforgeable ex_no_collision]) (simp_all add: tags)
  with ex_votes ex_qc_verifies show ?thesis by simp
qed

text \<open>
  C2. The certified blocks of an epoch form one chain: of two certificates that verify, the higher one descends from the
  lower one through blocks that each extend a certified block of the height just below. The committee has \<open>3 f + 1\<close> units of
  stake of which at most \<open>f\<close> are faulty; the correct members start the epoch with fresh state and make any steps;
  where a certificate or vote that verifies has a correct member's signature, that member has signed an optimistic vote for it in
  the epoch (signatures cannot be forged, and certificates of the fallback or of another epoch, which the code does not tell
  apart when it verifies a block, are not sent); loopbacks are of blocks with such certificates.
\<close>

theorem certified_chain:
  assumes "bft_committee c" and "few_faults c correct" and "sound_runs E c correct start now"
    and "qc_verify E c qc = Ok ()" and "backed correct (\<lambda>k. votes_since (start k) (now k)) qc"
    and "qc_verify E c qc' = Ok ()" and "backed correct (\<lambda>k. votes_since (start k) (now k)) qc'"
    and "qc_height qc \<le> qc_height qc'"
  shows "descends E (epoch_of c correct start now) qc' qc"
proof -
  have "wf_committee c" using assms(1) by (simp add: bft_committee_def)
  then have "certified (epoch_of c correct start now) qc" "certified (epoch_of c correct start now) qc'"
    using assms(4-7) by (simp_all add: certified_def epoch_of_def verified_qc_quorum)
  from one_chain [OF assms(1-3) this assms(8)] show ?thesis .
qed

theorem certified_chain_witness:
  "ex_vote \<in> set (votes_since ex_core ex_voted) \<and>
   descends ex_ext (epoch_of one_committee {ex_key 5} (\<lambda>_. ex_core) (\<lambda>_. ex_voted)) (ex_qc\<lparr>qc_acceptor := ex_key 9\<rparr>) ex_qc"
  using certified_chain [OF one_bft ex_few_faults ex_sound_runs ex_qc_verifies ex_backed ex_qc_verifies' ex_backed'] ex_vote_signed
  by simp

text \<open>
  C3. Refinement of the abstract machine of \<open>Node_Spec\<close>: whatever a node is sent over its life, what can be observed of it changes
  only by actions the machine allows, in some order. The optimistic votes it has signed and the blocks it has
  announced are exactly the votes and commits among these actions, and within each epoch their heights increase.
\<close>

theorem node_refines_promises:
  assumes "(node_step E)\<^sup>*\<^sup>* s t"
  shows "\<exists>as. perform as (promise_of s) = Some (promise_of t) \<and> k_signed_votes t = k_signed_votes s @ cast as \<and>
    k_commit_channel t = k_commit_channel s @ announced as \<and> list_all increasing (epochs as)"
proof -
  from node_run_refines [OF assms] obtain as where as: "perform as (promise_of s) = Some (promise_of t)" by blast
  from perform_account [OF this] perform_increasing [OF as] as show ?thesis by (auto simp: promise_of_def)
qed

theorem node_refines_promises_witness:
  "\<exists>as. perform as (promise_of ex_core) = Some (promise_of ex_voted) \<and> ex_vote \<in> set (cast as) \<and> list_all increasing (epochs as)"
proof -
  have "(node_step ex_ext)\<^sup>*\<^sup>* ex_core ex_voted"
    unfolding ex_voted_def by (intro r_into_rtranclp node_step.inside epoch_step.event)
  from node_refines_promises [OF this] ex_vote_in show ?thesis by (auto simp: ex_core_simps)
qed

text \<open>
  C4. Within an epoch, whatever a node is sent, the optimistic votes it signs have strictly increasing heights, all above
  the height it had last voted for, and carry its own name: no two of them are for the same height.
\<close>

theorem one_vote_per_height:
  assumes "(epoch_step E)\<^sup>*\<^sup>* s t"
  shows "sorted_wrt (\<lambda>v w. hv_height v < hv_height w) (votes_since s t) \<and>
    (\<forall>v \<in> set (votes_since s t). k_last_voted_height s < hv_height v \<and> hv_height v \<le> k_last_voted_height t \<and>
       hv_author v = k_name s \<and> hv_tag v = OPT)"
  using votes.epoch_run_keeps [OF assms] by (auto simp: votes_grow_def votes_since_def)

theorem one_vote_per_height_witness:
  "ex_vote \<in> set (votes_since ex_core ex_voted) \<and> 0 < hv_height ex_vote \<and>
   sorted_wrt (\<lambda>v w. hv_height v < hv_height w) (votes_since ex_core ex_voted)"
  using one_vote_per_height [OF ex_run] ex_vote_signed by (auto simp: ex_core_simps)

text \<open>
  C5. Within an epoch the blocks sent on the commit channel, by any of the three commit paths, have strictly increasing
  heights above the height committed before, and the committed height is that of the last of them.
\<close>

theorem commit_heights_increase:
  assumes "(epoch_step E)\<^sup>*\<^sup>* s t"
  shows "\<exists>bs. k_commit_channel t = k_commit_channel s @ bs \<and> sorted_wrt (\<lambda>a b. b_height a < b_height b) bs \<and>
    (\<forall>b \<in> set bs. k_last_committed_height s < b_height b) \<and>
    k_last_committed_height t = (if bs = [] then k_last_committed_height s else b_height (last bs))"
  using commits.epoch_run_keeps [OF assms] by (simp add: commits_grow_def)

theorem commit_heights_increase_witness:
  "\<exists>bs. k_commit_channel (fst (handle_event ex_ext 3 (SmvbaMessage (ParLoopBack (ex_full_block\<lparr>b_tag := PES\<rparr>))) ex_core)) = bs \<and>
     bs \<noteq> [] \<and> last bs = ex_full_block\<lparr>b_tag := PES\<rparr> \<and> sorted_wrt (\<lambda>a b. b_height a < b_height b) bs"
proof -
  let ?b = "ex_full_block\<lparr>b_tag := PES\<rparr>"
  obtain s1 where store: "store_block ex_ext ?b ex_core = (s1, Ok ())" and alive: "mp_alive (k_mempool s1)"
    using store_block_Ok [of ex_ext ?b ex_core] by (metis ex_core_simps(13) ex_mempool_simps(1))
  obtain t where "commit ex_ext ?b s1 = (t, Ok ())"
    using commit_on_genesis [of ?b s1] alive ex_full_qc(1) by auto
  from par_out_ends_epoch [OF _ _ _ _ store this, of "exec ex_ext 3"]
  have "k_commit_channel (fst (handle_event ex_ext 3 (SmvbaMessage (ParLoopBack ?b)) ex_core)) = k_commit_channel t @ [?b]"
    by (simp add: ex_full_qc ex_core_simps PES_def ex_full_block_def ex_block_simps)
  then show ?thesis
    using commit_heights_increase [OF r_into_rtranclp, OF epoch_step.event [of ex_ext ex_core 3 "SmvbaMessage (ParLoopBack ?b)"]]
    by (auto simp: ex_core_simps)
qed

text \<open>
  C6. What a commit that returns has logged. Nothing, if the block is not above the committed height. Otherwise, newest first, exactly the
  blocks with a payload on a path of parents that starts at the block and stays above the committed height. The path is
  \<open>complete\<close>, it ends just above a stored parent (or the genesis block) that is not above that height; or it stops at
  a block whose parent the store does not have, and then exactly that parent is asked of the synchronizer while the
  commit returns as if all had been done.
\<close>

theorem commit_logs_ancestors:
  assumes "commit E b s = (t, Ok ())"
  shows "if k_last_committed_height s < b_height b
    then \<exists>bs complete. path_down E (k_store s) (k_last_committed_height s) b bs complete \<and>
      k_commit_log t = k_commit_log s @ filter (\<lambda>b. b_payload b \<noteq> []) bs \<and>
      cs_inner_channel (k_synchronizer t) = cs_inner_channel (k_synchronizer s) @ (if complete then [] else [last bs])
    else t = s"
proof (cases "k_last_committed_height s < b_height b")
  case True
  have "commit_loop E (length (st_db (k_store s)) + 2) b s = (t, Ok ())"
    using assms by (simp add: commit_def readM_def del: commit_loop.simps)
  from commit_loop_path [OF this True] True show ?thesis by simp
next
  case False
  then show ?thesis using assms by (simp add: commit_def readM_def whenM_def)
qed

theorem commit_logs_ancestors_witness: "k_commit_log (fst (commit ex_ext ex_full_block ex_core)) = [ex_full_block]"
proof -
  have "k_last_committed_height ex_core < b_height ex_full_block" by (simp add: ex_core_simps ex_full_qc word_less_nat_alt)
  with commit_logs_ancestors [OF ex_commit] obtain bs complete where
    path: "path_down ex_ext (k_store ex_core) 0 ex_full_block bs complete"
    and log: "k_commit_log (fst (commit ex_ext ex_full_block ex_core)) = filter (\<lambda>b. b_payload b \<noteq> []) bs"
    by (auto simp: ex_core_simps)
  have "bs = [ex_full_block]"
    using path by (cases bs; cases "tl bs")
      (auto simp: path_down_def parent_in_def ex_full_qc block_genesis_def block_default_def)
  with log show ?thesis by (simp add: ex_full_qc)
qed

text \<open>
  C7. The loop of \<open>commit\<close> ends: with RocksDB answering what was put, and parent links in the store that follow some
  decreasing rank (no cycle of digests), the walk over the ancestors never exhausts its fuel, for any block and any state.
\<close>

theorem commit_terminates:
  assumes "rocksdb_ok E" and "acyclic_store E (k_store s) rank"
  shows "snd (commit E b s) \<noteq> OutOfFuel"
  using assms by (rule commit_ends)

theorem commit_terminates_witness: "snd (commit ex_ext ex_full_block ex_core) \<noteq> OutOfFuel"
  by (rule commit_terminates [OF ex_rocksdb, where rank = "\<lambda>_. 0"]) (simp add: ex_acyclic)

section \<open>Certificates\<close>

text \<open>
  C8. Whatever has happened to a node since it booted, across epochs, a certificate that a vote completes has
  distinct voters, their stake is a quorum, and it certifies the block and the height of that vote.
\<close>

theorem assembled_certificate_quorum:
  assumes "bft_committee c"
    and "(node_step E)\<^sup>*\<^sup>* (core_new name c p svc pk le mempool sync opt_path pes_path) s"
    and "add_hs_vote v (k_aggregator s) = (a, Ok (Some qc))"
  shows "has_quorum c (voters qc) \<and> distinct (map fst (qc_votes qc)) \<and> qc_height qc = hv_height v \<and> qc_hash qc = hv_hash v"
  using booted_aggregator [OF assms(2,1)] emitted_qc [OF _ _ assms(3)] assms(1) by (simp add: aggregator_ok_def)

theorem assembled_certificate_quorum_witness: "has_quorum one_committee (voters ex_qc) \<and> qc_hash ex_qc = hv_hash ex_vote"
proof -
  have "(node_step ex_ext)\<^sup>*\<^sup>* (core_new (ex_key 5) one_committee parameters_default (ex_service 5) []
      (leader_elector_new one_committee 2) ex_mempool synchronizer_new True False) ex_core"
    by (simp add: ex_core_def)
  from assembled_certificate_quorum [OF one_bft this ex_assembles] show ?thesis by simp
qed



text \<open>
  C10. A certificate made of votes that verify and all sign the same content is accepted by \<open>QC::verify\<close>, when batch
  verification accepts what single verification accepts.
\<close>

theorem certificate_of_valid_votes_verifies:
  assumes "bft_committee c" and "batch_complete E"
    and "\<forall>v \<in> set vs. hvote_verify E c v = Ok () \<and> hvote_digest E v = d"
    and "qc \<in> set (snd (feed (qcmaker_append c) vs qcmaker_new))"
  shows "qc_verify E c qc = Ok ()"
proof -
  obtain v es where v: "v \<in> set vs" and qc: "qc = qc_of_vote v es" and from_votes: "votes_from (set vs) es"
    and quorum: "has_quorum c (set (map fst es))"
    using feed_new_qc [OF assms(1,4)] .
  have entry: "0 < stake c k \<and> signature_verify E s d k = Ok ()" if "(k, s) \<in> set es" for k s
  proof -
    from that from_votes obtain w where "w \<in> set vs" "hv_author w = k" "hv_signature w = s"
      by (auto simp: votes_from_def vote_entry_def)
    with assms(3) show ?thesis by (auto simp: hvote_verify_Ok)
  qed
  have "qc_digest E qc = d" using v assms(3) by (simp add: qc qc_digest_of_vote)
  moreover have "signature_verify_batch E d es = Ok ()"
    using assms(2) entry by (intro verify_batch_complete) auto
  ultimately have "verify_sigs E (qc_digest E qc) (qc_votes qc) = Ok ()"
    by (simp add: verify_sigs_def qc)
  moreover have "wf_committee c" using assms(1) by (simp add: bft_committee_def)
  ultimately show ?thesis
    using entry quorum from_votes by (auto simp: qc_verify_char voters_def qc votes_from_def)
qed

theorem certificate_of_valid_votes_verifies_witness:
  "\<exists>qc. snd (feed (qcmaker_append one_committee) [ex_vote] qcmaker_new) = [qc] \<and> qc_verify ex_ext one_committee qc = Ok ()"
proof -
  have "snd (feed (qcmaker_append one_committee) [ex_vote] qcmaker_new) = [ex_qc]"
    by (simp add: qcmaker_append_def qcmaker_new_def Let_def ex_vote_simps one_stake one_quorum ex_qc_def qc_of_vote_def)
  moreover have "hvote_verify ex_ext one_committee ex_vote = Ok ()"
    by (simp add: hvote_verify_Ok ex_vote_simps one_stake ex_sig_verifies)
  ultimately show ?thesis
    using certificate_of_valid_votes_verifies [OF one_bft ex_batch, of "[ex_vote]" _ ex_qc] by simp
qed

text \<open>
  C11. Within an epoch, once the coin of a height and round is known to a node, its leader never changes.
\<close>

theorem coin_never_changes:
  assumes "(epoch_step E)\<^sup>*\<^sup>* s t" and "get_coin_leader (k_leader_elector s) h r = Some leader"
  shows "get_coin_leader (k_leader_elector t) h r = Some leader"
  using coins.epoch_run_keeps [OF assms(1)] assms(2)
  by (auto simp: coins_grow_def get_coin_leader_def map_le_def dom_def)

theorem coin_never_changes_witness:
  "get_coin_leader (k_leader_elector (fst (handle_event ex_ext 9 (SmvbaMessage (ParLoopBack ex_block))
     (ex_core\<lparr>k_leader_elector := add_random_coin ex_coin (k_leader_elector ex_core)\<rparr>)))) 1 1 = Some (ex_key 5)"
  by (rule coin_never_changes [of ex_ext, OF r_into_rtranclp]) (rule epoch_step.event, simp add: ex_coin_def)

text \<open>
  C12. Fed with any shares, of all heights and rounds mixed and with repetitions, the aggregator makes coins such that: a coin's shares are
  among those of its height and round, by different authors whose stake adds up to exactly the threshold, and the leader
  is a member of the committee. If the members have one unit of stake each and different ids, all shares come from members, and
  combining as many shares as the threshold asks for succeeds, then there is exactly one coin of a height and round when that many
  members have sent a share for it, and none otherwise.
\<close>

theorem coin_elects_member:
  assumes "wf_committee c"
  shows "(\<forall>coin \<in> set (snd (feed (add_smvba_random E pk) shares (aggregator_new c))).
      set (rc_shares coin) \<subseteq> {s \<in> set shares. rs_height s = rc_height coin \<and> rs_round s = rc_round coin} \<and>
      distinct (map rs_author (rc_shares coin)) \<and>
      (\<Sum>k \<in> rs_author ` set (rc_shares coin). unat (stake c k)) = unat (random_coin_threshold c) \<and>
      rc_leader coin \<in> set (committee_names c)) \<and>
    (unit_stakes c \<and> distinct_ids c \<and> combine_ok E pk (unat (random_coin_threshold c)) \<and>
      (\<forall>s \<in> set shares. rs_author s \<in> set (committee_names c)) \<longrightarrow>
     length (filter (\<lambda>coin. rc_height coin = h \<and> rc_round coin = r) (snd (feed (add_smvba_random E pk) shares (aggregator_new c)))) =
       (if unat (random_coin_threshold c) \<le> card (rs_author ` {s \<in> set shares. rs_height s = h \<and> rs_round s = r}) then 1 else 0))"
  using coins_of_key [OF assms, of _ E pk shares] one_coin_per_key [OF assms, of E pk shares "(h, r)"]
  by (simp add: made_of_def share_key_def coin_key_def)

theorem coin_elects_member_witness:
  "length (filter (\<lambda>coin. rc_height coin = 1 \<and> rc_round coin = 1) (snd (feed (add_smvba_random ex_ext [])
     [ex_share, ex_share\<lparr>rs_round := 2\<rparr>, ex_share, ex_share\<lparr>rs_author := ex_key 2\<rparr>, ex_share\<lparr>rs_author := ex_key 3\<rparr>]
     (aggregator_new coin_committee)))) = 1"
proof -
  have "rs_author ` {s \<in> set [ex_share, ex_share\<lparr>rs_round := 2\<rparr>, ex_share, ex_share\<lparr>rs_author := ex_key 2\<rparr>, ex_share\<lparr>rs_author := ex_key 3\<rparr>].
      rs_height s = 1 \<and> rs_round s = 1} = {ex_key 5, ex_key 2, ex_key 3}"
    unfolding set_filter [symmetric] by (simp add: ex_share_def insert_commute)
  moreover have "card {ex_key 5, ex_key 2, ex_key 3} = 3" by (simp add: ex_key_def)
  ultimately show ?thesis
    using coin_elects_member [OF coin_wf, of ex_ext "[]"
        "[ex_share, ex_share\<lparr>rs_round := 2\<rparr>, ex_share, ex_share\<lparr>rs_author := ex_key 2\<rparr>, ex_share\<lparr>rs_author := ex_key 3\<rparr>]" 1 1]
    by (simp add: coin_unit coin_ids ex_combine coin_names coin_threshold ex_share_def del: feed.simps)
qed

section \<open>Payloads\<close>

text \<open>
  C13. At any point of the life of a node, in which its actors take turns in any order: every block that the mempool's
  synchronizer hands back to the core has all its payload in the store, and every digest in the two queues is the
  digest of something stored.
\<close>

theorem loopback_payloads_available:
  assumes "rocksdb_ok E"
    and "(node_step E)\<^sup>*\<^sup>* (core_new name c p svc pk le (mempool_core_new E name mc mp st maker) sync opt_path pes_path) s"
  shows "(\<forall>msg b. msg \<in> set (mp_consensus_channel (k_mempool s)) \<union> set (mp_consensus_channel_smvba (k_mempool s)) \<and>
        loopback_block msg = Some b \<longrightarrow> (\<forall>d \<in> set (b_payload b). stored E (k_store s) d)) \<and>
    (\<forall>d. d |\<in>| mp_opt_queue (k_mempool s) \<or> d |\<in>| mp_pes_queue (k_mempool s) \<longrightarrow> stored E (k_store s) d)"
proof -
  have "mempool_inv E (k_mempool s)"
    using inv_reaches [OF node_run_pool [OF assms(2)] assms(1)] by (simp add: core_new_simps inv_core_new)
  then show ?thesis
    by (auto simp: mempool_inv_def loopbacks_available_def queues_stored_def available_def)
qed

theorem loopback_payloads_available_witness:
  "payload_digest ex_ext ex_payload |\<in>| mp_opt_queue (k_mempool ex_filled) \<and>
   stored ex_ext (k_store ex_filled) (payload_digest ex_ext ex_payload)"
proof -
  have "(node_step ex_ext)\<^sup>*\<^sup>* (core_new (ex_key 5) one_committee parameters_default (ex_service 5) [] (leader_elector_new one_committee 2)
      (mempool_core_new ex_ext (ex_key 5) (testbed_mempool_committee [ex_key 5]) mparameters_default store_new
        (runner_new (ex_key 5) (ex_service 5) 1000)) synchronizer_new True False) ex_filled"
    using ex_filled_run by (simp add: ex_core_def ex_mempool_def)
  from loopback_payloads_available [OF ex_rocksdb this] ex_filled_queue show ?thesis by blast
qed

text \<open>
  C14. The mempool's answer about a block: yes, changing nothing, when every payload digest is stored; otherwise
  \<open>wait\<close>, and the synchronizer is asked for exactly the digests that are missing.
\<close>

theorem verify_answers_and_requests:
  assumes "rocksdb_ok E" and "ms_alive (mp_synchronizer m)" and "mp_alive m"
  shows "driver_verify E b tag m =
    (if \<forall>d \<in> set (b_payload b). stored E (mp_store m) d then (m, Ok True)
     else (set_msync (\<lambda>s. s\<lparr>ms_inner_channel := ms_inner_channel s @
             [Sync (fset_of_list (filter (\<lambda>d. \<not> stored E (mp_store m) d) (b_payload b))) b tag]\<rparr>) m, Ok False))"
  using driver_verify_answer [OF assms] by (simp add: missing_payload_empty) (simp add: missing_payload_def)

theorem verify_answers_and_requests_witness: "snd (driver_verify ex_ext ex_full_block OPT ex_mempool) = Ok False"
  using verify_answers_and_requests [OF ex_rocksdb, of ex_mempool ex_full_block OPT]
  by (simp add: ex_mempool_simps msync_new_def ex_full_qc stored_iff store_read_def store_new_def ex_db)



text \<open>
  C16. The payload maker returns from any sequence of events, and the transactions in the payloads it made, in order,
  followed by those it still buffers, are exactly those it has received, in order. When no client sends a transaction
  larger than the maximum, no payload is larger than it, so that peers with the same parameters do not reject it as too big.
\<close>

theorem no_transaction_lost:
  assumes "ed_keypair_from_bytes E (secret_bytes (ss_secret svc))"
  shows "\<exists>r ps. runner_run E evs (runner_new name svc max_size) = (r, Ok ps) \<and>
    payload_txs ps @ rn_transactions r = concat (map event_txs evs) \<and>
    ((\<forall>tx \<in> set (concat (map event_txs evs)). length tx \<le> unat max_size) \<longrightarrow> (\<forall>p \<in> set ps. payload_size p \<le> unat max_size))"
proof -
  have "rn_service (runner_new name svc max_size) = svc" by (simp add: runner_new_def)
  with assms obtain r ps where run: "runner_run E evs (runner_new name svc max_size) = (r, Ok ps)"
    using runner_run_succeeds by metis
  moreover from runner_run_Ok [OF run runner_inv_new]
  have "payload_txs ps @ rn_transactions r = concat (map event_txs evs)" by (simp add: runner_new_def)
  moreover from runner_run_bounded [OF run runner_inv_new]
  have "(\<forall>tx \<in> set (concat (map event_txs evs)). length tx \<le> unat max_size) \<longrightarrow> (\<forall>p \<in> set ps. payload_size p \<le> unat max_size)"
    by (simp add: runner_new_def)
  ultimately show ?thesis by blast
qed

theorem no_transaction_lost_witness:
  "\<exists>r ps. runner_run ex_ext [ClientTx [1], ClientTx [2]] (runner_new (ex_key 5) (ex_service 5) 1) = (r, Ok ps) \<and>
     payload_txs ps @ rn_transactions r = [[1], [2]] \<and> list_all (\<lambda>p. payload_size p \<le> 1) ps"
  using no_transaction_lost [of ex_ext "ex_service 5" "[ClientTx [1], ClientTx [2]]" "ex_key 5" 1]
  by (simp add: ex_ext_def list_all_iff)

text \<open>
  C17. What becomes of a payload of another node, exactly. It is refused with \<open>UnknownAuthority\<close> if and only if its author is not in the
  committee; otherwise with \<open>PayloadTooBig\<close> if and only if it is larger than the maximum; otherwise with the error of its
  signature if and only if that does not verify; and then the mempool is as before. In all other cases, and only then, it is accepted: its
  digest is added to both queues, the store answers the digest with the payload and every other key as before, and
  a member of the committee that asks for the digest is sent the payload.
\<close>

theorem others_payload_outcome:
  assumes "rocksdb_ok E" and "handle_others_payload E p m = (m', r)" and "d = payload_digest E p"
  shows "r = (if \<not> committee_exists (mp_committee m) (pl_author p) then Err (MUnknownAuthority (pl_author p))
      else if unat (m_max_payload_size (mp_parameters m)) < payload_size p then Err PayloadTooBig
      else map_err MInvalidSignature (signature_verify E (pl_signature p) d (pl_author p))) \<and>
    (if r = Ok ()
     then mp_opt_queue m' = finsert d (mp_opt_queue m) \<and> mp_pes_queue m' = finsert d (mp_pes_queue m) \<and>
       store_read E (mp_store m') (digest_to_vec d) = Ok (Some (ser_payload E p)) \<and>
       (\<forall>key. key \<noteq> digest_to_vec d \<longrightarrow> store_read E (mp_store m') key = store_read E (mp_store m) key) \<and>
       (\<forall>requestor a. de_payload E (ser_payload E p) = Some p \<and> mempool_address (mp_committee m) requestor = Ok a \<longrightarrow>
          handle_payload_request E [d] requestor m' =
            (m'\<lparr>mp_network_channel := mp_network_channel m' @ [(PayloadMsg p, [a])]\<rparr>, Ok ()))
     else m' = m)"
proof (cases "r = Ok ()")
  case True
  then have m': "m' = pes_insert E d (opt_insert E d (m\<lparr>mp_store := store_write E (digest_to_vec d) (ser_payload E p) (mp_store m)\<rparr>))"
    using assms(2,3) by (simp add: others_payload_eq Let_def split: if_splits)
  have store: "store_read E (mp_store m') key = (if key = digest_to_vec d then Ok (Some (ser_payload E p)) else store_read E (mp_store m) key)" for key
    using store_read_write [OF assms(1)] by (simp add: m' pes_insert_def opt_insert_def)
  have "mp_committee m' = mp_committee m" "mp_opt_queue m' = finsert d (mp_opt_queue m)" "mp_pes_queue m' = finsert d (mp_pes_queue m)"
    by (simp_all add: m' pes_insert_def opt_insert_def)
  moreover have "r = (if \<not> committee_exists (mp_committee m) (pl_author p) then Err (MUnknownAuthority (pl_author p))
      else if unat (m_max_payload_size (mp_parameters m)) < payload_size p then Err PayloadTooBig
      else map_err MInvalidSignature (signature_verify E (pl_signature p) d (pl_author p)))"
    unfolding arg_cong [OF assms(2), of snd, symmetric, simplified snd_conv] by (simp add: others_payload_eq Let_def assms(3))
  ultimately show ?thesis using True store stored_payload_served [of E m' d p] by simp
next
  case False
  then show ?thesis using assms(2,3) by (auto simp: others_payload_eq Let_def)
qed

theorem others_payload_outcome_witness:
  "snd (handle_others_payload ex_ext (ex_payload\<lparr>pl_author := ex_key 9\<rparr>) ex_mempool) = Err (MUnknownAuthority (ex_key 9)) \<and>
   mp_opt_queue (fst (handle_others_payload ex_ext ex_payload ex_mempool)) =
     finsert (payload_digest ex_ext ex_payload) (mp_opt_queue ex_mempool)"
  using others_payload_outcome [OF ex_rocksdb prod.collapse [symmetric] refl, of "ex_payload\<lparr>pl_author := ex_key 9\<rparr>" ex_mempool]
    others_payload_outcome [OF ex_rocksdb prod.collapse [symmetric] refl, of ex_payload ex_mempool] ex_accepted
  by (simp add: ex_stranger)

text \<open>
  C18. What a proposer gets: if the queue of its path is not empty, \<open>get\<close> answers with different digests of that queue, as many as fit
  into the maximum number of bytes (32 each) or all of them; exactly these leave the queue, while the other path's queue
  and the store stay as they are.
\<close>

theorem proposal_takes_payloads:
  assumes "hash_tables_ok E" and "mp_alive m" and "tag = OPT \<or> tag = PES" and "path_queue tag m \<noteq> {||}"
  shows "\<exists>m' ds. driver_get E mx tag m = (m', Ok ds) \<and>
    length ds = min (unat mx div 32) (fcard (path_queue tag m)) \<and> distinct ds \<and> set ds \<subseteq> fset (path_queue tag m) \<and>
    path_queue tag m' = path_queue tag m |-| fset_of_list ds \<and> (\<forall>t \<in> {OPT, PES} - {tag}. path_queue t m' = path_queue t m) \<and>
    mp_store m' = mp_store m"
  using get_payload_takes [OF assms(1,3,4), of mx] assms(2) by (auto simp: driver_get_def mempool_turn_def)

theorem proposal_takes_payloads_witness:
  "\<exists>m' ds. driver_get ex_ext 500 OPT (k_mempool ex_filled) = (m', Ok ds) \<and> ds \<noteq> [] \<and> set ds \<subseteq> fset (path_queue OPT (k_mempool ex_filled))"
proof -
  have q: "path_queue OPT (k_mempool ex_filled) \<noteq> {||}" using ex_filled_queue by (auto simp: path_queue_def)
  have "mp_alive (k_mempool ex_filled)"
    using ex_accepted by (simp add: ex_filled_def mempool_turn_def ex_mempool_simps others_payload_eq Let_def opt_insert_def pes_insert_def)
  from proposal_takes_payloads [OF ex_hash_tables this _ q, of 500] obtain m' ds where
    ds: "driver_get ex_ext 500 OPT (k_mempool ex_filled) = (m', Ok ds)" "length ds = min 15 (fcard (path_queue OPT (k_mempool ex_filled)))"
      "set ds \<subseteq> fset (path_queue OPT (k_mempool ex_filled))"
    by auto
  have "fcard (path_queue OPT (k_mempool ex_filled)) \<noteq> 0" using q by simp
  then have "length ds \<noteq> 0" unfolding ds(2) by linarith
  then have "ds \<noteq> []" by simp
  with ds show ?thesis by blast
qed

section \<open>Store and leaders\<close>

text \<open>
  C19. A \<open>notify_read\<close> is answered exactly once, whatever other commands follow: at once with the value the key has,
  else with the value of the first later write to the key; as long as there is none, it gets no answer.
\<close>

theorem notify_read_is_answered:
  assumes "rocksdb_ok E" and "waits sender st = {}" and "\<forall>cmd \<in> set cmds. notify_sender cmd \<noteq> Some sender"
  shows "notify_replies sender (snd (store_run E (SNotifyRead key sender # cmds) st)) =
    (case map_of (st_db st) key of
       Some v \<Rightarrow> [Ok v]
     | None \<Rightarrow> (case first_write key cmds of None \<Rightarrow> [] | Some v \<Rightarrow> [Ok v]))"
  using assms by (rule notify_read_answer)

theorem notify_read_is_answered_witness:
  "notify_replies 7 (snd (store_run ex_ext [SNotifyRead [1] 7, SWrite [2] [0], SWrite [1] [3], SWrite [1] [4]] store_new)) = [Ok [3]]"
  using notify_read_is_answered [OF ex_rocksdb, of 7 store_new "[SWrite [2] [0], SWrite [1] [3], SWrite [1] [4]]" "[1]"]
  by (simp add: waits_def store_new_def entry_or_def)

text \<open>
  C20. The two views of the leaders of a height agree: a member has an index as leader exactly when it is among those
  the votes of the height before are sent to, and the index is its position in that list.
\<close>

theorem leader_index_matches_window:
  assumes "wf_elector le" and "k \<in> set (le_names le)" and "unat (le_window le) \<le> length (le_names le)"
    and "get_leaders le height = Ok ls"
  shows "((\<exists>i. index_as_leader le k height = Ok (Some i)) \<longleftrightarrow> k \<in> set ls) \<and>
    (\<forall>i. index_as_leader le k height = Ok (Some i) \<longrightarrow> i < length ls \<and> ls ! i = k)"
  using index_as_leader_in_leaders [OF assms] leader_index_position [OF assms] by blast

theorem leader_index_matches_window_witness:
  "\<exists>i. index_as_leader (leader_elector_new one_committee 1) (ex_key 5) 3 = Ok (Some i)"
proof -
  have names: "le_names (leader_elector_new one_committee 1) = [ex_key 5]"
    by (simp add: leader_elector_new_def one_authorities Let_def)
  have wf: "wf_elector (leader_elector_new one_committee 1)"
    using names by (simp add: wf_elector_def) (simp add: leader_elector_new_def Let_def)
  have window: "unat (le_window (leader_elector_new one_committee 1)) = 1" by (simp add: leader_elector_new_def Let_def)
  have "get_leaders (leader_elector_new one_committee 1) 3 = Ok [ex_key 5]"
    using get_leaders_nth [OF wf, of 3] by (simp add: names window)
  from leader_index_matches_window [OF wf _ _ this] show ?thesis by (simp add: names window)
qed

section \<open>The core on its messages\<close>

text \<open>
  C21. Every message of fallback and agreement that is of an earlier epoch, or of a height the chain has left two
  behind, is answered with its \<open>TimeOutMessage\<close> and leaves the core unchanged.
\<close>

theorem stale_messages_refused:
  assumes "smvba_key msg = Some (epoch, height, err)" and "epoch < k_epoch s \<or> height + 2 \<le> k_height s"
  shows "handle_event E n (SmvbaMessage msg) s = (s, Err err)"
  using assms by (rule stale_refused)

theorem stale_messages_refused_witness:
  "handle_event ex_ext 5 (SmvbaMessage (FBVote ex_vote)) (ex_core\<lparr>k_epoch := 1\<rparr>) = (ex_core\<lparr>k_epoch := 1\<rparr>, Err (TimeOutMessage 0 1))"
  by (rule stale_messages_refused [where epoch = 0 and height = 1]) (simp_all add: ex_vote_def word_less_nat_alt)

text \<open>
  C22. A proposal of the current epoch whose author is a member but no leader of its height, or that does not verify, is
  refused and leaves the core unchanged.
\<close>

theorem bad_proposals_refused:
  assumes "b_epoch b = k_epoch s" and "index_of_leader (b_author b) (b_height b) s = Ok idx"
    and "idx = None \<or> block_verify E (k_committee s) b \<noteq> Ok ()"
  shows "\<exists>r. handle_event E n (CoreMessage (HsPropose b)) s = (s, r) \<and> r \<noteq> Ok ()"
  using opt_proposal_refused [OF assms] by simp

theorem bad_proposals_refused_witness:
  "\<exists>r. handle_event ex_ext 5 (CoreMessage (HsPropose (ex_block\<lparr>b_author := ex_key 5, b_signature := signature_default\<rparr>))) ex_core
     = (ex_core, r) \<and> r \<noteq> Ok ()"
proof (rule bad_proposals_refused)
  let ?b = "ex_block\<lparr>b_author := ex_key 5, b_signature := signature_default\<rparr>"
  show "b_epoch ?b = k_epoch ex_core" by (simp add: ex_block_simps ex_core_simps)
  show "index_of_leader (b_author ?b) (b_height ?b) ex_core = Ok (Some 0)"
    using ex_leader by (simp add: ex_block_simps)
  have "signature_verify ex_ext signature_default d k \<noteq> Ok ()" for d k by (rule ex_default_signature)
  then show "Some 0 = None \<or> block_verify ex_ext (k_committee ex_core) ?b \<noteq> Ok ()"
    by (auto simp: block_verify_def verify_sig_def rbind_Ok ex_core_simps)
qed

text \<open>
  C23. Each height has at most one agreement, one fallback and one halt in an epoch. After the agreement of a height was started from
  any state, and after anything that follows in the epoch (the rest of the same handler and any further messages and steps), starting
  it again, with any value, has no effect; the same holds of the fallback of a height; and after a halt message was
  acted on, every further halt message for its height, whoever sends it, leaves the node as it is.
\<close>

theorem agreement_runs_once:
  shows "(later E (fst (invoke_smvba E (exec E n) h val sigs qc s)) t \<longrightarrow> invoke_smvba E (exec E m) h val' sigs' qc' t = (t, Ok ())) \<and>
    (later E (fst (invoke_fallback E (exec E n) h fqc s)) t \<longrightarrow> invoke_fallback E (exec E m) h fqc' t = (t, Ok ())) \<and>
    (halt_accepted E s halt \<and> later E (fst (handle_smvba_halt E (exec E n) halt s)) t \<and> mh_height halt' = mh_height halt \<longrightarrow>
       fst (handle_event E m (SmvbaMessage (SMVBAHalt halt')) t) = t)"
proof (intro conjI impI)
  assume "later E (fst (invoke_smvba E (exec E n) h val sigs qc s)) t"
  from flags_stay(1) [OF this invoke_smvba_starts] show "invoke_smvba E (exec E m) h val' sigs' qc' t = (t, Ok ())"
    by (rule invoke_smvba_again)
next
  assume "later E (fst (invoke_fallback E (exec E n) h fqc s)) t"
  from flags_stay(2) [OF this invoke_fallback_starts] show "invoke_fallback E (exec E m) h fqc' t = (t, Ok ())"
    by (rule invoke_fallback_again)
next
  assume "halt_accepted E s halt \<and> later E (fst (handle_smvba_halt E (exec E n) halt s)) t \<and> mh_height halt' = mh_height halt"
  then have "k_smvba_halt_falg t (mh_height halt') = Some True" using flags_stay(3) halt_marks by metis
  then show "fst (handle_event E m (SmvbaMessage (SMVBAHalt halt')) t) = t" by (simp add: halt_again)
qed

theorem agreement_runs_once_witness:
  "(let t = fst (invoke_fallback ex_ext (exec ex_ext 4) 1 None ex_core) in invoke_fallback ex_ext (exec ex_ext 4) 1 (Some ex_qc) t = (t, Ok ())) \<and>
   (let t = fst (handle_smvba_halt ex_ext (exec ex_ext 4) ex_halt ex_electing)
    in fst (handle_event ex_ext 4 (SmvbaMessage (SMVBAHalt (ex_halt\<lparr>mh_author := ex_key 9\<rparr>))) t) = t)"
proof -
  have "invoke_fallback ex_ext (exec ex_ext 4) 1 (Some ex_qc) (fst (invoke_fallback ex_ext (exec ex_ext 4) 1 None ex_core)) =
      (fst (invoke_fallback ex_ext (exec ex_ext 4) 1 None ex_core), Ok ())"
    using agreement_runs_once [of ex_ext 4 1 _ _ _ ex_core _ 4 _ _ _ None "Some ex_qc"] later.now by blast
  moreover have "mh_height (ex_halt\<lparr>mh_author := ex_key 9\<rparr>) = mh_height ex_halt" by (simp add: ex_halt_def)
  then have "fst (handle_event ex_ext 4 (SmvbaMessage (SMVBAHalt (ex_halt\<lparr>mh_author := ex_key 9\<rparr>)))
      (fst (handle_smvba_halt ex_ext (exec ex_ext 4) ex_halt ex_electing))) = fst (handle_smvba_halt ex_ext (exec ex_ext 4) ex_halt ex_electing)"
    using agreement_runs_once [of ex_ext 4 _ _ _ _ ex_electing _ 4 _ _ _ _ _ ex_halt "ex_halt\<lparr>mh_author := ex_key 9\<rparr>"]
      later.now ex_halt_accepted by blast
  ultimately show ?thesis unfolding Let_def by blast
qed

text \<open>
  C24. When an agreement outputs a new block of the pessimistic path, the block becomes the last committed one, is
  announced on the commit channel, and the epoch ends.
\<close>

theorem agreement_output_ends_epoch:
  assumes "b_tag b = PES" and "k_epoch s \<le> b_epoch b" and "k_height s < b_height b + 2"
    and "k_last_committed_height s < b_height b"
    and "store_block E b s = (s1, Ok ())" and "commit E b s1 = (t, Ok ())"
  shows "core_turn E n (SmvbaMessage (ParLoopBack b)) s =
    (t\<lparr>k_last_committed_height := b_height b, k_commit_channel := k_commit_channel t @ [b]\<rparr>, EpochOver)"
  using par_out_ends_epoch [OF assms, of "exec E n"] by (simp add: core_turn_def)

theorem agreement_output_ends_epoch_witness:
  "snd (core_turn ex_ext 3 (SmvbaMessage (ParLoopBack (ex_full_block\<lparr>b_tag := PES\<rparr>))) ex_core) = EpochOver"
proof -
  let ?b = "ex_full_block\<lparr>b_tag := PES\<rparr>"
  obtain s1 where store: "store_block ex_ext ?b ex_core = (s1, Ok ())" and alive: "mp_alive (k_mempool s1)"
    using store_block_Ok [of ex_ext ?b ex_core] by (metis ex_core_simps(13) ex_mempool_simps(1))
  obtain t where "commit ex_ext ?b s1 = (t, Ok ())"
    using commit_on_genesis [of ?b s1] alive ex_full_qc(1) by auto
  from agreement_output_ends_epoch [OF _ _ _ _ store this] show ?thesis
    by (simp add: ex_full_qc ex_core_simps PES_def ex_full_block_def ex_block_simps)
qed

text \<open>
  C25. However long a node has run, over any epochs, what it starts the next epoch with is a core made anew, as when it booted: the same name,
  committee, parameters, keys and paths, a new leader elector, and everything about votes, certificates, fallback,
  agreement, coins and the timer as in a new core. What it keeps is the mempool and the synchronizer, what it has sent, announced, logged and signed, its clock,
  and its channels, to which exactly the parked proposals of that epoch are added, in order. At any time
  the parked messages are proposals of epochs later than the current one, and none is left after the change.
\<close>

theorem next_epoch_starts_fresh:
  assumes "(node_step E)\<^sup>*\<^sup>* (core_new name c p svc pk le mempool sync opt_path pes_path) s"
  shows "epoch_fresh e (next_epoch e s) \<and>
    next_epoch e s = (core_new name c p svc pk (leader_elector_new c (leader_window p)) (k_mempool s) (k_synchronizer s) opt_path pes_path)
      \<lparr>k_epoch := e,
       k_tx_core := k_tx_core s @ map snd (filter (\<lambda>(e', msg). e' = e \<and> is_hs_propose msg) (k_unhandle_message s)),
       k_tx_smvba := k_tx_smvba s @ map snd (filter (\<lambda>(e', msg). e' = e \<and> \<not> is_hs_propose msg) (k_unhandle_message s)),
       k_network_filter := k_network_filter s, k_network_filter_smvba := k_network_filter_smvba s,
       k_commit_channel := k_commit_channel s, k_clock := k_clock s, k_signed_votes := k_signed_votes s,
       k_commit_log := k_commit_log s\<rparr> \<and>
    k_unhandle_message (next_epoch e s) = [] \<and>
    (\<forall>(e', msg) \<in> set (k_unhandle_message s). k_epoch s < e' \<and> parkable e' msg)"
proof -
  have parked: "parked_ok s" using parked_inv [OF assms] by (simp add: parked_ok_def core_new_simps)
  have kept: "k_name s = name" "k_committee s = c" "k_parameters s = p" "k_signature_service s = svc" "k_pk_set s = pk"
      "k_opt_path s = opt_path" "k_pes_path s = pes_path" "k_fallback_length s = fallback_length p"
    using node_run_setup [OF assms]
    by (simp_all add: setup_of_def) (simp_all add: core_new_def update_prepare_state_def update_smvba_state_def)
  have new: "next_epoch e s = (core_new name c p svc pk (leader_elector_new c (leader_window p)) (k_mempool s) (k_synchronizer s)
      opt_path pes_path)\<lparr>k_epoch := e,
       k_tx_core := k_tx_core s @ map snd (filter (\<lambda>(e', msg). e' = e \<and> is_hs_propose msg) (k_unhandle_message s)),
       k_tx_smvba := k_tx_smvba s @ map snd (filter (\<lambda>(e', msg). e' = e \<and> \<not> is_hs_propose msg) (k_unhandle_message s)),
       k_network_filter := k_network_filter s, k_network_filter_smvba := k_network_filter_smvba s,
       k_commit_channel := k_commit_channel s, k_clock := k_clock s, k_signed_votes := k_signed_votes s, k_commit_log := k_commit_log s\<rparr>"
    using next_epoch_new [OF parked_ok_parkable [OF parked], of e] by (simp add: kept)
  have "le_random_coins (leader_elector_new c (leader_window p)) = Map.empty" by (simp add: leader_elector_new_def Let_def)
  from core_new_fresh [OF this] have "epoch_fresh e (next_epoch e s)" unfolding new by (simp add: epoch_fresh_def)
  with new next_epoch_unparked [OF parked_ok_parkable [OF parked]] parked show ?thesis unfolding parked_ok_def by blast
qed

theorem next_epoch_starts_fresh_witness:
  "let s = fst (core_turn ex_ext 0 (CoreMessage (HsPropose (ex_block\<lparr>b_epoch := 1\<rparr>))) ex_core)
   in k_unhandle_message s = [(1, HsPropose (ex_block\<lparr>b_epoch := 1\<rparr>))] \<and> epoch_fresh 1 (next_epoch 1 s) \<and>
     k_tx_core (next_epoch 1 s) = [HsPropose (ex_block\<lparr>b_epoch := 1\<rparr>)]"
proof -
  let ?b = "ex_block\<lparr>b_epoch := 1\<rparr>"
  let ?s = "ex_core\<lparr>k_unhandle_message := [(1, HsPropose ?b)]\<rparr>"
  have turn: "core_turn ex_ext 0 (CoreMessage (HsPropose ?b)) ex_core = (?s, EpochOver)"
    using later_epoch_ends [of ex_core ?b ex_ext 0] by (simp add: ex_core_simps word_less_nat_alt)
  then have "?s = fst (handle_event ex_ext 0 (CoreMessage (HsPropose ?b)) ex_core)" by (rule core_turn_event)
  then have "(node_step ex_ext)\<^sup>*\<^sup>* ex_core ?s"
    using node_step.inside [OF epoch_step.event [of ex_ext ex_core 0 "CoreMessage (HsPropose ?b)"]] by (metis r_into_rtranclp)
  then have "(node_step ex_ext)\<^sup>*\<^sup>* (core_new (ex_key 5) one_committee parameters_default (ex_service 5) []
      (leader_elector_new one_committee 2) ex_mempool synchronizer_new True False) ?s"
    unfolding ex_core_def [symmetric] .
  note new = next_epoch_starts_fresh [OF this, of 1]
  have "k_tx_core (next_epoch 1 ?s) = [HsPropose ?b]"
    by (subst conjunct1 [OF conjunct2 [OF new]]) (simp add: ex_core_simps is_hs_propose_def)
  with conjunct1 [OF new] show ?thesis unfolding turn fst_conv Let_def by simp
qed

section \<open>Messages and signatures\<close>


text \<open>
  C27. What a member makes with its own key is accepted by everyone: its blocks, when the certificate they extend is the
  genesis one or verifies, its votes and its votes of the broadcast (Ed25519 verifies what it has signed).
\<close>

theorem own_messages_verify:
  assumes "ed25519_ok E" and "0 < stake c (service_key svc)"
  shows "(qc_eq qc qc_genesis \<or> qc_verify E c qc = Ok () \<longrightarrow>
      block_new E svc qc (service_key svc) height epoch rnd payload tag = (Ok b :: Block ConsensusResult) \<longrightarrow> block_verify E c b = Ok ()) \<and>
    (hvote_new E svc b' (service_key svc) tag = (Ok v :: HVote ConsensusResult) \<longrightarrow> hvote_verify E c v = Ok ()) \<and>
    (spbvote_new E svc value (service_key svc) = (Ok w :: SPBVote ConsensusResult) \<longrightarrow> spbvote_verify E c w = Ok ())"
  using fresh_block_verifies [OF assms(1) _ assms(2)] fresh_hvote_verifies [OF assms(1) _ assms(2)]
    fresh_spbvote_verifies [OF assms(1) _ assms(2)] by blast

theorem own_messages_verify_witness: "hvote_verify ex_ext one_committee ex_vote = Ok ()"
proof -
  have "0 < stake one_committee (service_key (ex_service 5))" by (simp add: ex_service_key one_stake)
  moreover have "hvote_new ex_ext (ex_service 5) ex_block (service_key (ex_service 5)) OPT = (Ok ex_vote :: HVote ConsensusResult)"
    by (simp add: ex_service_key ex_new_vote)
  ultimately show ?thesis using own_messages_verify [OF ex_ed25519] by blast
qed

text \<open>
  C28. The key file the program prints is read back as the key pair that was generated, through JSON and base64, when there
  was no file before. Where there was one, its bytes beyond the length of the new text are not cut off: the file
  reads back exactly when these are white space, and is an error otherwise.
\<close>

theorem key_file_round_trip:
  assumes "json_ok J" and "base64_ok E" and "keypair_gen_ok E gen" and "fs_refuses fs path = None"
  shows "export_read J (de_secret E) (fst (print_key_file E J gen g path fs)) path =
    (let secret = fst (secret_new gen g);
         tail = drop (length (export_bytes J (ser_secret E secret))) (case fs_files fs path of Some old \<Rightarrow> old | None \<Rightarrow> [])
     in if white_space tail then Ok secret
        else Err (ReadError path (json_error J (export_bytes J (ser_secret E secret) @ tail))))"
proof -
  have "secret_wf E (fst (secret_new gen g))"
    using generate_secrets_wf [OF assms(3,2), of "fst (secret_new gen g)" 1 g] by (simp add: case_prod_beta)
  from secret_file.written_then_read [OF assms(1) this assms(4)] show ?thesis
    by (simp only: print_key_file_def Let_def)
qed

theorem key_file_round_trip_witness:
  "export_read ex_json (de_secret ex_ext) (fst (print_key_file ex_ext ex_json ex_gen 2 ''key'' ex_fs)) ''key'' = Ok (fst (secret_new ex_gen 2))"
proof -
  have "fs_refuses ex_fs ''key'' = None" "fs_files ex_fs ''key'' = None" by (simp_all add: ex_fs_def)
  with key_file_round_trip [OF ex_json_ok ex_base64 ex_gen_ok, of ex_fs "''key''" 2] show ?thesis
    by (simp add: Let_def white_space_def)
qed

section \<open>Network, node and client\<close>

text \<open>
  C29. From core to core: whatever the filter holds back, however often a worker of the sender dies and is replaced, a
  receiver delivers from a connection only messages that the sending core meant for its address, none of
  them more often than it was sent; and what the sender writes to an address is in the order the filter
  handed it over, with gaps but without repetition. Each of the two channels of the filter has its own sender. bincode reads back
  what it wrote of the messages sent.
\<close>

theorem messages_reach_peers:
  assumes "(filter_step p ser)\<^sup>*\<^sup>* (filter_new inputs inputs_smvba) f"
    and "(lane, sent) \<in> {(ft_core, inputs), (ft_smvba, inputs_smvba)}"
    and "net_step\<^sup>*\<^sup>* (net_sender_new (ln_output (lane f))) n"
    and "net_receiver_run bound = (Ok r :: (ConsensusError, ConsensusMessage NetReceiver) result)" and "(receiver_step de)\<^sup>*\<^sup>* r r'"
    and "i < length (rv_accepted r')" and "rv_accepted r' ! i = map Some zs" and "subseq zs (wire_to a n)"
    and "\<And>m. m \<in> fst ` set sent \<Longrightarrow> de (ser m) = Some m"
  shows "mset (delivered_from i r') \<subseteq># mset (meant_for a sent) \<and> subseq (wire_to a n) (inputs_to a (ln_output (lane f)))"
  using core_to_core [OF assms(1-3,8,7,6) receiver_run_ok [OF assms(5) receiver_ok_start [OF assms(4)]] assms(9)]
    net_run_fifo [OF assms(3)] by blast

theorem messages_reach_peers_witness:
  "\<exists>(f :: Filter) (n :: NetSender) (r :: ConsensusMessage NetReceiver). delivered_from 0 r = [HSVote ex_vote] \<and>
     mset (delivered_from 0 r) \<subseteq># mset (meant_for ex_peer [(HSVote ex_vote, [ex_peer])]) \<and>
     subseq (wire_to ex_peer n) (inputs_to ex_peer (ln_output (ft_core f)))"
proof -
  obtain f where f: "(filter_step parameters_default ex_ser)\<^sup>*\<^sup>* (filter_new [(HSVote ex_vote, [ex_peer])] []) f"
    "ln_output (ft_core f) = [NetMessage [3] [ex_peer]]"
    using ex_filtered by blast
  obtain n where n: "net_step\<^sup>*\<^sup>* (net_sender_new (ln_output (ft_core f))) n" "wire_to ex_peer n = [[3]]"
    using ex_sent f(2) by auto
  obtain r where r: "(receiver_step ex_de)\<^sup>*\<^sup>* \<lparr>rv_accepted = [], rv_left = [], rv_deliver = []\<rparr> r"
    "rv_accepted r = [[Some [3]]]" "delivered_from 0 r = [HSVote ex_vote]"
    using ex_received by blast
  have "mset (delivered_from 0 r) \<subseteq># mset (meant_for ex_peer [(HSVote ex_vote, [ex_peer])]) \<and>
      subseq (wire_to ex_peer n) (inputs_to ex_peer (ln_output (ft_core f)))"
  proof (rule messages_reach_peers [where lane = ft_core and bound = True and zs = "[[3]]", OF f(1) _ n(1)])
    show "(receiver_step ex_de)\<^sup>*\<^sup>* \<lparr>rv_accepted = [], rv_left = [], rv_deliver = []\<rparr> r" by (rule r(1))
  qed (auto simp: net_receiver_run_def r(2) n(2) ex_de_def ex_ser_def)
  with r(3) show ?thesis by blast
qed

text \<open>
  C30. A node that boots from its files with a protocol starts in epoch 0 with fresh state, the invariant of the mempool,
  nothing parked, signed or announced, under the name of its key file, with the committee of the committee file,
  and with at least one of the two paths enabled.
\<close>

theorem booted_node:
  assumes "node_new E J open_store fs args = Ok (Some s)"
  shows "\<exists>c mc secret. export_read J (de_committee E J) fs (na_committee args) = Ok (c, mc) \<and>
    export_read J (de_secret E) fs (na_keys args) = Ok secret \<and> k_committee s = c \<and> k_name s = sec_name secret \<and>
    epoch_fresh 0 s \<and> mempool_inv F (k_mempool s) \<and>
    k_unhandle_message s = [] \<and> k_signed_votes s = [] \<and> k_commit_channel s = [] \<and> (k_opt_path s \<or> k_pes_path s)"
  using assms by (rule node_new_core)

theorem booted_node_witness: "\<exists>fs args s. node_new ex_ext ex_json (\<lambda>_. Ok store_new) fs args = Ok (Some s) \<and> epoch_fresh 0 s"
proof -
  from ex_deployed obtain fs1 fs2 where deployed: "deploy_testbed ex_ext ex_json ex_gen 2 4 ex_fs = (fs1, Ok (map testbed_args [0..<4]))"
    "print_threshold_key_file ex_json ex_key_set ex_share_files fs1 = (fs2, Ok ())"
    and "\<forall>f \<in> set ex_share_files. fs_files fs1 f = None" by blast
  then obtain args s where boot: "node_new ex_ext ex_json (\<lambda>_. Ok store_new) fs2 args = Ok (Some s)"
    using testbed_boots [OF ex_json_ok ex_tss_serde ex_base64 ex_gen_ok ex_v6 deployed(1) ex_names_distinct deployed(2), of 0 "\<lambda>_. Ok store_new" "''db''" store_new]
    by (auto simp: ex_share_files_def)
  from booted_node [OF this] boot show ?thesis by blast
qed

text \<open>
  C31. Deploying a testbed and printing threshold keys for as many nodes leave files from which each node boots, under its
  generated name, with its key pair, its share of the coin's key and the common committee. The nodes that the command
  itself starts do not: they are given their key file for the file of threshold keys, and stop with an error.
\<close>

theorem deployed_testbed:
  assumes "json_ok J" and "tss_serde_ok J" and "base64_ok E" and "keypair_gen_ok E gen" and "v6_bracketed (v6_parse J)"
    and "deploy_testbed E J gen g n fs = (fs1, Ok handles)" and "distinct (map sec_name (generate_secrets gen n g))"
    and "print_threshold_key_file J random_set files fs1 = (fs2, Ok ())" and "length files = n" and "distinct files"
    and "\<And>f. f \<in> set files \<Longrightarrow> fs_files fs1 f = None" and "i < n" and "open_store path = Ok st"
  shows "(\<exists>s. node_new E J open_store fs2 \<lparr>na_committee = ''committee.json'', na_keys = node_key_file i,
       na_threshold_keys = files ! i, na_store = path, na_parameters = None\<rparr> = Ok (Some s) \<and>
     k_name s = sec_name (generate_secrets gen n g ! i) \<and>
     k_committee s = testbed_committee (map sec_name (generate_secrets gen n g)) \<and>
     k_signature_service s = \<lparr>ss_secret = sec_secret (generate_secrets gen n g ! i),
       ss_tss = Some (ks_secret_share (random_set (tss_threshold (word_of_nat n))) (word_of_nat i))\<rparr> \<and>
     k_pk_set s = ks_public (random_set (tss_threshold (word_of_nat n)))) \<and>
    (\<exists>msg. node_new E J open_store fs1 (handles ! i) = Err (ReadError (node_key_file i) msg))"
proof -
  have "handles = map testbed_args [0..<n]" using deploy_testbed_files [OF assms(6,5)] by simp
  with assms(12) have "handles ! i \<in> set handles" "na_keys (handles ! i) = node_key_file i" by (simp_all add: testbed_args_def)
  with testbed_boots [where open_store = open_store and path = path and st = st, OF assms] testbed_nodes_fail [OF assms(1,3-7), of "handles ! i" open_store] assms(12) show ?thesis
    by simp
qed

theorem deployed_testbed_witness:
  "\<exists>fs msg. node_new ex_ext ex_json (\<lambda>_. Ok store_new) fs (testbed_args 1) = Err (ReadError (node_key_file 1) msg)"
proof -
  from ex_deployed obtain fs1 fs2 where deployed: "deploy_testbed ex_ext ex_json ex_gen 2 4 ex_fs = (fs1, Ok (map testbed_args [0..<4]))"
    "print_threshold_key_file ex_json ex_key_set ex_share_files fs1 = (fs2, Ok ())"
    and fresh: "\<forall>f \<in> set ex_share_files. fs_files fs1 f = None" by blast
  have "\<exists>msg. node_new ex_ext ex_json (\<lambda>_. Ok store_new) fs1 (map testbed_args [0..<4] ! 1) = Err (ReadError (node_key_file 1) msg)"
    using deployed_testbed [OF ex_json_ok ex_tss_serde ex_base64 ex_gen_ok ex_v6 deployed(1) ex_names_distinct deployed(2),
      of 1 "\<lambda>_. Ok store_new" "''db''" store_new] fresh by (simp add: ex_share_files_def)
  then show ?thesis by (auto simp: eval_nat_numeral)
qed

text \<open>
  C32. Deploying for distinct keys panics beyond 58236 nodes, where a port does not fit into 16 bits. Up to there the coin of
  the committee waits for exactly one share more than the threshold of the keys dealt for as many nodes, and the
  addresses of the nodes are all different exactly up to 100 nodes, since the blocks of ports are a hundred apart.
\<close>

theorem deployed_committee:
  assumes "v6_bracketed (v6_parse J)" and "distinct keys" and "keys \<noteq> []"
  shows "(deploy_committees J keys = Panic \<longleftrightarrow> 58236 < length keys) \<and>
    (deploy_committees J keys = Ok (c, mc) \<longrightarrow>
       unat (random_coin_threshold c) = unat (tss_threshold (word_of_nat (length keys))) + 1 \<and>
       (distinct (committee_addresses (c, mc)) \<longleftrightarrow> length keys \<le> 100))"
  using tss_threshold_matches [OF assms(2,3)] testbed_ports_distinct [OF assms(2)] by (auto simp: deploy_committees_eq [OF assms(1)])

theorem deployed_committee_witness:
  "unat (random_coin_threshold four_committee) = unat (tss_threshold 4) + 1 \<and>
   distinct (committee_addresses (four_committee, testbed_mempool_committee [ex_key 5, ex_key 2, ex_key 3, ex_key 4]))"
  using deployed_committee [OF ex_v6 four_keys, of four_committee "testbed_mempool_committee [ex_key 5, ex_key 2, ex_key 3, ex_key 4]"]
  by (simp add: deploy_committees_eq [OF ex_v6] four_committee_def)

text \<open>
  C33. The benchmark client with valid arguments gets through waiting when every node accepts a connection at one of the
  times it is tried, and not before all of them did and the synchronisation time has passed. It then refuses transactions of fewer
  than nine bytes, and otherwise sends no transaction twice, from whatever random number it starts, as long
  as the bursts have at most \<open>2\<^sup>6\<^sup>4\<close> transactions in all.
\<close>

theorem client_never_repeats:
  assumes "client_parse v6 args = Ok cl" and "\<And>a. a \<in> set (cl_nodes cl) \<Longrightarrow> \<exists>i. up a (10 * i)"
    and "k * unat (cl_rate cl div 20) \<le> 2 ^ 64"
  shows "\<exists>t. client_wait up cl = Some t \<and> (\<forall>a \<in> set (cl_nodes cl). \<exists>t'. up a t' \<and> t' + unat (cl_synctime cl) \<le> t) \<and>
    (if cl_size cl < 9 then client_main v6 up args k accepted r = Err TransactionTooSmall
     else if \<not> up (cl_target cl) t then client_main v6 up args k accepted r = Err (FailedToConnect (cl_target cl))
     else \<exists>txs. client_main v6 up args k accepted r = Ok (Some (t, txs)) \<and> distinct txs \<and>
       (\<forall>tx \<in> set txs. length tx = unat (cl_size cl)))"
proof -
  obtain t where t: "client_wait up cl = Some t" using client_wait_ends assms(2) by blast
  have "9 \<le> unat (cl_size cl)" if "\<not> cl_size cl < 9" using that by (simp add: not_less word_le_nat_alt)
  with client_bursts_distinct [OF _ assms(3), of "unat (cl_size cl)"] client_bursts_size client_wait_after [OF t]
  show ?thesis by (intro exI [of _ t]) (auto simp: client_main_def client_send_def assms(1) t dest: in_set_takeD)
qed

theorem client_never_repeats_witness:
  "\<exists>t txs. client_main (\<lambda>_. None) (\<lambda>_ t. 20 \<le> t) \<lparr>arg_addr = ''127.0.0.1:7000'', arg_size = ''16'', arg_rate = ''60'',
     arg_timeout = ''5'', arg_synctime = ''30'', arg_nodes = [''127.0.0.1:7000'']\<rparr> 5 12 7 = Ok (Some (t, txs)) \<and> distinct txs"
proof -
  let ?args = "\<lparr>arg_addr = ''127.0.0.1:7000'', arg_size = ''16'', arg_rate = ''60'', arg_timeout = ''5'', arg_synctime = ''30'',
    arg_nodes = [''127.0.0.1:7000'']\<rparr>"
  let ?cl = "\<lparr>cl_target = loopback_addr 7000, cl_size = 16, cl_rate = 60, cl_timeout = 5, cl_synctime = 30,
    cl_nodes = [loopback_addr 7000]\<rparr>"
  have parse: "client_parse (\<lambda>_. None) ?args = Ok ?cl"
    by (simp add: client_parse_def parse_addr_def parse_addr_v4_def loopback_ipv4 loopback_addr_def
        parse_u64_def parse_uint_def read_number_def digit_value_def)
  have "\<exists>i :: nat. 20 \<le> 10 * i" by (rule exI [of _ 2]) simp
  then obtain t where "client_wait (\<lambda>_ t. 20 \<le> t) ?cl = Some t" "\<exists>t'. 20 \<le> t' \<and> t' + 30 \<le> t"
    "if cl_size ?cl < 9 then client_main (\<lambda>_. None) (\<lambda>_ t. 20 \<le> t) ?args 5 12 7 = Err TransactionTooSmall
     else if \<not> 20 \<le> t then client_main (\<lambda>_. None) (\<lambda>_ t. 20 \<le> t) ?args 5 12 7 = Err (FailedToConnect (cl_target ?cl))
     else \<exists>txs. client_main (\<lambda>_. None) (\<lambda>_ t. 20 \<le> t) ?args 5 12 7 = Ok (Some (t, txs)) \<and> distinct txs \<and>
       (\<forall>tx \<in> set txs. length tx = unat (cl_size ?cl))"
    using client_never_repeats [OF parse, of "\<lambda>_ t. 20 \<le> t" 5 12 7] by auto
  then show ?thesis by auto
qed

section \<open>Limits of the checks\<close>

text \<open>
  C34. The quorum falls short of \<open>N - f\<close>, which its comment names, by \<open>(N - 1) mod 3\<close>: two quorums are sure to overlap in
  more than the \<open>f\<close> units of stake that may be faulty exactly when \<open>N = 3 f + 1\<close>.
\<close>

theorem quorums_of_other_sizes:
  assumes "wf_committee c"
  shows "unat (quorum_threshold c) + (total_stake c - 1) mod 3 = total_stake c - max_faults c \<and>
    (total_stake c + max_faults c < 2 * unat (quorum_threshold c) \<longleftrightarrow> total_stake c = 3 * max_faults c + 1)"
proof -
  have "total_stake c = 3 * max_faults c + 1 + (total_stake c - 1) mod 3"
    using max_faults_bound [OF assms] div_mult_mod_eq [of "total_stake c - 1" 3] by (simp add: max_faults_def)
  with quorum_overlap [OF assms] show ?thesis by auto
qed

theorem quorums_of_other_sizes_witness:
  "total_stake six_committee = 6 \<and> unat (quorum_threshold six_committee) = 3"
  using quorums_of_other_sizes [OF six_wf] by (simp add: six_total max_faults_def)

text \<open>
  C35. \<open>SPBProof::verify\<close> does not ask for distinct authors: one valid share, repeated until its stake adds up to a
  quorum, is a proof that verifies.
\<close>

theorem one_share_proves:
  assumes "spbvote_verify E c v = Ok ()" and "LOCK_PHASE \<le> phase"
    and "quorum_threshold c \<le> word_of_nat n * stake c (sp_author v)"
  shows "spbproof_verify E c \<lparr>pf_phase = phase, pf_round = rnd, pf_height = height, pf_shares = replicate n v\<rparr> = Ok ()"
  using assms by (rule repeated_share_proof)

theorem one_share_proves_witness:
  "spbproof_verify ex_ext four_committee \<lparr>pf_phase = FIN_PHASE, pf_round = 1, pf_height = 1, pf_shares = replicate 3 ex_spb_vote\<rparr> = Ok ()"
  by (rule one_share_proves) (simp_all add: ex_spb_vote_verifies phase_defs four_stake four_quorum ex_spb_vote_author)

text \<open>
  C36. \<open>PrePare::verify\<close> does not ask for stake: a prepare message made with any key at all, a member's or not, verifies
  if the certificate in it is the genesis one or verifies and fits its value.
\<close>

theorem outsiders_prepare:
  assumes "ed25519_ok E" and "prepare_new E svc (service_key svc) epoch height qc val = Ok p" and "val = OPT \<or> val = PES"
    and "qc_eq qc qc_genesis \<or> qc_verify E c qc = Ok ()" and "qc_tag qc = PES \<longrightarrow> qc_round qc = fb_length"
  shows "prepare_verify E c fb_length p = Ok ()"
  using assms by (rule fresh_prepare_verifies)

theorem outsiders_prepare_witness:
  "\<exists>p. pp_author p = ex_key 9 \<and> stake one_committee (pp_author p) = 0 \<and> prepare_verify ex_ext one_committee 3 p = Ok ()"
proof -
  obtain p where p: "prepare_new ex_ext (ex_service 9) (service_key (ex_service 9)) 0 1 qc_genesis OPT = Ok p"
    by (simp add: prepare_new_def ex_sign Let_def)
  then have "pp_author p = ex_key 9" by (auto simp: prepare_new_def ex_sign Let_def ex_service_key)
  moreover have "prepare_verify ex_ext one_committee 3 p = Ok ()"
    by (rule outsiders_prepare [OF ex_ed25519 p]) (simp_all add: qc_eq_def qc_genesis_def tag_defs)
  ultimately show ?thesis using ex_outsider by auto
qed

text \<open>
  C37. A node that starts the agreement of a height on an optimistic prepare, \<open>invoke_smvba\<close> with \<open>OPT\<close> and no signatures, which is how
  \<open>handle_par_prepare\<close> calls it, first broadcasts a proposal to all other members. Every peer that makes the checks
  (parameter \<open>exp\<close> is 1) and whose fallback length is not zero refuses that very message with an error and stays as it is, whatever its state.
\<close>

theorem optimistic_values_rejected:
  assumes "k_smvba_is_invoke s h \<noteq> Some True"
    and "wf_committee (k_committee peer)" and "k_fallback_length peer \<noteq> 0" and "exp_checks (k_parameters peer) = 1"
  shows "\<exists>msg rest. k_network_filter_smvba (fst (invoke_smvba E (exec E n) h OPT [] qc s)) =
      k_network_filter_smvba s @ (msg, smvba_broadcast_addresses (k_committee s) (k_name s)) # rest \<and>
    (\<exists>e. handle_event E m (SmvbaMessage msg) peer = (peer, Err e))"
  using opt_start_sends [OF assms(1), of E n "[]" qc] opt_start_refused [OF assms(2-4), of E m s h] by blast

theorem optimistic_values_rejected_witness:
  "\<exists>msg rest. k_network_filter_smvba (fst (invoke_smvba ex_ext (exec ex_ext 4) 4 OPT [] None ex_core)) =
      (msg, smvba_broadcast_addresses one_committee (ex_key 5)) # rest \<and>
    (\<exists>e. handle_event ex_ext 4 (SmvbaMessage msg) (ex_core\<lparr>k_committee := six_committee\<rparr>) = (ex_core\<lparr>k_committee := six_committee\<rparr>, Err e))"
proof -
  have "k_smvba_is_invoke ex_core 4 \<noteq> Some True" "k_fallback_length ex_core \<noteq> 0" "k_network_filter_smvba ex_core = []"
    by (simp_all add: ex_core_def core_new_def update_prepare_state_def update_smvba_state_def parameters_default_def)
  then show ?thesis
    using optimistic_values_rejected [of ex_core 4 "ex_core\<lparr>k_committee := six_committee\<rparr>" ex_ext 4 None 4] six_wf
    by (simp add: ex_core_simps parameters_default_def)
qed

text \<open>
  C38. A first block that arrives as \<open>HsLoopBack\<close> gets the vote of a node of the optimistic path that has not voted yet,
  whoever its author is and whatever its signature.
\<close>

theorem unsigned_block_gets_vote:
  assumes "qc_eq (b_qc b) qc_genesis" and "b_height b = 1" and "k_height s = 1" and "k_last_voted_height s = 0"
    and "\<not> k_pes_path s" and "index_of_leader (k_name s) 1 s = Ok idx"
    and "hvote_new E (k_signature_service s) b (k_name s) OPT = (Ok v :: HVote ConsensusResult)"
  shows "v \<in> set (k_signed_votes (fst (handle_event E n (CoreMessage (HsLoopBack b)) s)))"
  using assms by (rule loopback_signs)

theorem unsigned_block_gets_vote_witness: "ex_vote \<in> set (k_signed_votes ex_voted) \<and> block_verify ex_ext one_committee ex_block \<noteq> Ok ()"
proof
  show "ex_vote \<in> set (k_signed_votes ex_voted)"
    unfolding ex_voted_def
    by (rule unsigned_block_gets_vote [where idx = "Some 0"])
      (simp_all add: ex_core_simps ex_leader [simplified] ex_new_vote ex_block_simps)
  show "block_verify ex_ext one_committee ex_block \<noteq> Ok ()"
    by (auto simp: block_verify_def rbind_Ok ex_unknown ex_block_simps)
qed

text \<open>
  C39. A proposal that claims a later epoch is parked and ends the current epoch, before its author, its signature or its
  certificate is looked at.
\<close>

theorem later_epoch_ends_this_one:
  assumes "k_epoch s < b_epoch b"
  shows "core_turn E n (CoreMessage (HsPropose b)) s =
    (s\<lparr>k_unhandle_message := k_unhandle_message s @ [(b_epoch b, HsPropose b)]\<rparr>, EpochOver)"
  using assms by (rule later_epoch_ends)

theorem later_epoch_ends_this_one_witness:
  "snd (core_turn ex_ext 0 (CoreMessage (HsPropose (ex_block\<lparr>b_epoch := 7\<rparr>))) ex_core) = EpochOver"
  using later_epoch_ends_this_one [of ex_core "ex_block\<lparr>b_epoch := 7\<rparr>" ex_ext 0] by (simp add: ex_core_simps word_less_nat_alt)

end
